(* ===== verification/Boxel_Prelude.thy ===== *)
theory Boxel_Prelude
  imports Main "HOL-Library.Sublist"
begin

text \<open>
  Shared ground of the development: the byte-string functions of Go's \<^verbatim>\<open>strings\<close> and
  \<^verbatim>\<open>strconv\<close> packages that boxel calls, and generic lemmas on lists, maps and
  reachability. A Go string is a byte sequence, so it is a \<^typ>\<open>string\<close> here:
  a list of 8-bit characters. Times are integers counting nanoseconds.
\<close>

named_theorems str_simps \<open>evaluation rules for the byte-string functions\<close>
named_theorems inv_intros \<open>preservation rules for the components' invariants\<close>

type_synonym time = int
type_synonym duration = int

abbreviation nl :: char where "nl \<equiv> CHR 0x0A"
abbreviation slash :: char where "slash \<equiv> CHR ''/''"

abbreviation second :: duration where "second \<equiv> 1000000000"
abbreviation millisecond :: duration where "millisecond \<equiv> 1000000"

section \<open>Prefixes, suffixes and search\<close>

definition has_prefix :: "string \<Rightarrow> string \<Rightarrow> bool" where
  "has_prefix s p = (take (length p) s = p)"

definition has_suffix :: "string \<Rightarrow> string \<Rightarrow> bool" where
  "has_suffix s p = (length p \<le> length s \<and> drop (length s - length p) s = p)"

definition trim_prefix :: "string \<Rightarrow> string \<Rightarrow> string" where
  "trim_prefix s p = (if has_prefix s p then drop (length p) s else s)"

definition trim_suffix :: "string \<Rightarrow> string \<Rightarrow> string" where
  "trim_suffix s p = (if has_suffix s p then take (length s - length p) s else s)"

lemma has_prefix_iff: "has_prefix s p \<longleftrightarrow> (\<exists>r. s = p @ r)"
  unfolding has_prefix_def by (metis append_eq_conv_conj append_take_drop_id)

lemma has_suffix_iff: "has_suffix s p \<longleftrightarrow> (\<exists>r. s = r @ p)"
  unfolding has_suffix_def
  by (metis append_eq_conv_conj append_take_drop_id diff_diff_cancel length_drop length_append le_add2 add_diff_cancel_right')

lemma has_prefix_append [simp]: "has_prefix (p @ r) p"
  by (auto simp: has_prefix_iff)

lemma has_suffix_append [simp]: "has_suffix (r @ p) p"
  by (auto simp: has_suffix_iff)

lemma has_prefix_Nil [simp]: "has_prefix s []"
  by (simp add: has_prefix_def)

lemma has_prefix_Cons [simp]: "has_prefix (c # s) (d # p) \<longleftrightarrow> c = d \<and> has_prefix s p"
  by (auto simp: has_prefix_def)

lemma has_prefix_empty [simp]: "has_prefix [] p \<longleftrightarrow> p = []"
  by (auto simp: has_prefix_def)

lemma has_prefix_length: "has_prefix s p \<Longrightarrow> length p \<le> length s"
  by (auto simp: has_prefix_iff)

lemma has_suffix_length: "has_suffix s p \<Longrightarrow> length p \<le> length s"
  by (auto simp: has_suffix_iff)

lemma trim_prefix_append [simp]: "trim_prefix (p @ r) p = r"
  by (simp add: trim_prefix_def)

lemma trim_suffix_append [simp]: "trim_suffix (r @ p) p = r"
  by (simp add: trim_suffix_def)

text \<open>\<^verbatim>\<open>strings.Index\<close>: the first position at which the argument occurs.\<close>

fun index_of :: "string \<Rightarrow> string \<Rightarrow> nat option" where
  "index_of [] p = (if p = [] then Some 0 else None)"
| "index_of (c # s) p =
     (if has_prefix (c # s) p then Some 0 else map_option Suc (index_of s p))"

definition str_contains :: "string \<Rightarrow> string \<Rightarrow> bool" where
  "str_contains s p = (index_of s p \<noteq> None)"

definition contains_any :: "string \<Rightarrow> string \<Rightarrow> bool" where
  "contains_any s cs = (\<exists>c\<in>set s. c \<in> set cs)"

lemma index_of_Some:
  "index_of s p = Some i \<Longrightarrow> \<exists>r. s = take i s @ p @ r \<and> i + length p \<le> length s"
proof (induction s arbitrary: i)
  case Nil
  then show ?case by (auto split: if_splits)
next
  case (Cons c s)
  show ?case
  proof (cases "has_prefix (c # s) p")
    case True
    with Cons.prems have "i = 0" by simp
    with True has_prefix_length [OF True] show ?thesis by (auto simp: has_prefix_iff)
  next
    case False
    with Cons.prems obtain j where "index_of s p = Some j" "i = Suc j" by auto
    with Cons.IH [of j] show ?thesis by auto
  qed
qed

lemma index_of_None: "index_of s p = None \<longleftrightarrow> (\<forall>a b. s \<noteq> a @ p @ b)"
proof (induction s)
  case Nil
  then show ?case by auto
next
  case (Cons c s)
  have "(\<exists>a b. c # s = a @ p @ b) \<longleftrightarrow> has_prefix (c # s) p \<or> (\<exists>a b. s = a @ p @ b)"
    unfolding has_prefix_iff by (metis append_Cons append_Nil list.exhaust list.inject)
  with Cons show ?case by auto
qed

lemma str_contains_iff: "str_contains s p \<longleftrightarrow> (\<exists>a b. s = a @ p @ b)"
  using index_of_None [of s p] by (auto simp: str_contains_def)

section \<open>Splitting and joining\<close>

text \<open>\<^verbatim>\<open>strings.Split\<close> on a one-character separator: never returns an empty list.\<close>

fun split_char :: "char \<Rightarrow> string \<Rightarrow> string list" where
  "split_char d [] = [[]]"
| "split_char d (c # s) =
     (if c = d then [] # split_char d s
      else (case split_char d s of [] \<Rightarrow> [[c]] | w # ws \<Rightarrow> (c # w) # ws))"

fun join_with :: "string \<Rightarrow> string list \<Rightarrow> string" where
  "join_with sep [] = []"
| "join_with sep [w] = w"
| "join_with sep (w # v # ws) = w @ sep @ join_with sep (v # ws)"

lemma split_char_nonempty [simp]: "split_char d s \<noteq> []"
  by (induction s) (auto split: list.splits)

lemma join_with_Cons: "ws \<noteq> [] \<Longrightarrow> join_with sep (w # ws) = w @ sep @ join_with sep ws"
  by (cases ws) auto

lemma join_split [simp]: "join_with [d] (split_char d s) = s"
proof (induction s)
  case (Cons c s)
  obtain w ws where w: "split_char d s = w # ws"
    by (cases "split_char d s") auto
  with Cons show ?case by (cases ws) auto
qed simp

lemma split_char_no_sep: "d \<notin> set w \<Longrightarrow> split_char d w = [w]"
  by (induction w) auto

lemma split_char_append:
  "d \<notin> set w \<Longrightarrow> split_char d (w @ d # s) = w # split_char d s"
  by (induction w) auto

lemma split_join: "ws \<noteq> [] \<Longrightarrow> \<forall>w\<in>set ws. d \<notin> set w \<Longrightarrow> split_char d (join_with [d] ws) = ws"
proof (induction ws)
  case (Cons w ws)
  then show ?case
    by (cases ws) (auto simp: split_char_no_sep split_char_append)
qed simp

lemma split_char_parts: "w \<in> set (split_char d s) \<Longrightarrow> d \<notin> set w"
proof (induction s arbitrary: w)
  case (Cons c s)
  obtain v vs where "split_char d s = v # vs"
    by (cases "split_char d s") auto
  with Cons show ?case by (auto split: if_splits)
qed simp

text \<open>\<^verbatim>\<open>strings.Cut\<close> on a one-character separator.\<close>

definition cut_char :: "char \<Rightarrow> string \<Rightarrow> string \<times> string \<times> bool" where
  "cut_char d s =
     (if d \<in> set s
      then (takeWhile (\<lambda>c. c \<noteq> d) s, tl (dropWhile (\<lambda>c. c \<noteq> d) s), True)
      else (s, [], False))"

lemma cut_char_append:
  "d \<notin> set p \<Longrightarrow> cut_char d (p @ d # q) = (p, q, True)"
  by (auto simp: cut_char_def takeWhile_append dropWhile_append)

section \<open>White space\<close>

text \<open>
  \<^verbatim>\<open>unicode.IsSpace\<close> as the UTF-8 byte sequences of its runes. No sequence is a
  suffix of a longer valid encoding and none starts with a continuation byte, so
  scanning bytes for these sequences is scanning runes.
\<close>

definition space_seqs :: "string list" where
  "space_seqs =
     [[CHR 0x20], [CHR 0x09], [CHR 0x0A], [CHR 0x0B], [CHR 0x0C], [CHR 0x0D],
      [CHR 0xC2, CHR 0x85], [CHR 0xC2, CHR 0xA0],
      [CHR 0xE1, CHR 0x9A, CHR 0x80]]
     @ map (\<lambda>n. [CHR 0xE2, CHR 0x80, char_of n]) [0x80, 0x81, 0x82, 0x83, 0x84, 0x85,
          0x86, 0x87, 0x88, 0x89, 0x8A, 0xA8, 0xA9, 0xAF :: nat]
     @ [[CHR 0xE2, CHR 0x81, CHR 0x9F], [CHR 0xE3, CHR 0x80, CHR 0x80]]"

definition seq_len :: "string list \<Rightarrow> string \<Rightarrow> nat" where
  "seq_len qs s = (case find (has_prefix s) qs of None \<Rightarrow> 0 | Some q \<Rightarrow> length q)"

lemma seq_len_le: "seq_len qs s \<le> length s"
  by (auto simp: seq_len_def find_Some_iff split: option.splits dest!: has_prefix_length)

function trim_seqs :: "string list \<Rightarrow> string \<Rightarrow> string" where
  "trim_seqs qs s = (if seq_len qs s = 0 then s else trim_seqs qs (drop (seq_len qs s) s))"
  by pat_completeness auto
termination
proof (relation "measure (\<lambda>(qs, s). length s)", goal_cases)
  case (2 qs s)
  then show ?case using seq_len_le [of qs s] by auto
qed simp

declare trim_seqs.simps [simp del]

definition trim_left_space :: "string \<Rightarrow> string" where
  "trim_left_space s = trim_seqs space_seqs s"

definition trim_right_space :: "string \<Rightarrow> string" where
  "trim_right_space s = rev (trim_seqs (map rev space_seqs) (rev s))"

definition trim_space :: "string \<Rightarrow> string" where
  "trim_space s = trim_right_space (trim_left_space s)"

lemma trim_seqs_stop: "seq_len qs s = 0 \<Longrightarrow> trim_seqs qs s = s"
  by (simp add: trim_seqs.simps)

lemma trim_seqs_done: "seq_len qs (trim_seqs qs s) = 0"
proof (induction qs s rule: trim_seqs.induct)
  case (1 qs s)
  then show ?case by (cases "seq_len qs s = 0") (auto simp: trim_seqs.simps [of qs s])
qed

lemma trim_seqs_suffix: "\<exists>p. s = p @ trim_seqs qs s"
proof (induction qs s rule: trim_seqs.induct)
  case (1 qs s)
  show ?case
  proof (cases "seq_len qs s = 0")
    case False
    then obtain p where "drop (seq_len qs s) s = p @ trim_seqs qs (drop (seq_len qs s) s)"
      using 1 by blast
    with False show ?thesis
      by (metis append.assoc append_take_drop_id trim_seqs.simps)
  qed (simp add: trim_seqs_stop)
qed

lemma trim_space_infix: "\<exists>p q. s = p @ trim_space s @ q"
proof -
  obtain p where p: "s = p @ trim_left_space s"
    using trim_seqs_suffix unfolding trim_left_space_def by blast
  obtain q where "rev (trim_left_space s) = q @ trim_seqs (map rev space_seqs) (rev (trim_left_space s))"
    using trim_seqs_suffix by blast
  then have "trim_left_space s = trim_space s @ rev q"
    unfolding trim_space_def trim_right_space_def by (metis rev_append rev_rev_ident)
  with p show ?thesis by metis
qed

lemma trim_space_Nil [simp]: "trim_space [] = []"
  by (simp add: trim_space_def trim_left_space_def trim_right_space_def trim_seqs_stop
      seq_len_def space_seqs_def has_prefix_def)

lemma trim_space_length: "length (trim_space s) \<le> length s"
  using trim_space_infix [of s] by (metis length_append le_add1 le_add2 order_trans)

lemma seq_len_hd: "[] \<notin> set qs \<Longrightarrow> c \<notin> hd ` set qs \<Longrightarrow> seq_len qs (c # s) = 0"
  by (auto simp: seq_len_def find_Some_iff has_prefix_iff image_iff split: option.splits)
    (metis hd_append2 list.sel(1) nth_mem)

definition solid :: "char \<Rightarrow> bool" where
  "solid c = (c \<notin> hd ` set space_seqs \<and> c \<notin> last ` set space_seqs)"

lemma trim_space_solid: "solid a \<Longrightarrow> solid z \<Longrightarrow> trim_space (a # s @ [z]) = a # s @ [z]"
proof -
  assume a: "solid a" and z: "solid z"
  have e: "[] \<notin> set space_seqs" "[] \<notin> set (map rev space_seqs)"
    by (simp_all add: space_seqs_def)
  have h: "hd ` set (map rev space_seqs) = last ` set space_seqs"
    by (simp add: image_image hd_rev)
  have "trim_left_space (a # s @ [z]) = a # s @ [z]"
    unfolding trim_left_space_def using a e by (intro trim_seqs_stop seq_len_hd) (auto simp: solid_def)
  moreover have "trim_right_space (a # s @ [z]) = a # s @ [z]"
    unfolding trim_right_space_def using z e h trim_seqs_stop [OF seq_len_hd [of "map rev space_seqs" z "rev s @ [a]"]]
    by (simp add: solid_def)
  ultimately show ?thesis by (simp add: trim_space_def)
qed

lemma trim_space_solid_one: "solid c \<Longrightarrow> trim_space [c] = [c]"
proof -
  assume c: "solid c"
  have e: "[] \<notin> set space_seqs" "[] \<notin> set (map rev space_seqs)"
    by (simp_all add: space_seqs_def)
  have h: "hd ` set (map rev space_seqs) = last ` set space_seqs"
    by (simp add: image_image hd_rev)
  have "trim_left_space [c] = [c]"
    unfolding trim_left_space_def using c e by (intro trim_seqs_stop seq_len_hd) (auto simp: solid_def)
  moreover have "trim_right_space [c] = [c]"
    unfolding trim_right_space_def using c e h trim_seqs_stop [OF seq_len_hd [of "map rev space_seqs" c "[]"]]
    by (simp add: solid_def)
  ultimately show ?thesis by (simp add: trim_space_def)
qed

lemma trim_space_ends: "s \<noteq> [] \<Longrightarrow> solid (hd s) \<Longrightarrow> solid (last s) \<Longrightarrow> trim_space s = s"
proof (cases s)
  case (Cons a t)
  assume "s \<noteq> []" "solid (hd s)" "solid (last s)"
  with Cons show ?thesis
    by (cases t rule: rev_cases) (simp_all add: trim_space_solid trim_space_solid_one)
qed simp

text \<open>No printing ASCII character begins or ends a space sequence.\<close>

abbreviation printing :: "char \<Rightarrow> bool" where
  "printing c \<equiv> 32 < (of_char c :: nat) \<and> (of_char c :: nat) < 128"

lemma space_bytes: "c \<in> hd ` set space_seqs \<union> last ` set space_seqs \<Longrightarrow> \<not> printing c"
proof -
  have "\<forall>c\<in>set (map hd space_seqs @ map last space_seqs). (of_char c :: nat) \<le> 32 \<or> 128 \<le> (of_char c :: nat)"
    by (simp add: space_seqs_def)
  then show "c \<in> hd ` set space_seqs \<union> last ` set space_seqs \<Longrightarrow> \<not> printing c" by force
qed

lemma solid_printing: "printing c \<Longrightarrow> solid c"
  using space_bytes [of c] by (auto simp: solid_def)

lemma solid_slash [simp]: "solid slash"
  by (rule solid_printing) simp

text \<open>Evaluation: most texts begin and end with printing characters.\<close>

lemma trim_space_code [code]:
  "trim_space s = (if s = [] then [] else if printing (hd s) \<and> printing (last s) then s else trim_right_space (trim_left_space s))"
proof (cases "s = []")
  case False
  then have "printing (hd s) \<and> printing (last s) \<Longrightarrow> trim_space s = s" by (intro trim_space_ends solid_printing) auto
  with False show ?thesis by (simp only: trim_space_def [symmetric] if_False) (simp only: split: if_split, blast)
qed simp

section \<open>Results and machine integers\<close>

text \<open>
  Sequencing of fallible steps: the first error is the result, as after
  \<^verbatim>\<open>if err != nil { return err }\<close>.
\<close>

definition then_ok :: "'e + 'a \<Rightarrow> ('a \<Rightarrow> 'e + 'b) \<Rightarrow> 'e + 'b" where
  "then_ok r f = (case r of Inl e \<Rightarrow> Inl e | Inr x \<Rightarrow> f x)"

definition check_that :: "bool \<Rightarrow> 'e \<Rightarrow> 'e + 'a \<Rightarrow> 'e + 'a" where
  "check_that b e r = (if b then r else Inl e)"

lemma then_ok_simps [simp]: "then_ok (Inl e) f = Inl e" "then_ok (Inr x) f = f x"
  by (simp_all add: then_ok_def)

lemma then_ok_Inr: "then_ok r f = Inr y \<longleftrightarrow> (\<exists>x. r = Inr x \<and> f x = Inr y)"
  by (cases r) auto

lemma check_that_Inr: "check_that b e r = Inr y \<longleftrightarrow> b \<and> r = Inr y"
  by (simp add: check_that_def)

lemma check_that_True [simp]: "b \<Longrightarrow> check_that b e r = r"
  by (simp add: check_that_def)

lemmas result_iffs = then_ok_Inr check_that_Inr

text \<open>The 64-bit \<^verbatim>\<open>int\<close>: sums and differences wrap around.\<close>

definition wrap64 :: "int \<Rightarrow> int" where
  "wrap64 x = (x + 9223372036854775808) mod 18446744073709551616 - 9223372036854775808"

abbreviation int64_range :: "int \<Rightarrow> bool" where
  "int64_range x \<equiv> -9223372036854775808 \<le> x \<and> x \<le> 9223372036854775807"

lemma wrap64_id: "int64_range x \<Longrightarrow> wrap64 x = x"
  by (simp add: wrap64_def)

lemma wrap64_range: "int64_range (wrap64 x)"
proof -
  have "0 \<le> (x + 9223372036854775808) mod 18446744073709551616" 
    "(x + 9223372036854775808) mod 18446744073709551616 < 18446744073709551616"
    by (rule pos_mod_sign, simp, rule pos_mod_bound, simp)
  then show ?thesis unfolding wrap64_def by linarith
qed

end
