(* ===== verification/Go_Text.thy ===== *)
theory Go_Text
  imports Boxel_Prelude
begin

text \<open>
  Text as Go sees it: UTF-8 decoding and encoding of runes (\<^verbatim>\<open>unicode/utf8\<close>,
  the \<^verbatim>\<open>range\<close> and \<^verbatim>\<open>[]rune\<close> conversions), decimal formatting
  (\<^verbatim>\<open>strconv\<close>, \<^verbatim>\<open>fmt\<close>), and the functions of \<^verbatim>\<open>strings\<close> that
  depend on runes. The round trip between runes and bytes is proved here.
\<close>

section \<open>UTF-8\<close>

type_synonym rune = nat

abbreviation rune_error :: rune where "rune_error \<equiv> 0xFFFD"

abbreviation byte :: "char \<Rightarrow> nat" where "byte c \<equiv> of_char c"

text \<open>
  The second byte's range depends on the first (no overlong forms, no surrogates,
  nothing above U+10FFFF); further bytes are plain continuation bytes.
\<close>

definition cont :: "nat \<Rightarrow> bool" where
  "cont b = (0x80 \<le> b \<and> b \<le> 0xBF)"

definition second_range :: "nat \<Rightarrow> nat \<times> nat" where
  "second_range b0 =
     (if b0 = 0xE0 then (0xA0, 0xBF)
      else if b0 = 0xED then (0x80, 0x9F)
      else if b0 = 0xF0 then (0x90, 0xBF)
      else if b0 = 0xF4 then (0x80, 0x8F)
      else (0x80, 0xBF))"

definition second_ok :: "nat \<Rightarrow> nat \<Rightarrow> bool" where
  "second_ok b0 b1 = (fst (second_range b0) \<le> b1 \<and> b1 \<le> snd (second_range b0))"

fun decode_bytes :: "nat list \<Rightarrow> rune \<times> nat" where
  "decode_bytes [] = (rune_error, 0)"
| "decode_bytes (b0 # bs) =
     (if b0 < 0x80 then (b0, 1)
      else if 0xC2 \<le> b0 \<and> b0 \<le> 0xDF then
        (case bs of
           b1 # _ \<Rightarrow> if cont b1 then ((b0 - 0xC0) * 64 + (b1 - 0x80), 2) else (rune_error, 1)
         | [] \<Rightarrow> (rune_error, 1))
      else if 0xE0 \<le> b0 \<and> b0 \<le> 0xEF then
        (case bs of
           b1 # b2 # _ \<Rightarrow>
             if second_ok b0 b1 \<and> cont b2
             then ((b0 - 0xE0) * 4096 + (b1 - 0x80) * 64 + (b2 - 0x80), 3) else (rune_error, 1)
         | _ \<Rightarrow> (rune_error, 1))
      else if 0xF0 \<le> b0 \<and> b0 \<le> 0xF4 then
        (case bs of
           b1 # b2 # b3 # _ \<Rightarrow>
             if second_ok b0 b1 \<and> cont b2 \<and> cont b3
             then ((b0 - 0xF0) * 262144 + (b1 - 0x80) * 4096 + (b2 - 0x80) * 64 + (b3 - 0x80), 4)
             else (rune_error, 1)
         | _ \<Rightarrow> (rune_error, 1))
      else (rune_error, 1))"

definition decode_rune :: "string \<Rightarrow> rune \<times> nat" where
  "decode_rune s = decode_bytes (map byte (take 4 s))"

definition valid_rune :: "rune \<Rightarrow> bool" where
  "valid_rune r = (r < 0xD800 \<or> (0xDFFF < r \<and> r < 0x110000))"

text \<open>\<^verbatim>\<open>utf8.AppendRune\<close>: an invalid rune is written as U+FFFD.\<close>

definition encode_bytes :: "rune \<Rightarrow> nat list" where
  "encode_bytes r0 =
     (let r = (if valid_rune r0 then r0 else rune_error) in
      if r < 0x80 then [r]
      else if r < 0x800 then [0xC0 + r div 64, 0x80 + r mod 64]
      else if r < 0x10000 then [0xE0 + r div 4096, 0x80 + (r div 64) mod 64, 0x80 + r mod 64]
      else [0xF0 + r div 262144, 0x80 + (r div 4096) mod 64, 0x80 + (r div 64) mod 64, 0x80 + r mod 64])"

definition encode_rune :: "rune \<Rightarrow> string" where
  "encode_rune r = map char_of (encode_bytes r)"

lemma decode_size_pos: "s \<noteq> [] \<Longrightarrow> 0 < snd (decode_rune s)"
  by (cases s) (auto simp: decode_rune_def split: list.splits)

lemma decode_size_le: "snd (decode_rune s) \<le> length s"
proof -
  have "snd (decode_bytes bs) \<le> length bs" for bs
    by (cases bs) (auto split: list.splits)
  from this [of "map byte (take 4 s)"] show ?thesis
    by (simp add: decode_rune_def)
qed

function runes :: "string \<Rightarrow> rune list" where
  "runes s = (if s = [] then [] else fst (decode_rune s) # runes (drop (snd (decode_rune s)) s))"
  by pat_completeness auto
termination
  by (relation "measure length") (use decode_size_pos in \<open>auto simp: diff_less\<close>)

declare runes.simps [simp del]

lemma runes_Nil [simp]: "runes [] = []"
  by (simp add: runes.simps)

definition string_of_runes :: "rune list \<Rightarrow> string" where
  "string_of_runes rs = concat (map encode_rune rs)"

definition rune_count :: "string \<Rightarrow> nat" where
  "rune_count s = length (runes s)"

lemma runes_length_le: "length (runes s) \<le> length s"
proof (induction s rule: runes.induct)
  case (1 s)
  show ?case
  proof (cases "s = []")
    case False
    then have "length (runes (drop (snd (decode_rune s)) s)) \<le> length s - snd (decode_rune s)"
      using 1 by simp
    with decode_size_pos [OF False] decode_size_le [of s] False show ?thesis
      by (simp add: runes.simps [of s])
  qed simp
qed

text \<open>Decoding what was encoded gives the rune back, whatever follows it.\<close>

lemma encode_bytes_bounds: "b \<in> set (encode_bytes r) \<Longrightarrow> b < 256"
  by (auto simp: encode_bytes_def Let_def valid_rune_def split: if_splits)

lemma encode_bytes_length: "0 < length (encode_bytes r) \<and> length (encode_bytes r) \<le> 4"
  by (auto simp: encode_bytes_def Let_def)

lemma div64_64: "(r::nat) div 4096 = r div 64 div 64"
  using div_mult2_eq [of r 64 64] by simp

lemma div4096_64: "(r::nat) div 262144 = r div 4096 div 64"
  using div_mult2_eq [of r 4096 64] by simp

lemma mod64_le: "(n::nat) mod 64 \<le> 63"
  using mod_less_divisor [of 64 n] by linarith

lemma decode_encode_bytes:
  assumes "valid_rune r"
  shows "decode_bytes (encode_bytes r @ t) = (r, length (encode_bytes r))"
proof -
  consider "r < 0x80" | "0x80 \<le> r" "r < 0x800" | "0x800 \<le> r" "r < 0x10000"
    | "0x10000 \<le> r" "r < 0x110000"
    using assms by (fastforce simp: valid_rune_def)
  then show ?thesis
  proof cases
    case 1
    with assms show ?thesis by (simp add: encode_bytes_def)
  next
    case 2
    have "2 \<le> r div 64" "r div 64 < 32" using 2 by auto
    with 2 assms show ?thesis by (simp add: encode_bytes_def cont_def)
  next
    case 3
    have d: "r div 4096 < 16" using 3 by auto
    have so: "second_ok (224 + r div 4096) (128 + r div 64 mod 64)"
    proof -
      let ?q = "r div 64"
      have q: "r div 4096 = ?q div 64" by (rule div64_64)
      have e: "?q = 64 * (?q div 64) + ?q mod 64" by simp
      have "32 \<le> ?q" using 3 by auto
      with e q have "r div 4096 = 0 \<Longrightarrow> 32 \<le> ?q mod 64" by linarith
      moreover have "?q < 864 \<or> 896 \<le> ?q"
        using 3 assms unfolding valid_rune_def by auto
      with e q have "r div 4096 = 13 \<Longrightarrow> ?q mod 64 \<le> 31" by linarith
      moreover have "r div 64 mod 64 \<le> 63" by simp
      ultimately show ?thesis using d by (auto simp: second_ok_def second_range_def)
    qed
    have "(r div 4096) * 4096 + (r div 64 mod 64) * 64 + r mod 64 = r"
      using div_mult_mod_eq [of r 64] div_mult_mod_eq [of "r div 64" 64]
        div64_64 [of r] by linarith
    with 3 d so assms show ?thesis by (simp add: encode_bytes_def cont_def mod64_le)
  next
    case 4
    have d: "r div 262144 \<le> 4" using 4 by auto
    have so: "second_ok (240 + r div 262144) (128 + r div 4096 mod 64)"
    proof -
      let ?q = "r div 4096"
      have q: "r div 262144 = ?q div 64" by (rule div4096_64)
      have e: "?q = 64 * (?q div 64) + ?q mod 64" by simp
      have b: "16 \<le> ?q" "?q < 272" using 4 by auto
      with e q have "r div 262144 = 0 \<Longrightarrow> 16 \<le> ?q mod 64" by linarith
      moreover have "r div 262144 = 4 \<Longrightarrow> ?q mod 64 \<le> 15" using b e q by linarith
      moreover have "r div 4096 mod 64 \<le> 63" by simp
      ultimately show ?thesis using d by (auto simp: second_ok_def second_range_def)
    qed
    have "(r div 262144) * 262144 + (r div 4096 mod 64) * 4096 + (r div 64 mod 64) * 64 + r mod 64 = r"
      using div_mult_mod_eq [of r 64] div_mult_mod_eq [of "r div 64" 64] div_mult_mod_eq [of "r div 4096" 64]
        div64_64 [of r] div4096_64 [of r] by linarith
    with 4 d so assms show ?thesis by (simp add: encode_bytes_def cont_def mod64_le)
  qed
qed

lemma map_byte_char_of: "\<forall>b\<in>set bs. b < 256 \<Longrightarrow> map byte (map char_of bs :: string) = bs"
  by (induction bs) auto

lemma decode_bytes_take: "decode_bytes (take 4 bs) = decode_bytes bs"
proof -
  consider "bs = []" | a where "bs = [a]" | a b where "bs = [a, b]" | a b c where "bs = [a, b, c]"
    | a b c d r where "bs = a # b # c # d # r"
    by (metis neq_Nil_conv)
  then show ?thesis by cases simp_all
qed

lemma decode_encode_rune:
  assumes "valid_rune r"
  shows "decode_rune (encode_rune r @ t) = (r, length (encode_rune r))"
proof -
  have "map byte (encode_rune r) = encode_bytes r"
    unfolding encode_rune_def by (rule map_byte_char_of) (auto dest: encode_bytes_bounds)
  then have "decode_rune (encode_rune r @ t) = decode_bytes (take 4 (encode_bytes r @ map byte t))"
    by (simp only: decode_rune_def take_map [symmetric] map_append)
  then have "decode_rune (encode_rune r @ t) = decode_bytes (encode_bytes r @ map byte t)"
    by (simp only: decode_bytes_take)
  with decode_encode_bytes [OF assms] show ?thesis
    by (simp add: encode_rune_def)
qed

lemma encode_rune_nonempty [simp]: "encode_rune r \<noteq> []"
  using encode_bytes_length [of r] by (auto simp: encode_rune_def)

lemma runes_encode_append: "valid_rune r \<Longrightarrow> runes (encode_rune r @ t) = r # runes t"
  by (subst runes.simps) (simp add: decode_encode_rune)

lemma runes_string_of_runes: "\<forall>r\<in>set rs. valid_rune r \<Longrightarrow> runes (string_of_runes rs) = rs"
  by (induction rs) (auto simp: string_of_runes_def runes_encode_append)

text \<open>Whatever is decoded is a valid rune, so re-encoding never substitutes.\<close>

lemma second_ok_ge: "second_ok b0 b1 \<Longrightarrow> 0x80 \<le> b1"
  by (simp add: second_ok_def second_range_def split: if_splits)

lemma valid_three:
  assumes "0xE0 \<le> b0" "b0 \<le> 0xEF" "second_ok b0 b1" "cont b2"
  shows "valid_rune ((b0 - 0xE0) * 4096 + (b1 - 0x80) * 64 + (b2 - 0x80))"
proof -
  obtain x y z where xyz: "b0 = 224 + x" "b1 = 128 + y" "b2 = 128 + z"
    using assms second_ok_ge [of b0 b1] by (metis cont_def le_Suc_ex)
  have z: "z < 64" using assms xyz by (simp add: cont_def)
  have y: "y < 64" and x: "x < 16" and d: "x = 13 \<Longrightarrow> y < 32"
    using assms xyz by (auto simp: second_ok_def second_range_def split: if_splits)
  have "x * 4096 + y * 64 + z < 0xD800 \<or> 0xDFFF < x * 4096 + y * 64 + z"
  proof -
    consider "x \<le> 12" | "x = 13" | "14 \<le> x" by linarith
    then show ?thesis using d y z by cases linarith+
  qed
  moreover have "x * 4096 + y * 64 + z < 0x110000" using x y z by linarith
  ultimately show ?thesis unfolding valid_rune_def xyz diff_add_inverse by linarith
qed

lemma valid_four:
  assumes "0xF0 \<le> b0" "b0 \<le> 0xF4" "second_ok b0 b1" "cont b2" "cont b3"
  shows "valid_rune ((b0 - 0xF0) * 262144 + (b1 - 0x80) * 4096 + (b2 - 0x80) * 64 + (b3 - 0x80))"
proof -
  obtain x y z w where xyz: "b0 = 240 + x" "b1 = 128 + y" "b2 = 128 + z" "b3 = 128 + w"
    using assms second_ok_ge [of b0 b1] by (metis cont_def le_Suc_ex)
  have zw: "z < 64" "w < 64" using assms xyz by (simp_all add: cont_def)
  have y: "y < 64" "x = 0 \<Longrightarrow> 16 \<le> y" "x = 4 \<Longrightarrow> y < 16" "x \<le> 4"
    using assms xyz by (auto simp: second_ok_def second_range_def split: if_splits)
  have "0xDFFF < x * 262144 + y * 4096 + z * 64 + w"
  proof -
    consider "x = 0" | "1 \<le> x" by linarith
    then show ?thesis using y zw by cases linarith+
  qed
  moreover have "x * 262144 + y * 4096 + z * 64 + w < 0x110000"
  proof -
    consider "x = 4" | "x \<le> 3" using y(4) by linarith
    then show ?thesis using y zw by cases linarith+
  qed
  ultimately show ?thesis unfolding valid_rune_def xyz diff_add_inverse by linarith
qed

lemma valid_two: "0xC2 \<le> b0 \<Longrightarrow> b0 \<le> 0xDF \<Longrightarrow> cont b1 \<Longrightarrow>
    valid_rune ((b0 - 0xC0) * 64 + (b1 - 0x80))"
  unfolding valid_rune_def cont_def by linarith

lemma valid_error: "valid_rune rune_error"
  by (simp add: valid_rune_def)

lemma decode_bytes_valid: "valid_rune (fst (decode_bytes bs))"
proof (cases bs)
  case (Cons b0 r)
  show ?thesis
    unfolding Cons decode_bytes.simps
    by (cases r rule: list.exhaust [case_product list.exhaust [of "tl r"]])
      (simp_all add: valid_error valid_two valid_three valid_four valid_rune_def [of b0] split: list.splits)
qed (simp add: valid_error)

lemma runes_valid: "r \<in> set (runes s) \<Longrightarrow> valid_rune r"
proof (induction s rule: runes.induct)
  case (1 s)
  then show ?case
    by (cases "s = []")
      (auto simp: runes.simps [of s] decode_rune_def decode_bytes_valid)
qed

section \<open>Line feeds survive decoding\<close>

text \<open>A multi-byte encoding has no ASCII byte, so an ASCII rune is its own byte.\<close>

lemma three_ge: "0xE0 \<le> b0 \<Longrightarrow> second_ok b0 b1 \<Longrightarrow> 0x80 \<le> (b0 - 0xE0) * 4096 + (b1 - 0x80) * 64 + (b2 - 0x80)"
  by (cases "b0 = 0xE0") (auto simp: second_ok_def second_range_def)

lemma four_ge: "0xF0 \<le> b0 \<Longrightarrow> second_ok b0 b1 \<Longrightarrow>
    0x80 \<le> (b0 - 0xF0) * 262144 + (b1 - 0x80) * 4096 + (b2 - 0x80) * 64 + (b3 - 0x80)"
  by (cases "b0 = 0xF0") (auto simp: second_ok_def second_range_def)

lemma two_ge: "0xC2 \<le> b0 \<Longrightarrow> 0x80 \<le> (b0 - 0xC0) * 64 + (b1 - (0x80::nat))"
  by linarith

lemma cont_ge: "cont b \<Longrightarrow> 0x80 \<le> b"
  by (simp add: cont_def)

lemma decode_bytes_high: "0x80 \<le> b0 \<Longrightarrow> 0x80 \<le> fst (decode_bytes (b0 # r))"
  unfolding decode_bytes.simps
  by (cases r rule: list.exhaust [case_product list.exhaust [of "tl r"]])
    (simp_all add: two_ge three_ge four_ge split: list.splits)

lemma decode_bytes_consumed:
  "0x80 \<le> b0 \<Longrightarrow> b \<in> set (take (snd (decode_bytes (b0 # r))) (b0 # r)) \<Longrightarrow> 0x80 \<le> b"
proof -
  assume h: "0x80 \<le> b0" and b: "b \<in> set (take (snd (decode_bytes (b0 # r))) (b0 # r))"
  consider "r = []" | b1 where "r = [b1]" | b1 b2 where "r = [b1, b2]" | b1 b2 b3 t where "r = b1 # b2 # b3 # t"
    by (metis neq_Nil_conv)
  then show ?thesis using h b
    by cases (auto split: if_splits dest: second_ok_ge cont_ge)
qed

lemma decode_bytes_ascii:
  assumes "b \<in> set (take (snd (decode_bytes bs)) bs)" and "b < 0x80"
  shows "fst (decode_bytes bs) = b"
proof (cases bs)
  case (Cons b0 r)
  show ?thesis
  proof (cases "b0 < 0x80")
    case False
    then have "0x80 \<le> b" using assms(1) decode_bytes_consumed [of b0 b r] by (simp only: Cons not_less)
    with assms(2) show ?thesis by simp
  qed (use assms Cons in simp)
qed (use assms in simp)

lemma decode_bytes_ascii_inv: "fst (decode_bytes bs) < 0x80 \<Longrightarrow> bs \<noteq> [] \<Longrightarrow> fst (decode_bytes bs) = hd bs"
proof (cases bs)
  case (Cons b0 r)
  assume "fst (decode_bytes bs) < 0x80"
  then have "b0 < 0x80" using decode_bytes_high [of b0 r] Cons by (meson not_less)
  with Cons show ?thesis by simp
qed simp

lemma take_decode: "take (snd (decode_rune s)) s = take (snd (decode_rune s)) (take 4 s)"
proof -
  have "snd (decode_bytes bs) \<le> 4" for bs by (cases bs) (auto split: list.splits)
  then have "snd (decode_rune s) \<le> 4" by (simp add: decode_rune_def)
  then show ?thesis by (simp add: min_def)
qed

lemma runes_ascii: "c \<in> set s \<Longrightarrow> byte c < 0x80 \<Longrightarrow> byte c \<in> set (runes s)"
proof (induction s rule: runes.induct)
  case (1 s)
  let ?n = "snd (decode_rune s)"
  have s: "s \<noteq> []" using 1 by auto
  have "c \<in> set (take ?n s) \<or> c \<in> set (drop ?n s)"
    using "1.prems"(1) by (metis Un_iff append_take_drop_id set_append)
  then show ?case
  proof
    assume "c \<in> set (take ?n s)"
    then have "byte c \<in> set (take ?n (map byte (take 4 s)))"
      unfolding take_decode take_map by simp
    then have "fst (decode_rune s) = byte c"
      using decode_bytes_ascii [of "byte c" "map byte (take 4 s)"] "1.prems"(2) by (simp add: decode_rune_def)
    with s show ?thesis by (simp add: runes.simps [of s])
  qed (use 1 s in \<open>simp add: runes.simps [of s]\<close>)
qed

lemma runes_ascii_inv: "r \<in> set (runes s) \<Longrightarrow> r < 0x80 \<Longrightarrow> char_of r \<in> set s"
proof (induction s rule: runes.induct)
  case (1 s)
  have s: "s \<noteq> []" using 1 by auto
  from "1.prems"(1) s have "r = fst (decode_rune s) \<or> r \<in> set (runes (drop (snd (decode_rune s)) s))"
    by (simp add: runes.simps [of s])
  then show ?case
  proof
    assume "r = fst (decode_rune s)"
    then have "r = hd (map byte (take 4 s))"
      using decode_bytes_ascii_inv [of "map byte (take 4 s)"] s "1.prems"(2) by (simp add: decode_rune_def)
    with s show ?thesis by (cases s) auto
  next
    assume "r \<in> set (runes (drop (snd (decode_rune s)) s))"
    then show ?thesis using 1 s in_set_dropD by metis
  qed
qed

lemma runes_ascii_char: "byte c \<in> set (runes s) \<Longrightarrow> byte c < 0x80 \<Longrightarrow> c \<in> set s"
  using runes_ascii_inv [of "byte c" s] by simp

lemma runes_ascii_Cons: "byte c < 0x80 \<Longrightarrow> runes (c # s) = byte c # runes s"
  by (subst runes.simps) (simp add: decode_rune_def)

end
