(* ===== verification/Go_Strings.thy ===== *)
theory Go_Strings
  imports Go_Text
begin

text \<open>
  The rest of the string library boxel uses: decimal numbers (\<^verbatim>\<open>strconv.Itoa\<close>,
  \<^verbatim>\<open>strconv.Atoi\<close>, the \<^verbatim>\<open>%d\<close> and \<^verbatim>\<open>%6d\<close> verbs), counting and replacing
  (\<^verbatim>\<open>strings.Count\<close>, \<^verbatim>\<open>strings.Replace\<close>), trimming by character,
  \<^verbatim>\<open>strings.Fields\<close> and lower-casing. Lower-casing and case folding of strings
  with bytes above 127 need the Unicode tables; these are the parameter
  \<^verbatim>\<open>ul\<close> of \<open>to_lower\<close> and \<^verbatim>\<open>uf\<close> of \<open>equal_fold\<close>.
\<close>

section \<open>Decimal numbers\<close>

definition digit_char :: "nat \<Rightarrow> char" where
  "digit_char d = char_of (48 + d)"

fun dec :: "nat \<Rightarrow> string" where
  "dec n = (if n < 10 then [digit_char n] else dec (n div 10) @ [digit_char (n mod 10)])"

declare dec.simps [simp del]

definition itoa :: "int \<Rightarrow> string" where
  "itoa i = (if i < 0 then CHR ''-'' # dec (nat (- i)) else dec (nat i))"

definition is_digit :: "char \<Rightarrow> bool" where
  "is_digit c = (48 \<le> byte c \<and> byte c \<le> 57)"

definition undec :: "string \<Rightarrow> nat" where
  "undec s = foldl (\<lambda>a c. 10 * a + (byte c - 48)) 0 s"

definition max_int :: int where "max_int = 9223372036854775807"

text \<open>
  \<^verbatim>\<open>n, _ := strconv.Atoi(s)\<close>, with the error dropped: 0 for a malformed number,
  the nearest bound of a 64-bit int for one out of range.
\<close>

definition atoi :: "string \<Rightarrow> int" where
  "atoi s =
     (let neg = has_prefix s ''-'';
          ds = (if neg \<or> has_prefix s ''+'' then drop 1 s else s)
      in if ds = [] \<or> \<not> list_all is_digit ds then 0
         else if neg then max (- int (undec ds)) (- max_int - 1)
         else min (int (undec ds)) max_int)"

text \<open>The verb \<^verbatim>\<open>%6d\<close> pads with blanks on the left.\<close>

definition pad_left :: "nat \<Rightarrow> string \<Rightarrow> string" where
  "pad_left w s = replicate (w - length s) (CHR '' '') @ s"

lemma dec_nonempty [simp]: "dec n \<noteq> []"
  by (subst dec.simps) simp

lemma digit_char_byte: "d < 10 \<Longrightarrow> byte (digit_char d) = 48 + d"
  by (simp add: digit_char_def)

lemma dec_digits: "list_all is_digit (dec n)"
proof (induction n rule: dec.induct)
  case (1 n)
  have "\<And>d. d < 10 \<Longrightarrow> is_digit (digit_char d)"
    by (simp add: is_digit_def digit_char_byte)
  with 1 show ?case by (subst dec.simps) (auto simp: list_all_iff)
qed

lemma undec_snoc: "undec (s @ [c]) = 10 * undec s + (byte c - 48)"
  by (simp add: undec_def)

lemma undec_dec [simp]: "undec (dec n) = n"
proof (induction n rule: dec.induct)
  case (1 n)
  show ?case
  proof (cases "n < 10")
    case True
    then show ?thesis by (subst dec.simps) (simp add: undec_def digit_char_byte)
  next
    case False
    have "byte (digit_char (n mod 10)) - 48 = n mod 10"
      using digit_char_byte [of "n mod 10"] by simp
    with False 1 show ?thesis by (subst dec.simps) (simp only: if_False undec_snoc, simp)
  qed
qed

lemma dec_inject [simp]: "dec m = dec n \<longleftrightarrow> m = n"
  by (metis undec_dec)

lemma digit_not_sign: "is_digit c \<Longrightarrow> c \<noteq> CHR ''-'' \<and> c \<noteq> CHR ''+''"
  by (auto simp: is_digit_def)

lemma dec_no_sign: "\<not> has_prefix (dec n) ''-''" "\<not> has_prefix (dec n) ''+''"
proof -
  obtain c s where c: "dec n = c # s" by (cases "dec n") auto
  with dec_digits [of n] have "is_digit c" by simp
  from digit_not_sign [OF this] c
  show "\<not> has_prefix (dec n) ''-''" "\<not> has_prefix (dec n) ''+''" by auto
qed

lemma atoi_dec: "int n \<le> max_int \<Longrightarrow> atoi (dec n) = int n"
  by (simp add: atoi_def Let_def dec_no_sign dec_digits)

section \<open>Counting and replacing\<close>

function str_count_from :: "string \<Rightarrow> string \<Rightarrow> nat" where
  "str_count_from s p =
     (if p = [] then 0
      else case index_of s p of None \<Rightarrow> 0
           | Some i \<Rightarrow> Suc (str_count_from (drop (i + length p) s) p))"
  by pat_completeness auto
termination
proof (relation "measure (\<lambda>(s, p). length s)", goal_cases)
  case (2 s p i)
  then show ?case using index_of_Some [of s p i] by (cases p) auto
qed simp

declare str_count_from.simps [simp del]

definition str_count :: "string \<Rightarrow> string \<Rightarrow> nat" where
  "str_count s p = (if p = [] then Suc (rune_count s) else str_count_from s p)"

text \<open>
  \<^verbatim>\<open>strings.Replace\<close>: the loop that copies up to the next match and writes the
  replacement; an empty pattern matches before each rune.
\<close>

fun replace_loop :: "nat \<Rightarrow> bool \<Rightarrow> string \<Rightarrow> string \<Rightarrow> string \<Rightarrow> string" where
  "replace_loop 0 first s old new = s"
| "replace_loop (Suc k) first s old new =
     (if old = []
      then (let j = (if first then 0 else snd (decode_rune s))
            in take j s @ new @ replace_loop k False (drop j s) old new)
      else (case index_of s old of
              None \<Rightarrow> s
            | Some j \<Rightarrow> take j s @ new @ replace_loop k False (drop (j + length old) s) old new))"

definition str_replace :: "string \<Rightarrow> string \<Rightarrow> string \<Rightarrow> int \<Rightarrow> string" where
  "str_replace s old new n =
     (if old = new \<or> n = 0 then s
      else let m = str_count s old
           in if m = 0 then s
              else replace_loop (if n < 0 \<or> int m < n then m else nat n) True s old new)"

lemma str_count_from_0:
  "p \<noteq> [] \<Longrightarrow> str_count_from s p = 0 \<longleftrightarrow> \<not> str_contains s p"
  by (subst str_count_from.simps) (auto simp: str_contains_def split: option.splits)

lemma str_count_0: "p \<noteq> [] \<Longrightarrow> str_count s p = 0 \<longleftrightarrow> \<not> str_contains s p"
  by (simp add: str_count_def str_count_from_0)

lemma str_replace_one:
  assumes "old \<noteq> []" and "old \<noteq> new" and "index_of s old = Some i"
  shows "str_replace s old new 1 = take i s @ new @ drop (i + length old) s"
proof -
  from assms have "str_count s old \<noteq> 0"
    by (auto simp: str_count_0 str_contains_def)
  with assms show ?thesis by (simp add: str_replace_def Let_def)
qed

text \<open>A single occurrence: replacing it once or everywhere is the same.\<close>

lemma str_count_from_Some:
  "p \<noteq> [] \<Longrightarrow> index_of s p = Some i \<Longrightarrow>
     str_count_from s p = Suc (str_count_from (drop (i + length p) s) p)"
  by (subst str_count_from.simps) simp

section \<open>Trimming, fields and case\<close>

definition trim_right_chars :: "string \<Rightarrow> string \<Rightarrow> string" where
  "trim_right_chars s cs = rev (dropWhile (\<lambda>c. c \<in> set cs) (rev s))"

lemma trim_right_chars_append:
  "s = [] \<or> last s \<notin> set cs \<Longrightarrow> set t \<subseteq> set cs \<Longrightarrow> trim_right_chars (s @ t) cs = s"
proof -
  assume a: "s = [] \<or> last s \<notin> set cs" "set t \<subseteq> set cs"
  have "dropWhile (\<lambda>c. c \<in> set cs) (rev t @ rev s) = dropWhile (\<lambda>c. c \<in> set cs) (rev s)"
    using a(2) by (intro dropWhile_append2) auto
  moreover have "dropWhile (\<lambda>c. c \<in> set cs) (rev s) = rev s"
    using a(1) by (cases "rev s") (auto simp: last_rev)
  ultimately show ?thesis by (simp add: trim_right_chars_def)
qed

lemma trim_right_chars_last:
  "trim_right_chars s cs = [] \<or> last (trim_right_chars s cs) \<notin> set cs"
proof (cases "dropWhile (\<lambda>c. c \<in> set cs) (rev s)")
  case (Cons c r)
  then show ?thesis
    by (metis (no_types, lifting) hd_dropWhile last_rev list.sel(1) list.simps(3) trim_right_chars_def)
qed (simp add: trim_right_chars_def)

text \<open>\<^verbatim>\<open>strings.Fields\<close>: the accumulator holds the current field, reversed.\<close>

definition flush_field :: "string \<Rightarrow> string list \<Rightarrow> string list" where
  "flush_field acc ws = (if acc = [] then ws else rev acc # ws)"

function fields_loop :: "string \<Rightarrow> string \<Rightarrow> string list" where
  "fields_loop acc s =
     (case s of [] \<Rightarrow> flush_field acc []
      | c # s' \<Rightarrow>
          if seq_len space_seqs s = 0 then fields_loop (c # acc) s'
          else flush_field acc (fields_loop [] (drop (seq_len space_seqs s) s)))"
  by pat_completeness auto
termination
  by (relation "measure (\<lambda>(acc, s). length s)") auto

declare fields_loop.simps [simp del]

definition str_fields :: "string \<Rightarrow> string list" where
  "str_fields s = fields_loop [] s"

lemma fields_loop_nonempty: "w \<in> set (fields_loop acc s) \<Longrightarrow> w \<noteq> []"
proof (induction acc s arbitrary: w rule: fields_loop.induct)
  case (1 acc s)
  show ?case
  proof (cases s)
    case Nil
    with 1(3) have "w \<in> set (flush_field acc [])" by (simp add: fields_loop.simps [of acc "[]"])
    then show ?thesis by (auto simp: flush_field_def split: if_splits)
  next
    case (Cons c s')
    with 1 show ?thesis
      by (auto simp: fields_loop.simps [of acc "c # s'"] flush_field_def split: if_splits)
  qed
qed

definition ascii :: "string \<Rightarrow> bool" where
  "ascii s = list_all (\<lambda>c. byte c < 128) s"

definition lower_char :: "char \<Rightarrow> char" where
  "lower_char c = (if 65 \<le> byte c \<and> byte c \<le> 90 then char_of (byte c + 32) else c)"

definition to_lower :: "(string \<Rightarrow> string) \<Rightarrow> string \<Rightarrow> string" where
  "to_lower ul s = (if ascii s then map lower_char s else ul s)"

definition equal_fold :: "(string \<Rightarrow> string \<Rightarrow> bool) \<Rightarrow> string \<Rightarrow> string \<Rightarrow> bool" where
  "equal_fold uf s t =
     (if ascii s \<and> ascii t then map lower_char s = map lower_char t else uf s t)"

lemma byte_lower_char: "byte (lower_char c) = (if 65 \<le> byte c \<and> byte c \<le> 90 then byte c + 32 else byte c)"
  by (simp add: lower_char_def)

lemma lower_char_idem [simp]: "lower_char (lower_char c) = lower_char c"
  by (simp add: lower_char_def)

lemma ascii_lower: "ascii s \<Longrightarrow> ascii (map lower_char s)"
  by (induction s) (auto simp: ascii_def byte_lower_char)

lemma to_lower_idem: "ascii s \<Longrightarrow> to_lower ul (to_lower ul s) = to_lower ul s"
  by (simp add: to_lower_def ascii_lower)

section \<open>Replacing one character everywhere\<close>

lemma index_of_one_None: "index_of s [c] = None \<longleftrightarrow> c \<notin> set s"
  by (induction s) auto

lemma index_of_one_Some: "index_of s [c] = Some i \<Longrightarrow> s = take i s @ c # drop (Suc i) s \<and> c \<notin> set (take i s)"
proof (induction s arbitrary: i)
  case (Cons x s)
  show ?case
  proof (cases "x = c")
    case False
    with Cons.prems obtain j where "index_of s [c] = Some j" "i = Suc j" by (auto split: if_splits)
    with Cons.IH [of j] False show ?thesis by auto
  qed (use Cons.prems in auto)
qed simp

abbreviation subst_char :: "char \<Rightarrow> string \<Rightarrow> string \<Rightarrow> string" where
  "subst_char c new s \<equiv> concat (map (\<lambda>x. if x = c then new else [x]) s)"

lemma subst_char_id: "c \<notin> set s \<Longrightarrow> subst_char c new s = s"
  by (induction s) auto

lemma replace_loop_all:
  "replace_loop (str_count_from s [c]) first s [c] new = subst_char c new s"
proof (induction "length s" arbitrary: s first rule: less_induct)
  case less
  show ?case
  proof (cases "index_of s [c]")
    case None
    then have "c \<notin> set s" by (simp add: index_of_one_None)
    with None show ?thesis by (simp add: str_count_from.simps [of s] subst_char_id)
  next
    case (Some i)
    note s = index_of_one_Some [OF Some]
    have "i < length s" using index_of_Some [OF Some] by auto
    then have less_tail: "replace_loop (str_count_from (drop (Suc i) s) [c]) False (drop (Suc i) s) [c] new
        = subst_char c new (drop (Suc i) s)"
      by (intro less) simp
    have split: "subst_char c new (a @ c # b) = a @ new @ subst_char c new b" if "c \<notin> set a" for a b
      using subst_char_id [OF that, of new] by simp
    have "subst_char c new s = take i s @ new @ subst_char c new (drop (Suc i) s)"
      using split [OF s [THEN conjunct2], of "drop (Suc i) s"] unfolding s [THEN conjunct1, symmetric] .
    with less_tail show ?thesis using Some by (simp add: str_count_from_Some)
  qed
qed

lemma str_replace_char: "str_replace s [c] new (- 1) = subst_char c new s"
proof -
  have "str_count_from s [c] = 0 \<Longrightarrow> subst_char c new s = s"
    using subst_char_id [of c s new] index_of_one_None [of s c]
    by (simp add: str_count_from_0 str_contains_def)
  moreover have "new = [c] \<Longrightarrow> subst_char c new s = s"
    by (induction s) auto
  ultimately show ?thesis
    by (auto simp: str_replace_def Let_def str_count_def replace_loop_all)
qed

section \<open>Case folding of runes\<close>

text \<open>
  Unicode simple folding as far as ASCII goes: the letters of either case, the Kelvin sign
  and the long s. \<^verbatim>\<open>encoding/json\<close> compares field names this way and
  \<^verbatim>\<open>regexp\<close> literals under \<^verbatim>\<open>(?i)\<close>.
\<close>

definition fold_rune :: "rune \<Rightarrow> rune" where
  "fold_rune r =
     (if 97 \<le> r \<and> r \<le> 122 then r - 32 else if r = 0x212A then 75 else if r = 0x17F then 83 else r)"

lemma fields_loop_word:
  "\<forall>c\<in>set w. c \<notin> hd ` set space_seqs \<Longrightarrow> fields_loop acc (w @ s) = fields_loop (rev w @ acc) s"
proof (induction w arbitrary: acc)
  case (Cons c w)
  then have "seq_len space_seqs (c # w @ s) = 0"
    by (intro seq_len_hd) (auto simp: space_seqs_def)
  with Cons show ?case by (simp add: fields_loop.simps [of acc "c # w @ s"])
qed simp

lemma fields_first_word:
  "w \<noteq> [] \<Longrightarrow> \<forall>c\<in>set w. c \<notin> hd ` set space_seqs \<Longrightarrow> str_fields (w @ CHR '' '' # s) = w # str_fields s"
proof -
  assume w: "w \<noteq> []" "\<forall>c\<in>set w. c \<notin> hd ` set space_seqs"
  have "seq_len space_seqs (CHR '' '' # s) = 1"
    by (simp add: seq_len_def space_seqs_def)
  then have "fields_loop (rev w) (CHR '' '' # s) = w # fields_loop [] s"
    using w(1) by (simp add: fields_loop.simps [of "rev w" "CHR '' '' # s"] flush_field_def)
  then show ?thesis using fields_loop_word [OF w(2), of "[]"] by (simp add: str_fields_def)
qed

section \<open>Sizes\<close>

lemma dec_length: "n < 10 ^ m \<Longrightarrow> 0 < m \<Longrightarrow> length (dec n) \<le> m"
proof (induction m arbitrary: n)
  case (Suc m)
  show ?case
  proof (cases "n < 10")
    case False
    then have "m \<noteq> 0" using Suc.prems(1) by (cases m) auto
    moreover have "n div 10 < 10 ^ m" using Suc.prems(1) by (simp add: less_mult_imp_div_less mult.commute)
    ultimately have "length (dec (n div 10)) \<le> m" using Suc.IH by simp
    with False show ?thesis by (subst dec.simps) simp
  qed (subst dec.simps, simp)
qed simp

lemma decode_size_4: "snd (decode_rune s) \<le> 4"
proof -
  have "snd (decode_bytes bs) \<le> 4" for bs by (cases bs) (auto split: list.splits)
  then show ?thesis by (simp add: decode_rune_def)
qed

lemma length_runes: "length s \<le> 4 * length (runes s)"
proof (induction s rule: runes.induct)
  case (1 s)
  show ?case
  proof (cases "s = []")
    case False
    have "length s - snd (decode_rune s) \<le> 4 * length (runes (drop (snd (decode_rune s)) s))"
      using 1 False by simp
    then have "length s \<le> 4 * length (runes (drop (snd (decode_rune s)) s)) + 4"
      using decode_size_4 [of s] by linarith
    then show ?thesis using False by (simp add: runes.simps [of s])
  qed simp
qed

lemma length_string_of_runes: "length (string_of_runes rs) \<le> 4 * length rs"
proof (induction rs)
  case (Cons r rs)
  have "length (encode_rune r) \<le> 4" using encode_bytes_length [of r] by (simp add: encode_rune_def)
  with Cons show ?case by (simp add: string_of_runes_def)
qed (simp add: string_of_runes_def)

section \<open>Replacement as splitting\<close>

lemma index_of_first: "index_of s p = Some i \<Longrightarrow> j < i \<Longrightarrow> \<not> has_prefix (drop j s) p"
proof (induction s arbitrary: i j)
  case (Cons c s)
  then obtain i' where i: "\<not> has_prefix (c # s) p" "index_of s p = Some i'" "i = Suc i'" by (auto split: if_splits)
  with Cons show ?case by (cases j) auto
qed (simp split: if_splits)

lemma before_first: "index_of s p = Some i \<Longrightarrow> p \<noteq> [] \<Longrightarrow> \<not> str_contains (take i s) p"
proof
  assume i: "index_of s p = Some i" and p: "p \<noteq> []" and "str_contains (take i s) p"
  then obtain a b where ab: "take i s = a @ p @ b" by (auto simp: str_contains_iff)
  then have "s = a @ p @ b @ drop i s" by (metis append.assoc append_take_drop_id)
  then have "has_prefix (drop (length a) s) p" by (metis append_eq_conv_conj has_prefix_append)
  moreover have "length a < i" using ab p index_of_Some [OF i]
    by (metis add_lessD1 append_is_Nil_conv leD length_append length_greater_0_conv length_take less_add_same_cancel1 linorder_not_less min.absorb2 add_leD1)
  ultimately show False using index_of_first [OF i] by blast
qed

lemma replace_loop_parts:
  assumes "old \<noteq> []"
  shows "\<exists>parts. s = join_with old parts \<and> replace_loop (str_count_from s old) f s old new = join_with new parts
    \<and> length parts = Suc (str_count_from s old) \<and> (\<forall>p\<in>set parts. \<not> str_contains p old)"
proof (induction "length s" arbitrary: s f rule: less_induct)
  case less
  show ?case
  proof (cases "index_of s old")
    case None
    then show ?thesis
      by (intro exI [of _ "[s]"]) (simp add: str_count_from.simps [of s] str_contains_def)
  next
    case (Some j)
    let ?t = "drop (j + length old) s"
    have s: "s = take j s @ old @ ?t" "j + length old \<le> length s"
      using index_of_Some [OF Some] by (auto, metis append.assoc append_eq_conv_conj length_append length_take min.absorb2 add_leD1)
    have "length ?t < length s" using s(2) assms by (cases old) auto
    from less [OF this, of False] obtain parts where p: "?t = join_with old parts"
      "replace_loop (str_count_from ?t old) False ?t old new = join_with new parts"
      "length parts = Suc (str_count_from ?t old)" "\<forall>p\<in>set parts. \<not> str_contains p old" by blast
    have ne: "parts \<noteq> []" using p(3) by auto
    show ?thesis
    proof (intro exI [of _ "take j s # parts"] conjI)
      show "s = join_with old (take j s # parts)" using s(1) p(1) ne by (simp add: join_with_Cons)
      show "replace_loop (str_count_from s old) f s old new = join_with new (take j s # parts)"
        using Some assms p(2) ne by (simp add: str_count_from_Some join_with_Cons)
      show "length (take j s # parts) = Suc (str_count_from s old)"
        using Some assms p(3) by (simp add: str_count_from_Some)
      show "\<forall>p\<in>set (take j s # parts). \<not> str_contains p old"
        using p(4) before_first [OF Some assms] by simp
    qed
  qed
qed

text \<open>Counting a single character.\<close>

lemma count_one_char: "str_count s [c] = length (filter (\<lambda>x. x = c) s)"
proof -
  have "str_count_from s [c] = length (filter (\<lambda>x. x = c) s)"
  proof (induction "length s" arbitrary: s rule: less_induct)
    case less
    show ?case
    proof (cases "index_of s [c]")
      case None
      then have "c \<notin> set s" by (simp add: index_of_one_None)
      then show ?thesis using None by (auto simp: str_count_from.simps [of s] filter_empty_conv)
    next
      case (Some i)
      have s: "s = take i s @ c # drop (Suc i) s" "c \<notin> set (take i s)" using index_of_one_Some [OF Some] by auto
      have "i < length s" using index_of_Some [OF Some] by auto
      then have "str_count_from (drop (Suc i) s) [c] = length (filter (\<lambda>x. x = c) (drop (Suc i) s))"
        using less by simp
      moreover have "filter (\<lambda>x. x = c) (a @ c # b) = c # filter (\<lambda>x. x = c) b" if "c \<notin> set a" for a b
        using that by (auto simp: filter_empty_conv)
      then have "filter (\<lambda>x. x = c) s = c # filter (\<lambda>x. x = c) (drop (Suc i) s)"
        using s by metis
      ultimately show ?thesis using Some by (simp add: str_count_from_Some)
    qed
  qed
  then show ?thesis by (simp add: str_count_def)
qed

lemma length_split_char: "length (split_char d s) = Suc (length (filter (\<lambda>x. x = d) s))"
proof (induction s)
  case (Cons c s)
  then show ?case by (cases "split_char d s") auto
qed simp

end
