(* ===== verification/Paths.thy ===== *)
theory Paths
  imports Go_Strings
begin

text \<open>
  Lexical path processing (\<^verbatim>\<open>path/filepath\<close> on Unix) and the jail test
  \<^verbatim>\<open>pathWithin\<close> of \<^verbatim>\<open>internal/policy/match.go\<close>. The lemmas move between the
  strings the code handles and lists of path components, where the jail test is the
  prefix order.
\<close>

section \<open>Lexical processing\<close>

definition is_abs :: "string \<Rightarrow> bool" where
  "is_abs p = has_prefix p ''/''"

text \<open>
  \<^verbatim>\<open>filepath.Clean\<close>: the components kept so far are a stack, innermost first.
\<close>

definition clean_step :: "bool \<Rightarrow> string \<Rightarrow> string list \<Rightarrow> string list" where
  "clean_step rooted c st =
     (if c = [] \<or> c = ''.'' then st
      else if c = ''..'' then
        (case st of
           [] \<Rightarrow> (if rooted then [] else [''..''])
         | d # ds \<Rightarrow> if d = ''..'' then ''..'' # st else ds)
      else c # st)"

definition clean_comps :: "bool \<Rightarrow> string \<Rightarrow> string list" where
  "clean_comps rooted p = rev (fold (clean_step rooted) (split_char slash p) [])"

definition abs_path :: "string list \<Rightarrow> string" where
  "abs_path cs = slash # join_with ''/'' cs"

definition path_clean :: "string \<Rightarrow> string" where
  "path_clean p =
     (if p = [] then ''.''
      else if is_abs p then abs_path (clean_comps True p)
      else let cs = clean_comps False p in if cs = [] then ''.'' else join_with ''/'' cs)"

fun path_join :: "string list \<Rightarrow> string" where
  "path_join [] = []"
| "path_join (e # es) = (if e = [] then path_join es else path_clean (join_with ''/'' (e # es)))"

definition upto_last_slash :: "string \<Rightarrow> string" where
  "upto_last_slash p = rev (dropWhile (\<lambda>c. c \<noteq> slash) (rev p))"

definition after_last_slash :: "string \<Rightarrow> string" where
  "after_last_slash p = rev (takeWhile (\<lambda>c. c \<noteq> slash) (rev p))"

definition path_dir :: "string \<Rightarrow> string" where
  "path_dir p = path_clean (upto_last_slash p)"

definition path_base :: "string \<Rightarrow> string" where
  "path_base p =
     (if p = [] then ''.''
      else let b = after_last_slash (trim_right_chars p ''/'') in if b = [] then ''/'' else b)"

text \<open>\<^verbatim>\<open>filepath.Ext\<close>: from the last dot of the last element, if it has one.\<close>

definition path_ext :: "string \<Rightarrow> string" where
  "path_ext p =
     (let b = after_last_slash p
      in if CHR ''.'' \<in> set b
         then CHR ''.'' # rev (takeWhile (\<lambda>c. c \<noteq> CHR ''.'') (rev b)) else [])"

fun strip_common :: "'a list \<Rightarrow> 'a list \<Rightarrow> 'a list \<times> 'a list" where
  "strip_common (x # xs) (y # ys) = (if x = y then strip_common xs ys else (x # xs, y # ys))"
| "strip_common xs ys = (xs, ys)"

definition nonempty_parts :: "string \<Rightarrow> string list" where
  "nonempty_parts s = filter (\<lambda>w. w \<noteq> []) (split_char slash s)"

text \<open>\<^verbatim>\<open>filepath.Rel\<close>; \<^const>\<open>None\<close> is its error.\<close>

definition path_rel :: "string \<Rightarrow> string \<Rightarrow> string option" where
  "path_rel basepath targpath =
     (let b0 = path_clean basepath; t = path_clean targpath
      in if t = b0 then Some ''.''
         else let b = (if b0 = ''.'' then [] else b0)
              in if is_abs b \<noteq> is_abs t then None
                 else case strip_common (nonempty_parts b) (nonempty_parts t) of
                        (bs, ts) \<Rightarrow>
                          if bs \<noteq> [] \<and> hd bs = ''..'' \<and> ts \<noteq> [] then None
                          else Some (join_with ''/'' (replicate (length bs) ''..'' @ ts)))"

section \<open>Normal paths\<close>

definition normal_comp :: "string \<Rightarrow> bool" where
  "normal_comp c = (c \<noteq> [] \<and> c \<noteq> ''.'' \<and> c \<noteq> ''..'' \<and> slash \<notin> set c)"

abbreviation normal :: "string list \<Rightarrow> bool" where
  "normal cs \<equiv> list_all normal_comp cs"

lemma clean_step_normal:
  "slash \<notin> set c \<Longrightarrow> normal st \<Longrightarrow> normal (clean_step True c st)"
  by (auto simp: clean_step_def normal_comp_def split: list.splits)

lemma fold_clean_normal:
  "\<forall>w\<in>set ws. slash \<notin> set w \<Longrightarrow> normal st \<Longrightarrow> normal (fold (clean_step True) ws st)"
  by (induction ws arbitrary: st) (auto simp: clean_step_normal)

lemma clean_comps_normal: "normal (clean_comps True p)"
proof -
  have "normal (fold (clean_step True) (split_char slash p) [])"
    by (rule fold_clean_normal) (use split_char_parts in blast, simp)
  then show ?thesis by (simp add: clean_comps_def list_all_iff)
qed

lemma fold_clean_push:
  "normal cs \<Longrightarrow> fold (clean_step r) cs st = rev cs @ st"
  by (induction cs arbitrary: st) (auto simp: clean_step_def normal_comp_def)

lemma split_abs_path:
  "normal cs \<Longrightarrow> split_char slash (abs_path cs) = [] # (if cs = [] then [[]] else cs)"
  by (auto simp: abs_path_def list_all_iff normal_comp_def intro!: split_join)

lemma clean_comps_abs_path [simp]:
  "normal cs \<Longrightarrow> clean_comps True (abs_path cs) = cs"
  by (simp add: clean_comps_def split_abs_path fold_clean_push clean_step_def)

lemma is_abs_abs_path [simp]: "is_abs (abs_path cs)"
  by (simp add: is_abs_def abs_path_def)

lemma abs_path_nonempty [simp]: "abs_path cs \<noteq> []"
  by (simp add: abs_path_def)

lemma path_clean_abs_path [simp]: "normal cs \<Longrightarrow> path_clean (abs_path cs) = abs_path cs"
  by (simp add: path_clean_def)

lemma path_clean_abs: "is_abs p \<Longrightarrow> path_clean p = abs_path (clean_comps True p)"
  by (auto simp: path_clean_def is_abs_def)

lemma path_clean_idem_abs: "is_abs p \<Longrightarrow> path_clean (path_clean p) = path_clean p"
  by (simp add: path_clean_abs clean_comps_normal)

lemma is_abs_path_clean [simp]: "is_abs p \<Longrightarrow> is_abs (path_clean p)"
  by (simp add: path_clean_abs)

lemma abs_path_inject: "normal cs \<Longrightarrow> normal ds \<Longrightarrow> abs_path cs = abs_path ds \<longleftrightarrow> cs = ds"
  by (metis clean_comps_abs_path)

lemma join_with_append:
  "xs \<noteq> [] \<Longrightarrow> ys \<noteq> [] \<Longrightarrow> join_with sep (xs @ ys) = join_with sep xs @ sep @ join_with sep ys"
proof (induction xs)
  case (Cons a xs)
  then show ?case by (cases "xs = []") (auto simp: join_with_Cons)
qed simp

lemma abs_path_append:
  "cs \<noteq> [] \<Longrightarrow> ds \<noteq> [] \<Longrightarrow> abs_path (cs @ ds) = abs_path cs @ ''/'' @ join_with ''/'' ds"
  by (simp add: abs_path_def join_with_append)

section \<open>The jail test\<close>

definition pathWithin :: "string \<Rightarrow> string \<Rightarrow> bool" where
  "pathWithin p root =
     (if p = root then True
      else let r = (if has_suffix root ''/'' then root else root @ ''/'')
           in has_prefix p r)"

lemma normal_join_last: "normal cs \<Longrightarrow> cs \<noteq> [] \<Longrightarrow> last (join_with ''/'' cs) \<noteq> slash \<and> join_with ''/'' cs \<noteq> []"
proof (induction cs)
  case (Cons c cs)
  then show ?case
    by (cases cs) (auto simp: normal_comp_def join_with_Cons dest: last_in_set)
qed simp

lemma abs_path_suffix_slash: "normal cs \<Longrightarrow> has_suffix (abs_path cs) ''/'' \<longleftrightarrow> cs = []"
proof (cases "cs = []")
  case False
  assume n: "normal cs"
  have "last (abs_path cs) \<noteq> slash"
    using normal_join_last [OF n False] by (simp add: abs_path_def)
  with False show ?thesis by (auto simp: has_suffix_iff)
qed (simp add: abs_path_def has_suffix_def)

lemma prefix_split:
  "split_char d (s @ [d] @ t) = split_char d s @ split_char d t"
proof (induction s)
  case (Cons c s)
  obtain w ws where "split_char d s = w # ws" by (cases "split_char d s") auto
  with Cons show ?case by auto
qed simp

lemma pathWithin_abs_path:
  assumes "normal cs" and "normal rs"
  shows "pathWithin (abs_path cs) (abs_path rs) \<longleftrightarrow> prefix rs cs"
proof (cases "rs = []")
  case True
  then show ?thesis by (auto simp: pathWithin_def abs_path_def has_suffix_def)
next
  case False
  have split_rs: "split_char slash (abs_path rs) = [] # rs"
    using assms(2) False by (simp add: split_abs_path)
  have eq: "pathWithin (abs_path cs) (abs_path rs) \<longleftrightarrow>
      cs = rs \<or> (\<exists>t. abs_path cs = abs_path rs @ [slash] @ t)"
    using assms False
    by (auto simp: pathWithin_def abs_path_suffix_slash abs_path_inject has_prefix_iff)
  have "prefix rs cs" if t: "abs_path cs = abs_path rs @ [slash] @ t" for t
  proof -
    have "split_char slash (abs_path cs) = ([] # rs) @ split_char slash t"
      unfolding t prefix_split split_rs ..
    then have "[] # (if cs = [] then [[]] else cs) = [] # rs @ split_char slash t"
      using assms(1) by (simp add: split_abs_path)
    moreover have "cs \<noteq> []"
      using calculation False assms(2) by (cases rs) (auto simp: normal_comp_def)
    ultimately show ?thesis by simp
  qed
  moreover have "cs = rs \<or> (\<exists>t. abs_path cs = abs_path rs @ [slash] @ t)" if pre: "prefix rs cs"
  proof -
    obtain ds where "cs = rs @ ds" using pre by (rule prefixE)
    then show ?thesis
      using False by (cases "ds = []") (auto simp: abs_path_append)
  qed
  ultimately show ?thesis using eq by blast
qed

lemma under_join:
  assumes "normal cs" and "cs \<noteq> []" and "normal ts"
  shows "(join_with ''/'' ts = join_with ''/'' cs \<or> has_prefix (join_with ''/'' ts) (join_with ''/'' cs @ ''/''))
     \<longleftrightarrow> prefix cs ts"
  using pathWithin_abs_path [OF assms(3,1)] assms abs_path_suffix_slash [of cs]
  by (simp add: pathWithin_def abs_path_def Let_def split: if_splits)

lemma strip_common_prefix: "strip_common rs (rs @ ds) = ([], ds)"
  by (induction rs) (cases ds, auto)

lemma strip_common_nonempty: "\<not> prefix rs ps \<Longrightarrow> fst (strip_common rs ps) \<noteq> []"
  by (induction rs ps rule: strip_common.induct) auto

lemma nonempty_parts_abs_path: "normal cs \<Longrightarrow> nonempty_parts (abs_path cs) = cs"
  by (simp add: nonempty_parts_def split_abs_path)
    (auto simp: filter_id_conv list_all_iff normal_comp_def)

lemma strip_common_suffixes: "suffix (fst (strip_common xs ys)) xs \<and> suffix (snd (strip_common xs ys)) ys"
  by (induction xs ys rule: strip_common.induct) (auto simp: suffix_ConsI)

lemma normal_suffix: "suffix bs rs \<Longrightarrow> normal rs \<Longrightarrow> normal bs"
  by (auto simp: suffix_def)

lemma abs_path_not_dot [simp]: "abs_path cs \<noteq> ''.''"
  by (simp add: abs_path_def)

text \<open>\<^verbatim>\<open>filepath.Rel\<close> of a target below its base is the rest of the components, and otherwise climbs.\<close>

lemma path_rel_below:
  assumes "normal rs" and "normal (rs @ ds)"
  shows "path_rel (abs_path rs) (abs_path (rs @ ds)) = Some (if ds = [] then ''.'' else join_with ''/'' ds)"
  using assms
  by (auto simp: path_rel_def abs_path_inject nonempty_parts_abs_path strip_common_prefix simp del: list_all_append)

lemma path_rel_outside:
  assumes "normal rs" and "normal ps" and "\<not> prefix rs ps"
  shows "\<exists>r. path_rel (abs_path rs) (abs_path ps) = Some r \<and> (r = ''..'' \<or> has_prefix r ''../'')"
proof -
  obtain bs ts where st: "strip_common rs ps = (bs, ts)" by fastforce
  have bs: "bs \<noteq> []" using strip_common_nonempty [OF assms(3)] st by simp
  have "normal bs" using strip_common_suffixes [of rs ps] st assms(1) normal_suffix by auto
  then have hd: "hd bs \<noteq> ''..''" using bs by (cases bs) (auto simp: normal_comp_def)
  from bs obtain n where n: "length bs = Suc n" by (cases bs) auto
  have ne: "abs_path ps \<noteq> abs_path rs" using assms by (auto simp: abs_path_inject)
  have "path_rel (abs_path rs) (abs_path ps) = Some (join_with ''/'' (''..'' # replicate n ''..'' @ ts))"
    using assms st hd n ne by (simp add: path_rel_def nonempty_parts_abs_path)
  then show ?thesis by (cases "replicate n ''..'' @ ts") (auto simp: join_with_Cons)
qed

section \<open>Parents, bases and joins of normal paths\<close>

lemma join_with_snoc: "cs \<noteq> [] \<Longrightarrow> join_with sep (cs @ [c]) = join_with sep cs @ sep @ c"
  by (simp add: join_with_append)

lemma abs_path_snoc: "abs_path (cs @ [c]) = (if cs = [] then ''/'' else abs_path cs @ ''/'') @ c"
  by (simp add: abs_path_def join_with_snoc)

lemma upto_last_slash_snoc: "slash \<notin> set c \<Longrightarrow> upto_last_slash (p @ [slash] @ c) = p @ [slash]"
  by (simp add: upto_last_slash_def) (subst dropWhile_append2, auto)

lemma after_last_slash_snoc: "slash \<notin> set c \<Longrightarrow> after_last_slash (p @ [slash] @ c) = c"
  by (simp add: after_last_slash_def) (subst takeWhile_append2, auto)

lemma clean_comps_slash: "clean_comps r (p @ [slash]) = clean_comps r p"
  using prefix_split [of slash p "[]"] by (simp add: clean_comps_def clean_step_def)

lemma path_dir_abs_path: "normal (cs @ [c]) \<Longrightarrow> path_dir (abs_path (cs @ [c])) = abs_path cs"
proof -
  assume n: "normal (cs @ [c])"
  then have c: "slash \<notin> set c" and cs: "normal cs" by (auto simp: normal_comp_def)
  show ?thesis
  proof (cases "cs = []")
    case True
    then show ?thesis using upto_last_slash_snoc [OF c, of "[]"]
      by (simp add: path_dir_def abs_path_def path_clean_def is_abs_def clean_comps_def clean_step_def)
  next
    case False
    then have "upto_last_slash (abs_path (cs @ [c])) = abs_path cs @ [slash]"
      using upto_last_slash_snoc [OF c, of "abs_path cs"] by (simp add: abs_path_snoc)
    moreover have "path_clean (abs_path cs @ [slash]) = abs_path cs"
      using cs by (simp add: path_clean_def is_abs_def abs_path_def [of cs])
        (simp add: clean_comps_slash [of _ "slash # join_with ''/'' cs", simplified] abs_path_def [symmetric])
    ultimately show ?thesis by (simp add: path_dir_def)
  qed
qed

lemma path_dir_root [simp]: "path_dir ''/'' = ''/''"
  by (simp add: path_dir_def upto_last_slash_def path_clean_def is_abs_def clean_comps_def
      clean_step_def abs_path_def)

lemma path_base_abs_path:
  assumes n: "normal (cs @ [c])"
  shows "path_base (abs_path (cs @ [c])) = c"
proof -
  from n have c: "slash \<notin> set c" "c \<noteq> []" by (auto simp: normal_comp_def)
  obtain p where p: "abs_path (cs @ [c]) = p @ [slash] @ c" by (simp add: abs_path_snoc) (metis append_Nil)
  have "last c \<noteq> slash" using c by (metis last_in_set)
  then have "trim_right_chars (p @ [slash] @ c) ''/'' = p @ [slash] @ c"
    using trim_right_chars_append [of "p @ [slash] @ c" "''/''" "[]"] c by simp
  with c p after_last_slash_snoc [of c p] show ?thesis by (simp add: path_base_def Let_def)
qed

lemma clean_comps_append_slash:
  "clean_comps True (p @ [slash] @ q) = rev (fold (clean_step True) (split_char slash q) (rev (clean_comps True p)))"
  by (simp add: clean_comps_def prefix_split del: append_Cons)

lemma path_join_abs_path:
  assumes "normal cs" and "normal ds"
  shows "path_join [abs_path cs, join_with ''/'' ds] = abs_path (cs @ ds)"
proof -
  have s: "fold (clean_step True) (split_char slash (join_with ''/'' ds)) (rev cs) = rev ds @ rev cs"
  proof (cases "ds = []")
    case True
    then show ?thesis by (simp add: clean_step_def)
  next
    case False
    then have "split_char slash (join_with ''/'' ds) = ds"
      using assms(2) by (intro split_join) (auto simp: list_all_iff normal_comp_def)
    then show ?thesis using assms(2) by (simp add: fold_clean_push)
  qed
  have "clean_comps True (abs_path cs @ [slash] @ join_with ''/'' ds) = cs @ ds"
    unfolding clean_comps_append_slash using assms s by simp
  moreover have "is_abs (abs_path cs @ [slash] @ join_with ''/'' ds)"
    by (simp add: is_abs_def abs_path_def)
  ultimately show ?thesis by (simp add: path_clean_abs)
qed

lemma path_join_rel:
  assumes "normal (c # ds)"
  shows "path_join [c, join_with ''/'' ds] = join_with ''/'' (c # ds)"
proof -
  have c: "normal_comp c" and ds: "normal ds" using assms by simp_all
  have split: "split_char slash (c @ slash # join_with ''/'' ds) = c # (if ds = [] then [[]] else ds)"
  proof (cases "ds = []")
    case False
    have "split_char slash (join_with ''/'' ds) = ds"
      using False ds by (intro split_join) (auto simp: list_all_iff normal_comp_def)
    with False c show ?thesis by (simp add: split_char_append normal_comp_def)
  qed (use c in \<open>simp add: split_char_append normal_comp_def\<close>)
  have "clean_comps False (c @ slash # join_with ''/'' ds) = c # ds"
    unfolding clean_comps_def split using assms fold_clean_push [of "c # ds" False "[]"] c
    by (cases "ds = []") (auto simp: clean_step_def normal_comp_def)
  moreover have "\<not> is_abs (c @ slash # join_with ''/'' ds)" "c \<noteq> []"
    using c by (cases c; auto simp: is_abs_def normal_comp_def)+
  moreover have "join_with ''/'' [c, join_with ''/'' ds] = c @ slash # join_with ''/'' ds" by simp
  ultimately show ?thesis by (simp add: path_clean_def)
qed

section \<open>Lengths: taking the parent makes progress\<close>

definition weight :: "string list \<Rightarrow> nat" where
  "weight st = sum_list (map (\<lambda>c. Suc (length c)) st)"

lemma weight_simps [simp]: "weight [] = 0" "weight (c # st) = Suc (length c) + weight st"
  "weight (xs @ ys) = weight xs + weight ys" "weight (rev xs) = weight xs"
  by (simp_all add: weight_def rev_map [symmetric])

lemma weight_join: "ws \<noteq> [] \<Longrightarrow> weight ws = Suc (length (join_with [d] ws))"
proof (induction ws)
  case (Cons w ws)
  then show ?case by (cases "ws = []") (auto simp: join_with_Cons)
qed simp

lemma weight_split: "weight (split_char d s) = Suc (length s)"
  using weight_join [of "split_char d s" d] by simp

lemma weight_clean_step: "weight (clean_step r c st) \<le> weight st + (if c = [] then 0 else Suc (length c))"
  by (auto simp: clean_step_def split: list.splits)

lemma weight_fold_clean: "weight (fold (clean_step r) ws st) \<le> weight st + weight (filter (\<lambda>w. w \<noteq> []) ws)"
proof (induction ws arbitrary: st)
  case (Cons w ws)
  show ?case using Cons.IH [of "clean_step r w st"] weight_clean_step [of r w st] by auto
qed simp

lemma weight_clean_comps: "weight (clean_comps r p) \<le> weight (nonempty_parts p)"
  using weight_fold_clean [of r "split_char slash p" "[]"]
  by (simp add: clean_comps_def nonempty_parts_def)

lemma weight_filter: "weight (filter P ws) \<le> weight ws"
  by (induction ws) auto

lemma nonempty_parts_abs: "is_abs p \<Longrightarrow> weight (nonempty_parts p) \<le> length p"
  using weight_split [of slash "tl p"] weight_filter [of "\<lambda>w. w \<noteq> []" "split_char slash (tl p)"]
  by (cases p) (auto simp: is_abs_def nonempty_parts_def)

lemma nonempty_parts_slash: "nonempty_parts (p @ [slash]) = nonempty_parts p"
  using prefix_split [of slash p "[]"] by (simp add: nonempty_parts_def)

lemma weight_nonempty_parts: "weight (nonempty_parts p) \<le> Suc (length p)"
  using weight_split [of slash p] weight_filter [of "\<lambda>w. w \<noteq> []" "split_char slash p"]
  by (simp add: nonempty_parts_def)

lemma length_abs_path: "length (abs_path cs) = (if cs = [] then 1 else weight cs)"
  using weight_join [of cs slash] by (simp add: abs_path_def)

lemma length_path_clean_slash:
  "path_clean (p @ [slash]) = p @ [slash] \<or> path_clean (p @ [slash]) = ''.''
     \<or> length (path_clean (p @ [slash])) \<le> length p"
proof (cases "is_abs (p @ [slash])")
  case True
  have "weight (clean_comps True (p @ [slash])) \<le> weight (nonempty_parts p)"
    using weight_clean_comps [of True "p @ [slash]"] by (simp add: nonempty_parts_slash)
  moreover have "p = [] \<or> is_abs p" using True by (cases p) (auto simp: is_abs_def)
  moreover have "path_clean ''/'' = ''/''"
    using path_clean_abs_path [of "[]"] by (simp add: abs_path_def)
  ultimately show ?thesis
    using nonempty_parts_abs [of p] length_abs_path [of "clean_comps True (p @ [slash])"]
      path_clean_abs [OF True] by (cases "p = []") (auto simp: is_abs_def Suc_le_eq split: if_splits)
next
  case False
  then have "length (path_clean (p @ [slash])) \<le> length p \<or> path_clean (p @ [slash]) = ''.''"
    using weight_clean_comps [of False "p @ [slash]"] weight_nonempty_parts [of p]
      weight_join [of "clean_comps False (p @ [slash])" slash]
    by (auto simp: path_clean_def Let_def nonempty_parts_slash)
  then show ?thesis by blast
qed

lemma upto_last_slash_cases: "upto_last_slash p = [] \<or> (\<exists>q r. upto_last_slash p = q @ [slash] \<and> p = q @ [slash] @ r)"
proof (cases "slash \<in> set p")
  case True
  then obtain q r where "p = q @ slash # r" "slash \<notin> set r" using split_list_last by fastforce
  then show ?thesis using upto_last_slash_snoc [of r q] by auto
next
  case False
  then have "dropWhile (\<lambda>c. c \<noteq> slash) (rev p) = []" by (auto simp: dropWhile_eq_Nil_conv)
  then show ?thesis by (simp add: upto_last_slash_def)
qed

lemma path_dir_progress:
  "path_dir p = p \<or> path_dir p = ''.'' \<or> length (path_dir p) < length p"
  using upto_last_slash_cases [of p]
proof (elim disjE exE conjE)
  fix q r assume q: "upto_last_slash p = q @ [slash]" and p: "p = q @ [slash] @ r"
  have "path_dir p = q @ [slash] \<or> path_dir p = ''.'' \<or> length (path_dir p) \<le> length q"
    using length_path_clean_slash [of q] by (simp add: path_dir_def q)
  then show ?thesis using p by (cases r) auto
qed (simp add: path_dir_def path_clean_def)

lemma path_dir_dot [simp]: "path_dir ''.'' = ''.''"
  by (simp add: path_dir_def upto_last_slash_def path_clean_def)

end
