(* ===== verification/Policy.thy ===== *)
theory Policy
  imports Paths
begin

text \<open>
  The permission engine, \<^verbatim>\<open>internal/policy\<close>: rules and their parser
  (\<^verbatim>\<open>engine.go\<close>), the matchers (\<^verbatim>\<open>match.go\<close>), and \<^verbatim>\<open>Evaluate\<close>. Two
  parameters stand for code outside the repository: \<^verbatim>\<open>ev\<close> is
  \<^verbatim>\<open>filepath.EvalSymlinks\<close> on the machine's file system (\<^const>\<open>None\<close> is an error)
  and \<^verbatim>\<open>dm\<close> is \<^verbatim>\<open>doublestar.Match\<close> (\<^const>\<open>None\<close> is its error).
\<close>

section \<open>Data: policy.go\<close>

datatype mode = ModeDefault | ModeAcceptEdits | ModeBypassPermissions

fun mode_string :: "mode \<Rightarrow> string" where
  "mode_string ModeDefault = ''default''"
| "mode_string ModeAcceptEdits = ''acceptEdits''"
| "mode_string ModeBypassPermissions = ''bypassPermissions''"

definition parse_mode :: "string \<Rightarrow> mode option" where
  "parse_mode s =
     (if s = ''default'' then Some ModeDefault
      else if s = ''acceptEdits'' then Some ModeAcceptEdits
      else if s = ''bypassPermissions'' then Some ModeBypassPermissions
      else None)"

definition ValidMode :: "string \<Rightarrow> bool" where
  "ValidMode s = (parse_mode s \<noteq> None)"

datatype behavior = Allow | Ask | Deny

fun behavior_string :: "behavior \<Rightarrow> string" where
  "behavior_string Allow = ''allow''"
| "behavior_string Ask = ''ask''"
| "behavior_string Deny = ''deny''"

record decision =
  d_behavior :: behavior
  d_rule :: string
  d_reason :: string

record rule =
  r_raw :: string
  r_tool :: string
  r_spec :: string
  r_behavior :: behavior
  r_literal :: bool

record config =
  cfg_allow :: "string list"
  cfg_ask :: "string list"
  cfg_deny :: "string list"

record tool_call =
  tc_tool :: string
  tc_command :: string
  tc_paths :: "string list"

type_synonym overlay = "rule list"

definition new_overlay :: overlay where
  "new_overlay = []"

definition add_allow :: "string \<Rightarrow> string \<Rightarrow> overlay \<Rightarrow> overlay" where
  "add_allow tool spec ov =
     ov @ [\<lparr>r_raw = (if spec \<noteq> [] then tool @ ''('' @ spec @ '')'' else tool), r_tool = tool,
            r_spec = spec, r_behavior = Allow, r_literal = True\<rparr>]"

section \<open>Rule parsing: engine.go\<close>

datatype policy_error =
    UnbalancedParen string
  | EmptyToolName string
  | UnknownTool string string
  | InvalidMode string
  | RootError string

definition valid_tools :: "string list" where
  "valid_tools = [''Bash'', ''BashOutput'', ''KillShell'', ''Read'', ''Write'', ''Edit'', ''Glob'', ''Grep'']"

definition path_tools :: "string list" where
  "path_tools = [''Read'', ''Write'', ''Edit'', ''Glob'', ''Grep'']"

definition check_tool :: "string \<Rightarrow> string \<Rightarrow> string \<Rightarrow> string \<Rightarrow> behavior \<Rightarrow> policy_error + rule" where
  "check_tool raw s tool spec b =
     (if tool = [] then Inl (EmptyToolName raw)
      else if tool \<notin> set valid_tools then Inl (UnknownTool raw tool)
      else Inr \<lparr>r_raw = s, r_tool = tool, r_spec = spec, r_behavior = b, r_literal = False\<rparr>)"

definition parse_rule :: "string \<Rightarrow> behavior \<Rightarrow> policy_error + rule" where
  "parse_rule raw b =
     (let s = trim_space raw
      in case index_of s ''('' of
           Some i \<Rightarrow>
             if \<not> has_suffix s '')'' \<or> length s < i + 2 then Inl (UnbalancedParen raw)
             else check_tool raw s (take i s) (take (length s - 1 - (i + 1)) (drop (i + 1) s)) b
         | None \<Rightarrow>
             if str_contains s '')'' then Inl (UnbalancedParen raw)
             else check_tool raw s s [] b)"

fun parse_rules :: "string list \<Rightarrow> behavior \<Rightarrow> policy_error + rule list" where
  "parse_rules [] b = Inr []"
| "parse_rules (raw # raws) b =
     (case parse_rule raw b of Inl e \<Rightarrow> Inl e
      | Inr r \<Rightarrow> (case parse_rules raws b of Inl e \<Rightarrow> Inl e | Inr rs \<Rightarrow> Inr (r # rs)))"

section \<open>Matching: match.go\<close>

text \<open>
  \<^verbatim>\<open>realPath\<close>: the longest ancestor that resolves, with the rest appended.
\<close>

function real_path_loop :: "(string \<Rightarrow> string option) \<Rightarrow> string \<Rightarrow> string \<Rightarrow> string \<Rightarrow> string" where
  "real_path_loop ev p cur rest =
     (case ev cur of
        Some resolved \<Rightarrow> if rest = [] then resolved else path_join [resolved, rest]
      | None \<Rightarrow>
          let parent = path_dir cur
          in if parent = cur then p
             else real_path_loop ev p parent (path_join [path_base cur, rest]))"
  by pat_completeness auto
termination
proof (relation "measure (\<lambda>(ev, p, cur, rest). if cur = ''.'' then 0 else Suc (length cur))", goal_cases)
  case (2 ev p cur rest parent)
  then show ?case using path_dir_progress [of cur] by auto
qed simp

declare real_path_loop.simps [simp del]

definition real_path :: "(string \<Rightarrow> string option) \<Rightarrow> string \<Rightarrow> string" where
  "real_path ev p = real_path_loop ev p p []"

definition credential_patterns :: "string \<Rightarrow> string list" where
  "credential_patterns home =
     [''/etc/shadow'', ''/etc/sudoers''] @
     (if home \<noteq> []
      then [home @ ''/.ssh/**'', home @ ''/.aws/**'', home @ ''/.config/gcloud/**'',
            home @ ''/.gnupg/**'', home @ ''/.kube/**'', home @ ''/.docker/config.json'',
            home @ ''/.netrc'', home @ ''/.git-credentials'']
      else [])"

record engine =
  e_cfg :: config
  e_mode :: mode
  e_root :: string
  e_deny :: "rule list"
  e_ask :: "rule list"
  e_allow :: "rule list"
  e_home :: string
  e_cred :: "string list"

definition has_glob_chars :: "string \<Rightarrow> bool" where
  "has_glob_chars s = contains_any s ''*?[{''"

definition is_credential_path :: "(string \<Rightarrow> string \<Rightarrow> bool option) \<Rightarrow> engine \<Rightarrow> string \<Rightarrow> bool" where
  "is_credential_path dm e p =
     (str_contains p ''/.ssh/'' \<or>
      list_ex (\<lambda>pat. if has_glob_chars pat then dm pat p = Some True else p = pat) (e_cred e))"

definition bare_catch_alls :: "string list" where
  "bare_catch_alls = [''**'', ''/**'', ''**/*'', ''*'']"

text \<open>
  The second half of \<^verbatim>\<open>matchPathSpec\<close>: the pattern against the target, by glob, by
  equality, or as a directory above the target.
\<close>

definition match_target :: "(string \<Rightarrow> string \<Rightarrow> bool option) \<Rightarrow> string \<Rightarrow> string \<Rightarrow> bool" where
  "match_target dm pat0 target =
     (let pat1 = trim_suffix pat0 ''/''; pat = (if pat1 = [] then ''/'' else pat1)
      in dm pat target = Some True \<or>
         (\<not> has_glob_chars pat \<and> (target = pat \<or> has_prefix target (pat @ ''/''))))"

text \<open>Home expansion; \<^const>\<open>None\<close> when the specifier needs a home there is not.\<close>

definition expand_home :: "string \<Rightarrow> string \<Rightarrow> string option" where
  "expand_home home spec =
     (if spec = ''~'' \<or> has_prefix spec ''~/''
      then (if home = [] then None else Some (home @ drop 1 spec))
      else Some spec)"

definition match_path_spec :: "(string \<Rightarrow> string \<Rightarrow> bool option) \<Rightarrow> engine \<Rightarrow> string \<Rightarrow> string \<Rightarrow> bool" where
  "match_path_spec dm e spec0 p0 =
     (let spec1 = trim_space spec0
      in if spec1 = [] then True
         else case expand_home (e_home e) spec1 of None \<Rightarrow> False
              | Some spec2 \<Rightarrow>
                  let spec = (if has_prefix spec2 ''//'' then drop 1 spec2 else spec2);
                      p = path_clean p0
                  in if is_abs spec then match_target dm spec p
                     else case path_rel (e_root e) p of None \<Rightarrow> False
                          | Some rel \<Rightarrow>
                              if rel = ''..'' \<or> has_prefix rel ''../'' then False
                              else match_target dm spec rel)"

definition credential_allowlisted :: "(string \<Rightarrow> string \<Rightarrow> bool option) \<Rightarrow> engine \<Rightarrow> string \<Rightarrow> bool" where
  "credential_allowlisted dm e p =
     list_ex (\<lambda>r. r_tool r \<in> set path_tools \<and>
                  (let spec = trim_space (r_spec r)
                   in spec \<noteq> [] \<and> spec \<notin> set bare_catch_alls \<and> match_path_spec dm e spec p))
       (e_allow e)"

text \<open>
  \<^verbatim>\<open>commandGlobToRegexp\<close>: the regexp it builds is a sequence of \<^verbatim>\<open>.*\<close>, \<^verbatim>\<open>.\<close> and
  quoted runes between \<^verbatim>\<open>^\<close> and \<^verbatim>\<open>$\<close>. Without the \<^verbatim>\<open>s\<close> flag \<^verbatim>\<open>.\<close> does
  not match a newline, and without \<^verbatim>\<open>m\<close> the anchors are the ends of the text.
\<close>

datatype glob_item = AnyRun | AnyOne | Lit rune

definition command_glob_items :: "string \<Rightarrow> glob_item list" where
  "command_glob_items glob =
     map (\<lambda>r. if r = 42 then AnyRun else if r = 63 then AnyOne else Lit r) (runes glob)"

abbreviation newline_rune :: rune where "newline_rune \<equiv> 10"

fun glob_match :: "glob_item list \<Rightarrow> rune list \<Rightarrow> bool" where
  "glob_match [] rs = (rs = [])"
| "glob_match (Lit l # gs) rs = (case rs of r # rs' \<Rightarrow> r = l \<and> glob_match gs rs' | [] \<Rightarrow> False)"
| "glob_match (AnyOne # gs) rs =
     (case rs of r # rs' \<Rightarrow> r \<noteq> newline_rune \<and> glob_match gs rs' | [] \<Rightarrow> False)"
| "glob_match (AnyRun # gs) [] = glob_match gs []"
| "glob_match (AnyRun # gs) (r # rs) =
     (glob_match gs (r # rs) \<or> (r \<noteq> newline_rune \<and> glob_match (AnyRun # gs) rs))"

definition match_bash_spec :: "string \<Rightarrow> string \<Rightarrow> bool" where
  "match_bash_spec spec cmd =
     (if has_suffix spec '':*''
      then (let prefix = trim_suffix spec '':*''
            in cmd = prefix \<or> has_prefix cmd (prefix @ '' ''))
      else if contains_any spec ''*?''
      then glob_match (command_glob_items spec) (runes cmd)
      else spec = cmd)"

definition rule_matches :: "(string \<Rightarrow> string \<Rightarrow> bool option) \<Rightarrow> engine \<Rightarrow> rule \<Rightarrow> tool_call \<Rightarrow> bool" where
  "rule_matches dm e r call =
     (if r_tool r \<noteq> tc_tool call then False
      else let spec = trim_space (r_spec r)
           in if spec = [] then True
              else if r_literal r then
                (if r_tool r = ''Bash'' then spec = trim_space (tc_command call)
                 else if r_tool r \<in> set path_tools then
                   tc_paths call \<noteq> [] \<and> list_all (\<lambda>p. path_clean p = path_clean spec) (tc_paths call)
                 else False)
              else if r_tool r = ''Bash'' then match_bash_spec spec (trim_space (tc_command call))
              else if r_tool r \<in> set path_tools then
                tc_paths call \<noteq> [] \<and> list_all (match_path_spec dm e spec) (tc_paths call)
              else False)"

section \<open>The engine: engine.go\<close>

text \<open>
  \<^verbatim>\<open>NewEngine\<close>. \<open>wd\<close> is the process working directory (\<^const>\<open>None\<close>: unknown),
  \<open>home\<close> the user's home directory (\<^const>\<open>None\<close>: unknown).
\<close>

definition path_abs :: "string option \<Rightarrow> string \<Rightarrow> string option" where
  "path_abs wd p =
     (if is_abs p then Some (path_clean p)
      else case wd of None \<Rightarrow> None | Some d \<Rightarrow> Some (path_join [d, p]))"

definition new_engine ::
  "(string \<Rightarrow> string option) \<Rightarrow> string option \<Rightarrow> string option \<Rightarrow> config \<Rightarrow> string \<Rightarrow> string \<Rightarrow> policy_error + engine" where
  "new_engine ev wd home cfg m workspace =
     (case parse_mode m of None \<Rightarrow> Inl (InvalidMode m)
      | Some md \<Rightarrow>
          (case path_abs wd workspace of None \<Rightarrow> Inl (RootError workspace)
           | Some root0 \<Rightarrow>
               let root1 = path_clean root0;
                   root = (case ev root1 of Some resolved \<Rightarrow> resolved | None \<Rightarrow> root1)
               in case parse_rules (cfg_deny cfg) Deny of Inl e \<Rightarrow> Inl e
                  | Inr deny \<Rightarrow>
                     (case parse_rules (cfg_ask cfg) Ask of Inl e \<Rightarrow> Inl e
                      | Inr ask \<Rightarrow>
                         (case parse_rules (cfg_allow cfg) Allow of Inl e \<Rightarrow> Inl e
                          | Inr allow \<Rightarrow>
                              let h = (case home of None \<Rightarrow> [] | Some d \<Rightarrow> path_clean d)
                              in Inr \<lparr>e_cfg = cfg, e_mode = md, e_root = root, e_deny = deny,
                                      e_ask = ask, e_allow = allow, e_home = h,
                                      e_cred = credential_patterns h\<rparr>))))"

definition mk_decision :: "behavior \<Rightarrow> string \<Rightarrow> string \<Rightarrow> decision" where
  "mk_decision b r s = \<lparr>d_behavior = b, d_rule = r, d_reason = s\<rparr>"

definition jail_escape :: "(string \<Rightarrow> string option) \<Rightarrow> engine \<Rightarrow> string \<Rightarrow> bool" where
  "jail_escape ev e p = (\<not> pathWithin (real_path ev (path_clean p)) (e_root e))"

definition credential_hit ::
  "(string \<Rightarrow> string option) \<Rightarrow> (string \<Rightarrow> string \<Rightarrow> bool option) \<Rightarrow> engine \<Rightarrow> string \<Rightarrow> bool" where
  "credential_hit ev dm e p =
     (let cp = path_clean p; rp = real_path ev cp
      in (is_credential_path dm e cp \<or> is_credential_path dm e rp) \<and> \<not> credential_allowlisted dm e cp)"

text \<open>Step 5 of \<^verbatim>\<open>Evaluate\<close>: what the mode decides when no rule matched.\<close>

definition mode_default :: "mode \<Rightarrow> string \<Rightarrow> decision" where
  "mode_default m tool =
     (if m = ModeBypassPermissions
      then mk_decision Allow ''mode:bypassPermissions'' ''permission mode is bypassPermissions''
      else if tool \<in> {''BashOutput'', ''KillShell''}
      then mk_decision Allow ''builtin:readonly'' ''read-only tool auto-approved''
      else if tool \<in> {''Read'', ''Glob'', ''Grep''}
      then mk_decision Allow ''builtin:readonly'' ''read-only tool inside workspace auto-approved''
      else if tool \<in> {''Write'', ''Edit''} \<and> m = ModeAcceptEdits
      then mk_decision Allow ''mode:acceptEdits'' ''edit inside workspace auto-approved by acceptEdits mode''
      else mk_decision Ask ''mode:default'' ''no rule matched; permission mode is default'')"

definition evaluate ::
  "(string \<Rightarrow> string option) \<Rightarrow> (string \<Rightarrow> string \<Rightarrow> bool option) \<Rightarrow> engine \<Rightarrow> tool_call \<Rightarrow> overlay \<Rightarrow> decision" where
  "evaluate ev dm e call ov =
     (case find (jail_escape ev e) (tc_paths call) of
        Some p \<Rightarrow> mk_decision Deny ''builtin:jail''
          (''path '' @ real_path ev (path_clean p) @ '' is outside the sandbox workspace '' @ e_root e)
      | None \<Rightarrow>
     (case find (credential_hit ev dm e) (tc_paths call) of
        Some p \<Rightarrow> mk_decision Deny ''builtin:credentials''
          (''credential path '' @ path_clean p @ '' is blocked (add an explicit allow rule to permit)'')
      | None \<Rightarrow>
     (case find (\<lambda>r. rule_matches dm e r call) (e_deny e) of
        Some r \<Rightarrow> mk_decision Deny (r_raw r) (''blocked by deny rule '' @ r_raw r)
      | None \<Rightarrow>
     (case find (\<lambda>r. rule_matches dm e r call) (e_ask e) of
        Some r \<Rightarrow> mk_decision Ask (r_raw r) (''rule '' @ r_raw r @ '' requires approval'')
      | None \<Rightarrow>
     (case find (\<lambda>r. rule_matches dm e r call) (e_allow e) of
        Some r \<Rightarrow> mk_decision Allow (r_raw r) (''allowed by rule '' @ r_raw r)
      | None \<Rightarrow>
     (case find (\<lambda>r. rule_matches dm e r call) ov of
        Some r \<Rightarrow> mk_decision Allow (r_raw r) (''allowed by session rule '' @ r_raw r)
      | None \<Rightarrow> mode_default (e_mode e) (tc_tool call)))))))"

text \<open>\<^verbatim>\<open>RedactedPolicy\<close>, the view \<^verbatim>\<open>describe\<close> serves.\<close>

record redacted_policy =
  rp_mode :: string
  rp_root :: string
  rp_counts :: "nat \<times> nat \<times> nat"
  rp_allow :: "string list"
  rp_ask :: "string list"
  rp_deny :: "string list"
  rp_jail :: string
  rp_cred_blocked :: bool

definition redacted :: "engine \<Rightarrow> redacted_policy" where
  "redacted e = \<lparr>rp_mode = mode_string (e_mode e), rp_root = e_root e,
     rp_counts = (length (e_allow e), length (e_ask e), length (e_deny e)),
     rp_allow = map r_raw (e_allow e), rp_ask = map r_raw (e_ask e), rp_deny = map r_raw (e_deny e),
     rp_jail = e_root e, rp_cred_blocked = True\<rparr>"

section \<open>Evaluation order\<close>

text \<open>
  The abstract policy: sets of rules and a fixed precedence, with no list order, no
  rule text and no early return. \<open>evaluate_refines\<close> is the refinement.
\<close>

definition hard_denied ::
  "(string \<Rightarrow> string option) \<Rightarrow> (string \<Rightarrow> string \<Rightarrow> bool option) \<Rightarrow> engine \<Rightarrow> tool_call \<Rightarrow> bool" where
  "hard_denied ev dm e call = (\<exists>p\<in>set (tc_paths call). jail_escape ev e p \<or> credential_hit ev dm e p)"

definition covers :: "(string \<Rightarrow> string \<Rightarrow> bool option) \<Rightarrow> engine \<Rightarrow> rule list \<Rightarrow> tool_call \<Rightarrow> bool" where
  "covers dm e rs call = (\<exists>r\<in>set rs. rule_matches dm e r call)"

definition mode_allows :: "mode \<Rightarrow> string \<Rightarrow> bool" where
  "mode_allows m tool =
     (m = ModeBypassPermissions
      \<or> tool \<in> {''BashOutput'', ''KillShell'', ''Read'', ''Glob'', ''Grep''}
      \<or> m = ModeAcceptEdits \<and> tool \<in> {''Write'', ''Edit''})"

definition policy_spec ::
  "(string \<Rightarrow> string option) \<Rightarrow> (string \<Rightarrow> string \<Rightarrow> bool option) \<Rightarrow> engine \<Rightarrow> tool_call \<Rightarrow> overlay \<Rightarrow> behavior" where
  "policy_spec ev dm e call ov =
     (if hard_denied ev dm e call \<or> covers dm e (e_deny e) call then Deny
      else if covers dm e (e_ask e) call then Ask
      else if covers dm e (e_allow e @ ov) call \<or> mode_allows (e_mode e) (tc_tool call) then Allow
      else Ask)"

lemma mk_decision_simps [simp]:
  "d_behavior (mk_decision b r s) = b" "d_rule (mk_decision b r s) = r"
  by (simp_all add: mk_decision_def)

lemma find_covers: "find (\<lambda>r. rule_matches dm e r call) rs = None \<longleftrightarrow> \<not> covers dm e rs call"
  by (auto simp: find_None_iff covers_def)

lemma find_covers_Some: "find (\<lambda>r. rule_matches dm e r call) rs = Some r \<Longrightarrow> covers dm e rs call"
  using find_covers [of dm e call rs] by auto

lemma covers_append: "covers dm e (rs @ ss) call \<longleftrightarrow> covers dm e rs call \<or> covers dm e ss call"
  by (auto simp: covers_def)

lemma mode_default_behavior:
  "d_behavior (mode_default m tool) = (if mode_allows m tool then Allow else Ask)"
  by (auto simp: mode_default_def mode_allows_def)

lemma hard_denied_find:
  "hard_denied ev dm e call \<longleftrightarrow>
     find (jail_escape ev e) (tc_paths call) \<noteq> None \<or> find (credential_hit ev dm e) (tc_paths call) \<noteq> None"
  by (auto simp: hard_denied_def find_None_iff)

lemma not_hard_denied:
  "\<not> hard_denied ev dm e call \<Longrightarrow>
     find (jail_escape ev e) (tc_paths call) = None \<and> find (credential_hit ev dm e) (tc_paths call) = None"
  by (auto simp: hard_denied_find)

lemma evaluate_behavior: "d_behavior (evaluate ev dm e call ov) = policy_spec ev dm e call ov"
proof (cases "hard_denied ev dm e call")
  case True
  then show ?thesis
    by (auto simp: evaluate_def policy_spec_def hard_denied_find split: option.splits)
next
  case False
  note f = not_hard_denied [OF False]
  show ?thesis
    unfolding evaluate_def policy_spec_def
    by (auto simp: f False find_covers covers_append mode_default_behavior
        dest: find_covers_Some split: option.splits)
qed

text \<open>
  C13. The decision of the engine is the abstract policy's: a hard deny (jail,
  credentials) or a deny rule denies; otherwise an ask rule asks; otherwise an allow
  rule, an overlay rule or the mode allows; otherwise it asks. It depends on the rule
  lists as sets only.
\<close>

theorem evaluate_refines: "d_behavior (evaluate ev dm e call ov) = policy_spec ev dm e call ov"
  by (rule evaluate_behavior)

text \<open>
  C14. Whatever the mode, the rules and the overlay: a call that is not denied touches
  only paths whose symlink-resolved form is the workspace root or below it.
\<close>

theorem jail_safety:
  assumes "d_behavior (evaluate ev dm e call ov) \<noteq> Deny" and "p \<in> set (tc_paths call)"
  shows "pathWithin (real_path ev (path_clean p)) (e_root e)"
  using assms by (auto simp: evaluate_behavior policy_spec_def hard_denied_def jail_escape_def split: if_splits)

section \<open>Credential paths\<close>

text \<open>The substring test on a cleaned path is a test on its components.\<close>

lemma contains_char_comp:
  assumes "normal cs" and "slash \<notin> set w" and "w \<noteq> []"
  shows "str_contains (abs_path cs) (''/'' @ w @ ''/'') \<longleftrightarrow> w \<in> set (butlast cs)"
proof
  assume "str_contains (abs_path cs) (''/'' @ w @ ''/'')"
  then obtain a b where ab: "abs_path cs = a @ [slash] @ w @ [slash] @ b" by (auto simp: str_contains_iff)
  have "split_char slash (abs_path cs) = split_char slash a @ [w] @ split_char slash b"
    unfolding ab prefix_split using split_char_append [OF assms(2), of b] split_char_no_sep [OF assms(2)] by simp
  then have e: "[] # (if cs = [] then [[]] else cs) = split_char slash a @ [w] @ split_char slash b"
    using assms(1) by (simp add: split_abs_path)
  obtain x xs where a: "split_char slash a = x # xs" by (cases "split_char slash a") auto
  from e a have c: "(if cs = [] then [[]] else cs) = xs @ [w] @ split_char slash b" by simp
  then have "cs \<noteq> []" using assms(3) by (cases xs) auto
  with c show "w \<in> set (butlast cs)" by (simp add: butlast_append)
next
  assume "w \<in> set (butlast cs)"
  then obtain us vs where "butlast cs = us @ w # vs" by (meson split_list)
  then have cs: "cs = (us @ [w]) @ vs @ [last cs]" "cs \<noteq> []"
    by (metis append.assoc append_Cons append_Nil append_butlast_last_id butlast.simps(1) list.distinct(1) snoc_eq_iff_butlast)+
  have "abs_path cs = abs_path (us @ [w]) @ ''/'' @ join_with ''/'' (vs @ [last cs])"
    using cs(1) abs_path_append [of "us @ [w]" "vs @ [last cs]"] by (metis Nil_is_append_conv list.distinct(1))
  moreover have "\<exists>a. abs_path (us @ [w]) = a @ ''/'' @ w"
    by (auto simp: abs_path_snoc)
  ultimately show "str_contains (abs_path cs) (''/'' @ w @ ''/'')"
    unfolding str_contains_iff by (metis append.assoc)
qed

lemma ssh_credential: "normal cs \<Longrightarrow> ''.ssh'' \<in> set (butlast cs) \<Longrightarrow> is_credential_path dm e (abs_path cs)"
  using contains_char_comp [of cs "''.ssh''"] by (simp add: is_credential_path_def)

lemma match_path_spec_mode [simp]: "match_path_spec dm (e\<lparr>e_mode := m\<rparr>) = match_path_spec dm e"
  by (intro ext) (simp add: match_path_spec_def Let_def cong: option.case_cong)

lemma credential_hit_mode [simp]: "credential_hit ev dm (e\<lparr>e_mode := m\<rparr>) = credential_hit ev dm e"
  by (intro ext) (simp add: credential_hit_def credential_allowlisted_def is_credential_path_def)

text \<open>
  C15. Below any \<^verbatim>\<open>.ssh\<close> directory, reached by name or through symbolic links, a
  call is denied in every mode and under every overlay, unless a specific allow rule of
  the configuration names the path: \<^verbatim>\<open>bypassPermissions\<close> and session approvals do
  not reach credentials.
\<close>

theorem ssh_denied:
  assumes "p \<in> set (tc_paths call)" and "is_abs p"
    and "\<not> credential_allowlisted dm e (path_clean p)"
    and "''.ssh'' \<in> set (butlast (clean_comps True p)) \<or>
         (\<exists>cs. normal cs \<and> real_path ev (path_clean p) = abs_path cs \<and> ''.ssh'' \<in> set (butlast cs))"
  shows "d_behavior (evaluate ev dm (e\<lparr>e_mode := m\<rparr>) call ov) = Deny"
proof -
  have "credential_hit ev dm (e\<lparr>e_mode := m\<rparr>) p"
    using assms ssh_credential clean_comps_normal
    by (auto simp: credential_hit_def Let_def path_clean_abs)
  with assms(1) show ?thesis by (auto simp: evaluate_behavior policy_spec_def hard_denied_def)
qed

section \<open>Approvals\<close>

text \<open>What an ``allow always'' entry covers.\<close>

lemma literal_rule_matches:
  assumes "trim_space spec \<noteq> []"
  shows "covers dm e (add_allow tool spec []) call \<longleftrightarrow>
     tc_tool call = tool \<and>
     (tool = ''Bash'' \<and> trim_space (tc_command call) = trim_space spec
      \<or> tool \<in> set path_tools \<and> tc_paths call \<noteq> []
         \<and> (\<forall>p\<in>set (tc_paths call). path_clean p = path_clean (trim_space spec)))"
  using assms by (auto simp: covers_def add_allow_def rule_matches_def Let_def path_tools_def list_all_iff)

lemma add_allow_append: "add_allow tool spec ov = ov @ add_allow tool spec []"
  by (simp add: add_allow_def)


lemma blank_rule_matches:
  "trim_space spec = [] \<Longrightarrow> covers dm e (add_allow tool spec []) call \<longleftrightarrow> tc_tool call = tool"
  by (auto simp: covers_def add_allow_def rule_matches_def)

text \<open>
  A blank specifier is not the empty approval: the entry it leaves is a bare tool
  rule, and after it no call of the tool asks again unless an ask rule covers it.
\<close>

theorem blank_approval_allows_tool:
  assumes "trim_space spec = []" and "tc_tool call = tool" and "\<not> covers dm e (e_ask e) call"
    and "\<not> hard_denied ev dm e call" and "\<not> covers dm e (e_deny e) call"
  shows "d_behavior (evaluate ev dm e call (add_allow tool spec ov)) = Allow"
  using assms blank_rule_matches [of spec dm e tool call]
  by (simp add: evaluate_behavior policy_spec_def add_allow_append [of tool spec ov] covers_append)

section \<open>Rule syntax\<close>

lemma index_of_char: "c \<notin> set a \<Longrightarrow> index_of (a @ c # b) [c] = Some (length a)"
  by (induction a) auto

lemma valid_tool_chars: "t \<in> set valid_tools \<Longrightarrow> CHR ''('' \<notin> set t \<and> CHR '')'' \<notin> set t \<and> t \<noteq> []"
  by (auto simp: valid_tools_def)

lemma parse_rule_cases:
  "parse_rule raw b = Inr r \<longleftrightarrow>
     (r_tool r \<in> set valid_tools \<and> r_raw r = trim_space raw \<and> r_behavior r = b \<and> \<not> r_literal r \<and>
      (trim_space raw = r_tool r \<and> r_spec r = [] \<or> trim_space raw = r_tool r @ ''('' @ r_spec r @ '')''))"
    (is "?L \<longleftrightarrow> ?R")
proof
  assume l: ?L
  show ?R
  proof (cases "index_of (trim_space raw) ''(''")
    case None
    with l show ?thesis by (auto simp: parse_rule_def check_tool_def Let_def split: if_splits)
  next
    case (Some i)
    let ?s = "trim_space raw"
    from l Some have suf: "has_suffix ?s '')''" "i + 2 \<le> length ?s"
      by (auto simp: parse_rule_def Let_def split: if_splits)
    obtain u where u: "?s = take i ?s @ ''('' @ u" using index_of_Some [OF Some] by blast
    have i: "length (take i ?s) = i" using suf(2) by simp
    have "u \<noteq> []" using suf(2) u i by (metis append_Nil2 length_append length_Cons list.size(3) add_2_eq_Suc' not_less_eq_eq le_refl One_nat_def add.right_neutral add_Suc_right)
    moreover have "last u = CHR '')''"
      using suf(1) u calculation by (metis has_suffix_iff last_appendR last_snoc append_is_Nil_conv)
    ultimately have u2: "u = butlast u @ '')''" by (metis append_butlast_last_id)
    have "take (length ?s - 1 - (i + 1)) (drop (i + 1) ?s) = butlast u"
    proof -
      have "drop (i + 1) ?s = u" using u i by (metis append.assoc append_eq_conv_conj length_append length_Cons list.size(3) One_nat_def)
      moreover have "length ?s = i + 1 + length u" using u i by (metis length_append length_Cons list.size(3) One_nat_def add.assoc)
      ultimately show ?thesis by (simp add: butlast_conv_take)
    qed
    with l Some suf u u2 show ?thesis
      by (auto simp: parse_rule_def check_tool_def Let_def split: if_splits)
  qed
next
  assume r: ?R
  note c = valid_tool_chars [of "r_tool r"]
  from r consider "trim_space raw = r_tool r" "r_spec r = []" | "trim_space raw = r_tool r @ ''('' @ r_spec r @ '')''"
    by blast
  then show ?L
  proof cases
    case 1
    have "index_of (r_tool r) ''('' = None" "\<not> str_contains (r_tool r) '')''"
      using c r by (auto simp: index_of_None str_contains_iff)
    with 1 r c show ?thesis by (auto simp: parse_rule_def check_tool_def Let_def)
  next
    case 2
    have "index_of (trim_space raw) ''('' = Some (length (r_tool r))"
      using index_of_char [of "CHR ''(''" "r_tool r"] c r 2 by simp
    with 2 r c show ?thesis
      by (auto simp: parse_rule_def check_tool_def Let_def has_suffix_iff)
  qed
qed

text \<open>
  The rule grammar: a text parses exactly when, trimmed, it is a known tool name, or
  one followed by a parenthesized specifier; the rule keeps the trimmed text, the tool
  and the specifier, and is never literal. Every other text is an error.
\<close>

theorem parse_rule_grammar:
  "parse_rule raw b = Inr r \<longleftrightarrow>
     (r_tool r \<in> set valid_tools \<and> r_raw r = trim_space raw \<and> r_behavior r = b \<and> \<not> r_literal r \<and>
      (trim_space raw = r_tool r \<and> r_spec r = [] \<or> trim_space raw = r_tool r @ ''('' @ r_spec r @ '')''))"
  by (rule parse_rule_cases)

section \<open>Command globs\<close>

text \<open>The declarative reading of a glob: the command falls into one piece per item.\<close>

definition piece_ok :: "glob_item \<Rightarrow> rune list \<Rightarrow> bool" where
  "piece_ok g ps =
     (case g of AnyRun \<Rightarrow> newline_rune \<notin> set ps
      | AnyOne \<Rightarrow> length ps = 1 \<and> newline_rune \<notin> set ps
      | Lit l \<Rightarrow> ps = [l])"

definition in_glob :: "glob_item list \<Rightarrow> rune list \<Rightarrow> bool" where
  "in_glob gs rs = (\<exists>pss. list_all2 piece_ok gs pss \<and> concat pss = rs)"

lemma in_glob_Nil: "in_glob [] rs \<longleftrightarrow> rs = []"
  by (auto simp: in_glob_def)

lemma in_glob_ConsI: "piece_ok g ps \<Longrightarrow> in_glob gs qs \<Longrightarrow> in_glob (g # gs) (ps @ qs)"
proof -
  assume p: "piece_ok g ps" and "in_glob gs qs"
  then obtain pss where "list_all2 piece_ok gs pss" "concat pss = qs" by (auto simp: in_glob_def)
  with p have "list_all2 piece_ok (g # gs) (ps # pss) \<and> concat (ps # pss) = ps @ qs" by simp
  then show ?thesis unfolding in_glob_def by blast
qed

lemma in_glob_ConsE:
  assumes "in_glob (g # gs) rs"
  obtains ps qs where "rs = ps @ qs" "piece_ok g ps" "in_glob gs qs"
  using assms that by (force simp: in_glob_def list_all2_Cons1)

lemma in_glob_run:
  "in_glob (AnyRun # gs) (r # rs) \<longleftrightarrow> in_glob gs (r # rs) \<or> (r \<noteq> newline_rune \<and> in_glob (AnyRun # gs) rs)"
proof
  assume "in_glob (AnyRun # gs) (r # rs)"
  then obtain ps qs where q: "r # rs = ps @ qs" "newline_rune \<notin> set ps" "in_glob gs qs"
    by (elim in_glob_ConsE) (simp add: piece_ok_def)
  show "in_glob gs (r # rs) \<or> (r \<noteq> newline_rune \<and> in_glob (AnyRun # gs) rs)"
  proof (cases ps)
    case (Cons a as)
    then have "in_glob (AnyRun # gs) (as @ qs)" using q by (intro in_glob_ConsI) (auto simp: piece_ok_def)
    with Cons q show ?thesis by simp
  qed (use q in simp)
next
  assume "in_glob gs (r # rs) \<or> (r \<noteq> newline_rune \<and> in_glob (AnyRun # gs) rs)"
  then show "in_glob (AnyRun # gs) (r # rs)"
  proof (elim disjE conjE)
    assume r: "r \<noteq> newline_rune" and "in_glob (AnyRun # gs) rs"
    from this(2) obtain ps qs where "rs = ps @ qs" "newline_rune \<notin> set ps" "in_glob gs qs"
      by (elim in_glob_ConsE) (simp add: piece_ok_def)
    with r show ?thesis using in_glob_ConsI [of AnyRun "r # ps" gs qs] by (simp add: piece_ok_def)
  next
    assume "in_glob gs (r # rs)"
    then show ?thesis using in_glob_ConsI [of AnyRun "[]"] by (simp add: piece_ok_def)
  qed
qed

lemma in_glob_run_Nil: "in_glob (AnyRun # gs) [] \<longleftrightarrow> in_glob gs []"
  using in_glob_ConsI [of AnyRun "[]" gs "[]"] by (auto simp: piece_ok_def elim: in_glob_ConsE)

lemma in_glob_single:
  assumes "\<And>ps. piece_ok g ps \<longleftrightarrow> (\<exists>r. P r \<and> ps = [r])"
  shows "in_glob (g # gs) rs \<longleftrightarrow> (case rs of r # rs' \<Rightarrow> P r \<and> in_glob gs rs' | [] \<Rightarrow> False)"
proof (cases rs)
  case Nil
  then show ?thesis using assms by (auto elim!: in_glob_ConsE)
next
  case (Cons r rs')
  then show ?thesis
    using assms in_glob_ConsI [of g "[r]" gs rs'] by (auto elim!: in_glob_ConsE)
qed

lemma glob_match_in_glob: "glob_match gs rs \<longleftrightarrow> in_glob gs rs"
proof (induction gs rs rule: glob_match.induct)
  case (1 rs)
  then show ?case by (simp add: in_glob_Nil)
next
  case (2 l gs rs)
  then show ?case
    by (cases rs) (simp_all add: in_glob_single [of "Lit l" "\<lambda>r. r = l"] piece_ok_def)
next
  case (3 gs rs)
  have "piece_ok AnyOne ps \<longleftrightarrow> (\<exists>r. r \<noteq> newline_rune \<and> ps = [r])" for ps
    by (auto simp: piece_ok_def length_Suc_conv)
  with 3 show ?case
    by (cases rs) (simp_all add: in_glob_single [of AnyOne "\<lambda>r. r \<noteq> newline_rune"])
next
  case (4 gs)
  then show ?case by (simp add: in_glob_run_Nil)
next
  case (5 gs r rs)
  then show ?case by (simp add: in_glob_run)
qed

lemma in_glob_newline:
  "in_glob gs rs \<Longrightarrow> newline_rune \<in> set rs \<Longrightarrow> Lit newline_rune \<in> set gs"
proof (induction gs arbitrary: rs)
  case (Cons g gs)
  then obtain ps qs where "rs = ps @ qs" "piece_ok g ps" "in_glob gs qs" by (auto elim: in_glob_ConsE)
  with Cons show ?case by (cases g) (auto simp: piece_ok_def)
qed (simp add: in_glob_Nil)

text \<open>
  C26. The three forms of a Bash specifier: \<^verbatim>\<open>prefix:*\<close> covers the prefix and the
  prefix followed by a space; a glob covers the commands that split into one piece per
  item, where neither \<^verbatim>\<open>*\<close> nor \<^verbatim>\<open>?\<close> reaches over a line feed; anything else
  covers itself.
\<close>

theorem bash_spec_meaning:
  "match_bash_spec spec cmd \<longleftrightarrow>
     (if has_suffix spec '':*''
      then \<exists>prefix. spec = prefix @ '':*'' \<and> (cmd = prefix \<or> (\<exists>rest. cmd = prefix @ '' '' @ rest))
      else if contains_any spec ''*?'' then in_glob (command_glob_items spec) (runes cmd)
      else cmd = spec)"
  by (auto simp: match_bash_spec_def Let_def glob_match_in_glob has_prefix_iff dest: has_suffix_iff [THEN iffD1])

text \<open>
  A glob rule of one line covers no command of several lines: a line feed in the
  command takes it out of reach of every such deny, ask or allow rule.
\<close>

theorem glob_rule_single_line:
  assumes "r_tool r = ''Bash''" and "\<not> r_literal r" and "contains_any (trim_space (r_spec r)) ''*?''"
    and "\<not> has_suffix (trim_space (r_spec r)) '':*''"
    and "nl \<notin> set (r_spec r)" and "nl \<in> set (trim_space (tc_command call))"
  shows "\<not> rule_matches dm e r call"
proof
  assume m: "rule_matches dm e r call"
  let ?s = "trim_space (r_spec r)" and ?c = "trim_space (tc_command call)"
  have ne: "?s \<noteq> []" using assms(3) by (auto simp: contains_any_def)
  from m assms(1-4) ne have "in_glob (command_glob_items ?s) (runes ?c)"
    by (auto simp: rule_matches_def Let_def match_bash_spec_def glob_match_in_glob split: if_splits)
  moreover have "newline_rune \<in> set (runes ?c)" using runes_ascii [OF assms(6)] by simp
  ultimately have "Lit newline_rune \<in> set (command_glob_items ?s)" by (rule in_glob_newline)
  then have "newline_rune \<in> set (runes ?s)" by (auto simp: command_glob_items_def split: if_splits)
  then have "nl \<in> set ?s" using runes_ascii_char [of nl ?s] by simp
  with assms(5) trim_space_infix [of "r_spec r"] show False by (metis Un_iff set_append)
qed

section \<open>Directory rules\<close>

lemma match_target_literal:
  assumes "normal cs" and "cs \<noteq> []" and "normal ts" and "\<not> has_glob_chars (join_with ''/'' cs)"
    and "dm (join_with ''/'' cs) (join_with ''/'' ts) = Some (join_with ''/'' cs = join_with ''/'' ts)"
  shows "match_target dm (join_with ''/'' cs) (join_with ''/'' ts) \<longleftrightarrow> prefix cs ts"
proof -
  have "\<not> has_suffix (join_with ''/'' cs) ''/''"
    using normal_join_last [OF assms(1,2)] by (auto simp: has_suffix_iff)
  moreover have "join_with ''/'' cs \<noteq> []" using normal_join_last [OF assms(1,2)] by simp
  ultimately show ?thesis
    using assms(4,5) under_join [OF assms(1-3)] by (auto simp: match_target_def trim_suffix_def)
qed

lemma match_target_literal_abs:
  assumes "normal cs" and "cs \<noteq> []" and "normal ts" and "\<not> has_glob_chars (abs_path cs)"
    and "dm (abs_path cs) (abs_path ts) = Some (abs_path cs = abs_path ts)"
  shows "match_target dm (abs_path cs) (abs_path ts) \<longleftrightarrow> prefix cs ts"
proof -
  have "\<not> has_suffix (abs_path cs) ''/''" using assms(1,2) by (simp add: abs_path_suffix_slash)
  then show ?thesis
    using assms(4,5) pathWithin_abs_path [OF assms(3,1)]
    by (auto simp: match_target_def trim_suffix_def pathWithin_def Let_def split: if_splits)
qed

lemma abs_path_not_home: "abs_path cs \<noteq> ''~'' \<and> \<not> has_prefix (abs_path cs) ''~/''"
  by (simp add: abs_path_def)

lemma abs_path_not_double: "normal cs \<Longrightarrow> \<not> has_prefix (abs_path cs) ''//''"
  by (cases cs rule: remdups_adj.cases) (auto simp: abs_path_def normal_comp_def has_prefix_iff Cons_eq_append_conv neq_Nil_conv)

text \<open>
  A path specifier without metacharacters names a directory: \<^verbatim>\<open>/work/src\<close>
  covers exactly that path and the paths below it, component by component, so
  \<^verbatim>\<open>/work/src2\<close> is not covered. The glob library is assumed to match such a
  pattern by equality.
\<close>

theorem dir_rule_subtree:
  assumes "normal cs" and "cs \<noteq> []" and "trim_space (abs_path cs) = abs_path cs"
    and "\<not> has_glob_chars (abs_path cs)" and "is_abs p"
    and "\<And>t. dm (abs_path cs) t = Some (abs_path cs = t)"
  shows "match_path_spec dm e (abs_path cs) p \<longleftrightarrow> prefix cs (clean_comps True p)"
  using assms match_target_literal_abs [of cs "clean_comps True p" dm]
  by (simp add: match_path_spec_def expand_home_def abs_path_not_home abs_path_not_double
      path_clean_abs clean_comps_normal Let_def)

text \<open>
  A relative specifier without metacharacters is anchored at the workspace root and
  covers the subtree below it; a path outside the workspace matches no relative rule.
\<close>

theorem relative_rule_subtree:
  assumes "e_root e = abs_path rs" and "normal rs" and "normal cs" and "cs \<noteq> []"
    and "trim_space (join_with ''/'' cs) = join_with ''/'' cs" and "hd cs \<noteq> ''~''"
    and "\<not> has_glob_chars (join_with ''/'' cs)" and "is_abs p"
    and "\<And>t. dm (join_with ''/'' cs) t = Some (join_with ''/'' cs = t)"
  shows "match_path_spec dm e (join_with ''/'' cs) p \<longleftrightarrow> prefix (rs @ cs) (clean_comps True p)"
proof -
  let ?ps = "clean_comps True p" and ?s = "join_with ''/'' cs"
  have ps: "normal ?ps" by (rule clean_comps_normal)
  obtain c cs' where c: "cs = c # cs'" using assms(4) by (cases cs) auto
  with assms(3) have cn: "c \<noteq> []" "slash \<notin> set c" by (auto simp: normal_comp_def)
  have s: "?s \<noteq> []" "?s \<noteq> ''~''" "\<not> is_abs ?s" "\<not> has_prefix ?s ''~/''" "\<not> has_prefix ?s ''//''"
    using cn assms(6) unfolding c is_abs_def
    by (cases cs'; cases c; force simp: has_prefix_iff append_eq_Cons_conv Cons_eq_append_conv)+
  have m: "match_path_spec dm e ?s p =
      (case path_rel (abs_path rs) (abs_path ?ps) of None \<Rightarrow> False
       | Some rel \<Rightarrow> if rel = ''..'' \<or> has_prefix rel ''../'' then False else match_target dm ?s rel)"
    using assms(1,5,8) s by (simp add: match_path_spec_def expand_home_def Let_def path_clean_abs)
  show ?thesis
  proof (cases "prefix rs ?ps")
    case False
    with path_rel_outside [OF assms(2) ps False] m show ?thesis
      by (auto simp: append_prefixD)
  next
    case True
    then obtain ds where ds: "?ps = rs @ ds" by (rule prefixE)
    then have n: "normal ds" using ps by simp
    show ?thesis
    proof (cases "ds = []")
      case True
      have "?s \<noteq> ''.''" "\<not> has_prefix ''.'' (?s @ ''/'')"
        using c cn assms(3) by (cases cs'; cases c; force simp: normal_comp_def has_prefix_iff)+
      moreover have "\<not> has_suffix ?s ''/''" using normal_join_last [OF assms(3,4)] by (auto simp: has_suffix_iff)
      ultimately show ?thesis
        using True ds m path_rel_below [of rs ds] ps s(1) assms(4,7,9)
        by (simp add: match_target_def trim_suffix_def) 
    next
      case False
      then obtain d ds' where d: "ds = d # ds'" by (cases ds) auto
      have "join_with ''/'' ds \<noteq> ''..'' \<and> \<not> has_prefix (join_with ''/'' ds) ''../''"
        using n unfolding d normal_comp_def
        by (cases ds'; cases d; force simp: has_prefix_iff append_eq_Cons_conv Cons_eq_append_conv)
      then show ?thesis
        using False ds m path_rel_below [of rs ds] ps match_target_literal [OF assms(3,4) n assms(7)] assms(9)
        by simp
    qed
  qed
qed

text \<open>
  The root directory is the exception: \<^verbatim>\<open>Tool(/)\<close> covers the path
  \<^verbatim>\<open>/\<close> alone and nothing below it, for a deny rule as for an allow rule.
\<close>

theorem root_rule_covers_root_only:
  assumes "is_abs p" and "\<And>t. dm ''/'' t = Some (''/'' = t)"
  shows "match_path_spec dm e ''/'' p \<longleftrightarrow> path_clean p = ''/''"
proof -
  have "normal (clean_comps True p)" by (rule clean_comps_normal)
  then have "\<not> has_prefix (path_clean p) ''//''"
    using assms(1) by (simp add: path_clean_abs abs_path_not_double)
  moreover have "trim_space ''/'' = ''/''" by (simp add: trim_space_solid_one)
  ultimately show ?thesis
    using assms by (auto simp: match_path_spec_def expand_home_def match_target_def trim_suffix_def
        has_suffix_def is_abs_def Let_def)
qed

end
