(* ===== verification/Policy_Order.thy ===== *)
theory Policy_Order
  imports Policy
begin

text \<open>
  Behaviours ordered by severity and modes by what they permit. The decision is monotone in
  the configuration: more deny and ask rules, fewer allow rules or grants and a lower mode
  never make it laxer. An engine that starts is well-typed.
\<close>

section \<open>The orders\<close>

instantiation behavior :: linorder
begin

definition severity :: "behavior \<Rightarrow> nat" where
  "severity b = (case b of Allow \<Rightarrow> 0 | Ask \<Rightarrow> 1 | Deny \<Rightarrow> 2)"

definition less_eq_behavior :: "behavior \<Rightarrow> behavior \<Rightarrow> bool" where
  "less_eq_behavior a b \<longleftrightarrow> severity a \<le> severity b"

definition less_behavior :: "behavior \<Rightarrow> behavior \<Rightarrow> bool" where
  "less_behavior a b \<longleftrightarrow> severity a < severity b"

instance
  by standard (auto simp: less_eq_behavior_def less_behavior_def severity_def split: behavior.splits)

end

instantiation mode :: linorder
begin

definition licence :: "mode \<Rightarrow> nat" where
  "licence m = (case m of ModeDefault \<Rightarrow> 0 | ModeAcceptEdits \<Rightarrow> 1 | ModeBypassPermissions \<Rightarrow> 2)"

definition less_eq_mode :: "mode \<Rightarrow> mode \<Rightarrow> bool" where
  "less_eq_mode a b \<longleftrightarrow> licence a \<le> licence b"

definition less_mode :: "mode \<Rightarrow> mode \<Rightarrow> bool" where
  "less_mode a b \<longleftrightarrow> licence a < licence b"

instance
  by standard (auto simp: less_eq_mode_def less_mode_def licence_def split: mode.splits)

end

lemma severity_order [simp]: "Allow \<le> b" "b \<le> Deny" "b \<le> Allow \<longleftrightarrow> b = Allow" "Deny \<le> b \<longleftrightarrow> b = Deny"
  by (cases b; simp add: less_eq_behavior_def severity_def)+

lemma mode_allows_mono: "m \<le> n \<Longrightarrow> mode_allows m tool \<Longrightarrow> mode_allows n tool"
  by (auto simp: mode_allows_def less_eq_mode_def licence_def split: mode.splits)

section \<open>Monotone decisions\<close>

text \<open>The same engine with other rules and another mode.\<close>

definition with_rules :: "engine \<Rightarrow> rule list \<Rightarrow> rule list \<Rightarrow> rule list \<Rightarrow> mode \<Rightarrow> engine" where
  "with_rules e deny ask allow m = e\<lparr>e_deny := deny, e_ask := ask, e_allow := allow, e_mode := m\<rparr>"

lemma with_rules_simps [simp]:
  "e_deny (with_rules e d a w m) = d" "e_ask (with_rules e d a w m) = a" "e_allow (with_rules e d a w m) = w"
  "e_mode (with_rules e d a w m) = m" "e_root (with_rules e d a w m) = e_root e" "e_home (with_rules e d a w m) = e_home e"
  "e_cred (with_rules e d a w m) = e_cred e"
  by (simp_all add: with_rules_def)

lemma match_with_rules [simp]: "match_path_spec dm (with_rules e d a w m) = match_path_spec dm e"
  by (intro ext) (simp add: match_path_spec_def expand_home_def match_target_def Let_def)

lemma rule_with_rules [simp]: "rule_matches dm (with_rules e d a w m) = rule_matches dm e"
  by (intro ext) (simp add: rule_matches_def Let_def)

lemma credential_with_rules [simp]: "is_credential_path dm (with_rules e d a w m) = is_credential_path dm e"
  by (intro ext) (simp add: is_credential_path_def)

lemma allowlisted_mono:
  "set w' \<subseteq> set w \<Longrightarrow> credential_allowlisted dm (with_rules e d' a' w' m') p \<Longrightarrow> credential_allowlisted dm (with_rules e d a w m) p"
  unfolding credential_allowlisted_def list_ex_iff with_rules_simps match_with_rules by blast

lemma escape_with_rules [simp]: "jail_escape ev (with_rules e d a w m) = jail_escape ev e"
  by (intro ext) (simp add: jail_escape_def)

lemma hit_with_rules:
  assumes "set w' \<subseteq> set w" and "hard_denied ev dm (with_rules e d a w m) call"
  shows "hard_denied ev dm (with_rules e d' a' w' m') call"
  using assms(2) allowlisted_mono [OF assms(1), of dm e d' a' m' _ d a m]
  unfolding hard_denied_def credential_hit_def Let_def escape_with_rules credential_with_rules by blast

lemma covers_with_rules [simp]: "covers dm (with_rules e d a w m) rs call = covers dm e rs call"
  by (simp add: covers_def)

lemma covers_mono: "set rs \<subseteq> set ss \<Longrightarrow> covers dm e rs call \<Longrightarrow> covers dm e ss call"
  by (auto simp: covers_def)

text \<open>
  C16. A stricter configuration is never laxer: with more deny and ask rules, fewer allow
  rules, fewer grants of the session and a mode that permits no more, every call is decided
  at least as severely, credential paths included.
\<close>

theorem stricter_config:
  assumes "set d \<subseteq> set d'" and "set a \<subseteq> set a'" and "set w' \<subseteq> set w" and "set ov' \<subseteq> set ov" and "m' \<le> m"
  shows "d_behavior (evaluate ev dm (with_rules e d a w m) call ov) \<le> d_behavior (evaluate ev dm (with_rules e d' a' w' m') call ov')"
proof -
  have "covers dm e d call \<Longrightarrow> covers dm e d' call" "covers dm e a call \<Longrightarrow> covers dm e a' call"
    "covers dm e (w' @ ov') call \<Longrightarrow> covers dm e (w @ ov) call"
    using assms(1-4) by (auto intro: covers_mono) (auto simp: covers_def)
  then show ?thesis
    unfolding evaluate_behavior policy_spec_def
    using hit_with_rules [OF assms(3), of ev dm e d a m call d' a' m'] mode_allows_mono [OF assms(5), of "tc_tool call"]
    by auto
qed

section \<open>Well-typed engines\<close>

definition rule_typed :: "behavior \<Rightarrow> rule \<Rightarrow> bool" where
  "rule_typed b r \<longleftrightarrow> r_behavior r = b \<and> r_tool r \<in> set valid_tools \<and> \<not> r_literal r"

definition engine_typed :: "engine \<Rightarrow> bool" where
  "engine_typed e \<longleftrightarrow> list_all (rule_typed Deny) (e_deny e) \<and> list_all (rule_typed Ask) (e_ask e)
     \<and> list_all (rule_typed Allow) (e_allow e) \<and> e_cred e = credential_patterns (e_home e)"

lemma parse_rule_typed: "parse_rule raw b = Inr r \<Longrightarrow> rule_typed b r"
  by (auto simp: parse_rule_def check_tool_def rule_typed_def Let_def split: option.splits if_splits)

lemma parse_rules_typed: "parse_rules raws b = Inr rs \<Longrightarrow> list_all (rule_typed b) rs"
  by (induction raws arbitrary: rs) (auto split: sum.splits dest: parse_rule_typed)

text \<open>
  C40. An engine that starts is well-typed: every rule is in the list of its own behaviour, names
  a known tool and is no literal grant, and the mode is the one that was named.
\<close>

theorem engine_starts_typed:
  assumes "new_engine ev wd home cfg m workspace = Inr e"
  shows "engine_typed e \<and> mode_string (e_mode e) = m \<and> length (e_deny e) = length (cfg_deny cfg)
    \<and> length (e_ask e) = length (cfg_ask cfg) \<and> length (e_allow e) = length (cfg_allow cfg)"
proof -
  have len: "parse_rules raws b = Inr rs \<Longrightarrow> length rs = length raws" for raws b rs
    by (induction raws arbitrary: rs) (auto split: sum.splits)
  have mode: "parse_mode m = Some md \<Longrightarrow> mode_string md = m" for md by (auto simp: parse_mode_def split: if_splits)
  show ?thesis
    using assms
    by (auto simp: new_engine_def engine_typed_def Let_def mode len dest: parse_rules_typed split: option.splits sum.splits)
qed

end
