(* ===== verification/Policy_Examples.thy ===== *)
theory Policy_Examples
  imports Policy_Order
begin

text \<open>
  The theorems of \<^verbatim>\<open>Policy\<close> at concrete engines and calls, evaluated.
\<close>

section \<open>Concrete instances\<close>

text \<open>
  A machine without symbolic links whose \<^verbatim>\<open>/work\<close> exists, a glob library that
  knows literal patterns only, and an engine over them.
\<close>

definition demo_ev :: "string \<Rightarrow> string option" where
  "demo_ev p = (if p \<in> {''/'', ''/work''} then Some p else None)"

definition demo_dm :: "string \<Rightarrow> string \<Rightarrow> bool option" where
  "demo_dm pat t = Some (pat = t)"

definition demo_rule :: "string \<Rightarrow> string \<Rightarrow> behavior \<Rightarrow> rule" where
  "demo_rule tool spec b = \<lparr>r_raw = tool, r_tool = tool, r_spec = spec, r_behavior = b, r_literal = False\<rparr>"

definition demo_engine :: engine where
  "demo_engine = \<lparr>e_cfg = \<lparr>cfg_allow = [], cfg_ask = [], cfg_deny = []\<rparr>, e_mode = ModeDefault,
     e_root = ''/work'', e_deny = [demo_rule ''Bash'' ''rm:*'' Deny], e_ask = [], e_allow = [],
     e_home = ''/home/u'', e_cred = credential_patterns ''/home/u''\<rparr>"

definition bash_call :: "string \<Rightarrow> tool_call" where
  "bash_call cmd = \<lparr>tc_tool = ''Bash'', tc_command = cmd, tc_paths = []\<rparr>"

definition read_call :: "string \<Rightarrow> tool_call" where
  "read_call p = \<lparr>tc_tool = ''Read'', tc_command = [], tc_paths = [p]\<rparr>"

lemma jail_safety_witness:
  "pathWithin (real_path demo_ev (path_clean ''/work/x/../a'')) (e_root demo_engine)"
  by (rule jail_safety [of demo_ev demo_dm demo_engine "read_call ''/work/x/../a''" "[]"]) code_simp+

lemma ssh_denied_witness:
  "d_behavior (evaluate demo_ev demo_dm (demo_engine\<lparr>e_mode := ModeBypassPermissions\<rparr>)
     (read_call ''/work/.ssh/id'') []) = Deny"
proof (rule ssh_denied [of "''/work/.ssh/id''"])
  show "''.ssh'' \<in> set (butlast (clean_comps True ''/work/.ssh/id'')) \<or>
      (\<exists>cs. normal cs \<and> real_path demo_ev (path_clean ''/work/.ssh/id'') = abs_path cs \<and> ''.ssh'' \<in> set (butlast cs))"
    by (rule disjI1) code_simp
qed code_simp+


lemma blank_approval_allows_tool_witness:
  "d_behavior (evaluate demo_ev demo_dm demo_engine (bash_call ''curl evil'')
     (add_allow ''Bash'' ''  '' [])) = Allow"
  by (rule blank_approval_allows_tool) code_simp+

lemma glob_rule_single_line_witness:
  "\<not> rule_matches demo_dm demo_engine (demo_rule ''Bash'' ''rm *'' Deny) (bash_call (''rm -rf /'' @ [nl] @ ''true''))"
  by (rule glob_rule_single_line) code_simp+

lemma dir_rule_subtree_witness:
  "match_path_spec demo_dm demo_engine (abs_path [''work'', ''src'']) ''/work/src/a/../b.go''
   \<and> \<not> match_path_spec demo_dm demo_engine (abs_path [''work'', ''src'']) ''/work/src2/b.go''"
proof -
  have h: "normal [''work'', ''src'']" "trim_space (abs_path [''work'', ''src'']) = abs_path [''work'', ''src'']"
    "\<not> has_glob_chars (abs_path [''work'', ''src''])" "is_abs ''/work/src/a/../b.go''" "is_abs ''/work/src2/b.go''"
    "prefix [''work'', ''src''] (clean_comps True ''/work/src/a/../b.go'')"
    "\<not> prefix [''work'', ''src''] (clean_comps True ''/work/src2/b.go'')"
    by code_simp+
  note d = dir_rule_subtree [OF h(1) _ h(2,3), of _ demo_dm demo_engine]
  show ?thesis using d [OF _ h(4)] d [OF _ h(5)] h(6,7) by (simp add: demo_dm_def)
qed

lemma relative_rule_subtree_witness:
  "match_path_spec demo_dm demo_engine (join_with ''/'' [''src'', ''a'']) ''/work/src/a/b.go''"
proof -
  have h: "e_root demo_engine = abs_path [''work'']" "normal [''work'']" "normal [''src'', ''a'']"
    "trim_space (join_with ''/'' [''src'', ''a'']) = join_with ''/'' [''src'', ''a'']"
    "\<not> has_glob_chars (join_with ''/'' [''src'', ''a''])" "is_abs ''/work/src/a/b.go''"
    "prefix ([''work''] @ [''src'', ''a'']) (clean_comps True ''/work/src/a/b.go'')"
    by code_simp+
  show ?thesis
    using relative_rule_subtree [OF h(1-3) _ h(4) _ h(5,6), of demo_dm] h(7) by (simp add: demo_dm_def)
qed

lemma root_rule_covers_root_only_witness:
  "\<not> match_path_spec demo_dm demo_engine ''/'' ''/etc/passwd''"
proof -
  have h: "is_abs ''/etc/passwd''" "path_clean ''/etc/passwd'' \<noteq> ''/''" by code_simp+
  show ?thesis using root_rule_covers_root_only [OF h(1), of demo_dm demo_engine] h(2) by (simp add: demo_dm_def)
qed

lemma stricter_config_witness:
  "d_behavior (evaluate demo_ev demo_dm (with_rules demo_engine [] [] [] ModeBypassPermissions) (bash_call ''ls'') []) = Allow
   \<and> Allow \<le> d_behavior (evaluate demo_ev demo_dm (with_rules demo_engine [] [demo_rule ''Bash'' ''ls'' Ask] [] ModeDefault) (bash_call ''ls'') [])"
proof -
  have a: "d_behavior (evaluate demo_ev demo_dm (with_rules demo_engine [] [] [] ModeBypassPermissions) (bash_call ''ls'') []) = Allow"
    by code_simp
  have "set [] \<subseteq> set []" "set [] \<subseteq> set [demo_rule ''Bash'' ''ls'' Ask]" "ModeDefault \<le> ModeBypassPermissions"
    by (simp_all add: less_eq_mode_def licence_def)
  from stricter_config [OF this(1,2,1,1,3), of demo_ev demo_dm demo_engine "bash_call ''ls''"] a show ?thesis by simp
qed

lemma engine_starts_typed_witness:
  "\<exists>e. new_engine demo_ev None None \<lparr>cfg_allow = [], cfg_ask = [], cfg_deny = [''Bash(rm:*)'']\<rparr> ''acceptEdits'' ''/work'' = Inr e
     \<and> engine_typed e \<and> e_mode e = ModeAcceptEdits"
proof -
  have "case new_engine demo_ev None None \<lparr>cfg_allow = [], cfg_ask = [], cfg_deny = [''Bash(rm:*)'']\<rparr> ''acceptEdits'' ''/work'' of
      Inl x \<Rightarrow> False | Inr e \<Rightarrow> e_mode e = ModeAcceptEdits" by code_simp
  then obtain e where e: "new_engine demo_ev None None \<lparr>cfg_allow = [], cfg_ask = [], cfg_deny = [''Bash(rm:*)'']\<rparr> ''acceptEdits'' ''/work'' = Inr e"
    "e_mode e = ModeAcceptEdits" by (auto split: sum.splits)
  with engine_starts_typed [OF e(1)] show ?thesis by auto
qed

end
