(* ===== verification/Interfaces.thy ===== *)
theory Interfaces
  imports Boxel_Prelude "HOL-Library.Finite_Map" "HOL-Library.List_Lexorder" "HOL-Library.Char_ord"
begin

text \<open>
  The interfaces the components share: tables keyed by name, tables whose entries
  expire, and event-driven systems with an invariant. Each is a locale with the laws
  its clients rely on; the components interpret them on their own operations.
\<close>

section \<open>Keyed tables\<close>

locale keyed_store =
  fixes get :: "'t \<Rightarrow> 'k \<Rightarrow> 'v option" and put :: "'k \<Rightarrow> 'v \<Rightarrow> 't \<Rightarrow> 't"
  assumes get_put: "get (put k v t) j = (if j = k then Some v else get t j)"
begin

definition change :: "('v \<Rightarrow> 'v) \<Rightarrow> 'k \<Rightarrow> 't \<Rightarrow> 't" where
  "change f k t = (case get t k of None \<Rightarrow> t | Some v \<Rightarrow> put k (f v) t)"

lemma get_put_same: "get (put k v t) k = Some v"
  by (simp add: get_put)

lemma get_put_other: "j \<noteq> k \<Longrightarrow> get (put k v t) j = get t j"
  by (simp add: get_put)

lemma put_put: "get (put k w (put k v t)) = get (put k w t)"
  by (rule ext) (simp add: get_put)

lemma put_swap: "j \<noteq> k \<Longrightarrow> get (put k v (put j w t)) = get (put j w (put k v t))"
  by (rule ext) (simp add: get_put)

lemma put_dom: "{j. get (put k v t) j \<noteq> None} = insert k {j. get t j \<noteq> None}"
  by (auto simp: get_put)

lemma get_change: "get (change f k t) j = (if j = k then map_option f (get t k) else get t j)"
  by (auto simp: change_def get_put split: option.splits)

text \<open>Changing every entry of a list of keys changes each of them once if they are distinct.\<close>

lemma get_fold_change:
  "distinct ks \<Longrightarrow> get (fold (change f) ks t) j = (if j \<in> set ks then map_option f (get t j) else get t j)"
  by (induction ks arbitrary: t) (auto simp: get_change)

end

locale keyed_table = keyed_store get put
  for get :: "'t \<Rightarrow> 'k \<Rightarrow> 'v option" and put :: "'k \<Rightarrow> 'v \<Rightarrow> 't \<Rightarrow> 't" +
  fixes del :: "'k \<Rightarrow> 't \<Rightarrow> 't"
  assumes get_del: "get (del k t) j = (if j = k then None else get t j)"
begin

lemma del_put: "get t k = None \<Longrightarrow> get (del k (put k v t)) = get t"
  by (rule ext) (simp add: get_put get_del)

lemma del_dom: "{j. get (del k t) j \<noteq> None} = {j. get t j \<noteq> None} - {k}"
  by (auto simp: get_del)

end

text \<open>A table that can drop every entry failing a test, as the expiry loops do.\<close>

locale expiring_table = keyed_table get put del
  for get :: "'t \<Rightarrow> 'k \<Rightarrow> 'v option" and put :: "'k \<Rightarrow> 'v \<Rightarrow> 't \<Rightarrow> 't" and del :: "'k \<Rightarrow> 't \<Rightarrow> 't" +
  fixes prune :: "('v \<Rightarrow> bool) \<Rightarrow> 't \<Rightarrow> 't"
  assumes get_prune: "get (prune keep t) k =
    (case get t k of None \<Rightarrow> None | Some v \<Rightarrow> if keep v then Some v else None)"
begin

lemma prune_kept: "get (prune keep t) k = Some v \<Longrightarrow> get t k = Some v \<and> keep v"
  by (auto simp: get_prune split: option.splits if_splits)

lemma prune_keeps: "get t k = Some v \<Longrightarrow> keep v \<Longrightarrow> get (prune keep t) k = Some v"
  by (simp add: get_prune)

lemma prune_drops: "get t k = Some v \<Longrightarrow> \<not> keep v \<Longrightarrow> get (prune keep t) k = None"
  by (simp add: get_prune)

lemma prune_idem: "get (prune keep (prune keep t)) = get (prune keep t)"
  by (rule ext) (auto simp: get_prune split: option.splits)

lemma prune_put: "keep v \<Longrightarrow> get (prune keep (put k v t)) k = Some v"
  by (simp add: get_prune get_put)

end

text \<open>Finite maps provide both; the expiry loop is a filter on the entries.\<close>

definition fm_prune :: "('v \<Rightarrow> bool) \<Rightarrow> ('k, 'v) fmap \<Rightarrow> ('k, 'v) fmap" where
  "fm_prune keep m = fmfilter (\<lambda>k. case fmlookup m k of None \<Rightarrow> False | Some v \<Rightarrow> keep v) m"

lemma fmlookup_prune [simp]: "fmlookup (fm_prune keep m) k =
    (case fmlookup m k of None \<Rightarrow> None | Some v \<Rightarrow> if keep v then Some v else None)"
  by (simp add: fm_prune_def split: option.splits)

interpretation fm: expiring_table fmlookup fmupd fmdrop fm_prune
  by unfold_locales auto

text \<open>The entries of a finite map with string keys, by key.\<close>

definition fm_keys :: "(string, 'v) fmap \<Rightarrow> string list" where
  "fm_keys m = sorted_list_of_fset (fmdom m)"

definition fm_values :: "(string, 'v) fmap \<Rightarrow> 'v list" where
  "fm_values m = map (\<lambda>k. the (fmlookup m k)) (fm_keys m)"

lemma set_fm_keys: "k \<in> set (fm_keys m) \<longleftrightarrow> fmlookup m k \<noteq> None"
  by (auto simp: fm_keys_def fmlookup_dom_iff)

lemma distinct_fm_keys [simp]: "distinct (fm_keys m)"
  by (simp add: fm_keys_def sorted_list_of_fset.rep_eq)

lemma sorted_fm_keys [simp]: "sorted (fm_keys m)"
  by (simp add: fm_keys_def sorted_list_of_fset.rep_eq)

lemma set_fm_values: "v \<in> set (fm_values m) \<longleftrightarrow> (\<exists>k. fmlookup m k = Some v)"
  by (force simp: fm_values_def set_fm_keys image_iff)

lemma fm_keys_cong: "(\<And>k. fmlookup m k = None \<longleftrightarrow> fmlookup n k = None) \<Longrightarrow> fm_keys m = fm_keys n"
  unfolding fm_keys_def
  by (rule arg_cong [of _ _ sorted_list_of_fset], rule fset_eqI) (metis fmdom_notD fmdom_notI)

section \<open>Event-driven systems\<close>

inductive run :: "('s \<Rightarrow> 'e \<Rightarrow> 's \<Rightarrow> bool) \<Rightarrow> 's \<Rightarrow> 'e list \<Rightarrow> 's \<Rightarrow> bool" for step where
  run_Nil: "run step s [] s"
| run_snoc: "run step s es t \<Longrightarrow> step t e u \<Longrightarrow> run step s (es @ [e]) u"

inductive_cases run_NilE: "run step s [] t"

lemma run_NilD: "run step s [] t \<Longrightarrow> t = s"
  by (auto elim: run.cases)

lemma run_append: "run step t fs u \<Longrightarrow> run step s es t \<Longrightarrow> run step s (es @ fs) u"
  by (induction rule: run.induct) (auto simp: append_assoc [symmetric] simp del: append_assoc intro: run.intros)

lemma run_one: "step s e t \<Longrightarrow> run step s [e] t"
  using run_snoc [OF run_Nil, of step s e t] by simp

lemma run_Cons: "step s e t \<Longrightarrow> run step t es u \<Longrightarrow> run step s (e # es) u"
  using run_append [OF _ run_one, of step t es u s e] by simp

locale invariant_system =
  fixes init :: "'s \<Rightarrow> bool" and step :: "'s \<Rightarrow> 'e \<Rightarrow> 's \<Rightarrow> bool" and inv :: "'s \<Rightarrow> bool"
  assumes init_inv: "init s \<Longrightarrow> inv s"
    and step_inv: "inv s \<Longrightarrow> step s e t \<Longrightarrow> inv t"
begin

lemma run_inv: "run step s es t \<Longrightarrow> inv s \<Longrightarrow> inv t"
  by (induction rule: run.induct) (auto intro: step_inv)

lemma reach_inv: "init s \<Longrightarrow> run step s es t \<Longrightarrow> inv t"
  by (blast intro: run_inv init_inv)

end

end
