(* ===== verification/Shellmgr.thy ===== *)
theory Shellmgr
  imports Interfaces Go_Strings
begin

text \<open>
  Background and foreground shells, \<^verbatim>\<open>internal/shellmgr\<close>. A shell is a state machine
  driven by its process (output, exit), by \<^verbatim>\<open>Kill\<close> and its timer, and by the
  reader. \<open>rc\<close> is \<^verbatim>\<open>regexp.Compile\<close>: \<^const>\<open>None\<close> for a bad expression,
  otherwise \<^verbatim>\<open>MatchString\<close>.
\<close>

section \<open>Data\<close>

datatype status = Running | Completed | Failed | Killed | TimedOut

fun status_string :: "status \<Rightarrow> string" where
  "status_string Running = ''running''"
| "status_string Completed = ''completed''"
| "status_string Failed = ''failed''"
| "status_string Killed = ''killed''"
| "status_string TimedOut = ''timed_out''"

text \<open>
  \<open>sh_signaled\<close> records that the process group was sent SIGKILL.
\<close>

record shell =
  sh_id :: string
  sh_command :: string
  sh_stdout :: string
  sh_stderr :: string
  sh_out_off :: nat
  sh_err_off :: nat
  sh_status :: status
  sh_exit :: int
  sh_done :: bool
  sh_signaled :: bool

record shell_table =
  tb_counter :: nat
  tb_shells :: "(string, shell) fmap"

section \<open>One shell\<close>

definition new_shell :: "string \<Rightarrow> string \<Rightarrow> shell" where
  "new_shell i cmd = \<lparr>sh_id = i, sh_command = cmd, sh_stdout = [], sh_stderr = [], sh_out_off = 0,
     sh_err_off = 0, sh_status = Running, sh_exit = 0, sh_done = False, sh_signaled = False\<rparr>"

definition write_out :: "string \<Rightarrow> shell \<Rightarrow> shell" where
  "write_out p s = s\<lparr>sh_stdout := sh_stdout s @ p\<rparr>"

definition write_err :: "string \<Rightarrow> shell \<Rightarrow> shell" where
  "write_err p s = s\<lparr>sh_stderr := sh_stderr s @ p\<rparr>"

definition kill_shell :: "status \<Rightarrow> shell \<Rightarrow> shell" where
  "kill_shell st s = (if sh_status s \<noteq> Running then s else s\<lparr>sh_status := st, sh_signaled := True\<rparr>)"

text \<open>The goroutine of \<^verbatim>\<open>Start\<close> once \<^verbatim>\<open>Wait\<close> returns.\<close>

definition shell_exited :: "int \<Rightarrow> shell \<Rightarrow> shell" where
  "shell_exited code s =
     s\<lparr>sh_done := True, sh_exit := code,
       sh_status := (if sh_status s = Running then (if code = 0 then Completed else Failed) else sh_status s)\<rparr>"

definition filter_lines :: "(string \<Rightarrow> bool) \<Rightarrow> string \<Rightarrow> string" where
  "filter_lines re s =
     (if s = [] then []
      else concat (map (\<lambda>l. l @ [nl]) (filter re (split_char nl (trim_suffix s [nl])))))"

definition drain :: "shell \<Rightarrow> shell" where
  "drain s = s\<lparr>sh_out_off := length (sh_stdout s), sh_err_off := length (sh_stderr s)\<rparr>"

definition read_new :: "(string \<Rightarrow> (string \<Rightarrow> bool) option) \<Rightarrow> string \<Rightarrow> shell \<Rightarrow> (string \<times> string) option \<times> shell" where
  "read_new rc flt s =
     (let newOut = drop (sh_out_off s) (sh_stdout s); newErr = drop (sh_err_off s) (sh_stderr s)
      in if flt = [] then (Some (newOut, newErr), drain s)
         else case rc flt of None \<Rightarrow> (None, s)
              | Some re \<Rightarrow> (Some (filter_lines re newOut, filter_lines re newErr), drain s))"

section \<open>The table\<close>

definition new_table :: shell_table where
  "new_table = \<lparr>tb_counter = 0, tb_shells = fmempty\<rparr>"

definition shell_id :: "nat \<Rightarrow> string" where
  "shell_id n = ''bash_'' @ dec n"

definition get_shell :: "shell_table \<Rightarrow> string \<Rightarrow> shell option" where
  "get_shell t i = fmlookup (tb_shells t) i"

definition put_shell :: "string \<Rightarrow> shell \<Rightarrow> shell_table \<Rightarrow> shell_table" where
  "put_shell i s t = t\<lparr>tb_shells := fmupd i s (tb_shells t)\<rparr>"

text \<open>\<open>launch\<close> is the outcome of \<^verbatim>\<open>cmd.Start\<close>: \<^term>\<open>Some e\<close> is its error.\<close>

definition start_shell :: "string option \<Rightarrow> string \<Rightarrow> shell_table \<Rightarrow> (string + string) \<times> shell_table" where
  "start_shell launch cmd t =
     (case launch of Some e \<Rightarrow> (Inl e, t)
      | None \<Rightarrow>
          let n = Suc (tb_counter t); i = shell_id n
          in (Inr i, put_shell i (new_shell i cmd) (t\<lparr>tb_counter := n\<rparr>)))"

definition numeric_id :: "string \<Rightarrow> int" where
  "numeric_id i = atoi (trim_prefix i ''bash_'')"

definition list_shells :: "shell_table \<Rightarrow> shell list" where
  "list_shells t = sort_key (\<lambda>s. numeric_id (sh_id s)) (fm_values (tb_shells t))"

definition modify_shell :: "(shell \<Rightarrow> shell) \<Rightarrow> string \<Rightarrow> shell_table \<Rightarrow> shell_table" where
  "modify_shell f i t = (case get_shell t i of None \<Rightarrow> t | Some s \<Rightarrow> put_shell i (f s) t)"

definition table_kill :: "string \<Rightarrow> shell_table \<Rightarrow> string option \<times> shell_table" where
  "table_kill i t =
     (case get_shell t i of None \<Rightarrow> (Some (''no shell with ID '' @ i), t)
      | Some s \<Rightarrow> (None, modify_shell (kill_shell Killed) i t))"

definition kill_all :: "shell_table \<Rightarrow> shell_table" where
  "kill_all t = fold (\<lambda>s. modify_shell (kill_shell Killed) (sh_id s)) (list_shells t) t"

definition active_count :: "shell_table \<Rightarrow> nat" where
  "active_count t = length (filter (\<lambda>s. sh_status s = Running) (fm_values (tb_shells t)))"

section \<open>Foreground runs\<close>

definition replace_all_quote :: "string \<Rightarrow> string" where
  "replace_all_quote s = str_replace s [CHR 0x27] [CHR 0x27, CHR 0x5C, CHR 0x27, CHR 0x27] (- 1)"

definition shell_quote :: "string \<Rightarrow> string" where
  "shell_quote s = [CHR 0x27] @ replace_all_quote s @ [CHR 0x27]"

definition wrapped_command :: "string \<Rightarrow> string \<Rightarrow> string" where
  "wrapped_command cmd tmp =
     cmd @ [nl] @ ''__boxel_ec=$?'' @ [nl] @ ''builtin pwd > '' @ shell_quote tmp
       @ '' 2>/dev/null'' @ [nl] @ ''exit $__boxel_ec''"

record fg_result =
  fg_stdout :: string
  fg_stderr :: string
  fg_exit :: int
  fg_new_cwd :: string
  fg_timed_out :: bool

text \<open>
  What ends a foreground run: its timer, the cancellation of the call's context, or the
  process itself, with the error of \<^verbatim>\<open>Wait\<close> that is not an exit status.
\<close>

datatype fg_end = TimerFired | Cancelled | Exited "string option"

record fg_process =
  fp_start_err :: "string option"
  fp_end :: fg_end
  fp_stdout :: string
  fp_stderr :: string
  fp_exit_code :: int
  fp_tmp_content :: "string option"

text \<open>
  \<open>tmp\<close> is the outcome of \<^verbatim>\<open>os.CreateTemp\<close>; \<open>world\<close> is how the system answers
  to a script run in a directory under an environment and a timeout, and what it is like
  afterwards.
\<close>

definition run_foreground ::
  "(string \<Rightarrow> string \<Rightarrow> string list \<Rightarrow> duration \<Rightarrow> fg_process \<times> 'w) \<Rightarrow> 'w \<Rightarrow> string + string \<Rightarrow> string \<Rightarrow> string \<Rightarrow> string list \<Rightarrow> duration
    \<Rightarrow> (string + fg_result) \<times> 'w" where
  "run_foreground world w tmp command dir env timeout =
     (case tmp of Inl e \<Rightarrow> (Inl (''shellmgr: create cwd file: '' @ e), w)
      | Inr tmpPath \<Rightarrow>
     (case world (wrapped_command command tmpPath) dir env timeout of (p, w') \<Rightarrow>
     (case fp_start_err p of Some e \<Rightarrow> (Inl e, w')
      | None \<Rightarrow>
     (case fp_end p of Exited (Some e) \<Rightarrow> (Inl e, w')
      | _ \<Rightarrow>
         let timed = (fp_end p = TimerFired)
         in (Inr \<lparr>fg_stdout = fp_stdout p, fg_stderr = fp_stderr p,
                  fg_exit = (if timed then -1 else fp_exit_code p),
                  fg_new_cwd = (case fp_tmp_content p of None \<Rightarrow> [] | Some b \<Rightarrow> trim_space b),
                  fg_timed_out = timed\<rparr>, w')))))"

section \<open>The life of a shell\<close>

datatype shell_event =
    WroteOut string | WroteErr string
  | KillEv status
  | ExitEv int
  | ReadEv string "(string \<times> string) option"

text \<open>
  Output and the exit come from the process, so not after \<^verbatim>\<open>Wait\<close> has returned; a
  kill (by \<^verbatim>\<open>Kill\<close> or the timer) and a read can come at any time.
\<close>

inductive shell_step :: "(string \<Rightarrow> (string \<Rightarrow> bool) option) \<Rightarrow> shell \<Rightarrow> shell_event \<Rightarrow> shell \<Rightarrow> bool" for rc where
  step_out: "\<not> sh_done s \<Longrightarrow> shell_step rc s (WroteOut p) (write_out p s)"
| step_err: "\<not> sh_done s \<Longrightarrow> shell_step rc s (WroteErr p) (write_err p s)"
| step_kill: "st \<in> {Killed, TimedOut} \<Longrightarrow> shell_step rc s (KillEv st) (kill_shell st s)"
| step_exit: "\<not> sh_done s \<Longrightarrow> shell_step rc s (ExitEv code) (shell_exited code s)"
| step_read: "read_new rc f s = (r, t) \<Longrightarrow> shell_step rc s (ReadEv f r) t"

inductive_cases shell_stepE: "shell_step rc s e t"
inductive_simps read_step: "shell_step rc s (ReadEv f r) t"

text \<open>
  The invariant: a finished shell has left the running state, a shell that completed or
  failed finished with the matching exit code, the kill states and only they carry a
  SIGKILL, and the read offsets stay inside the buffers.
\<close>

definition shell_inv :: "shell \<Rightarrow> bool" where
  "shell_inv s =
     ((sh_done s \<longrightarrow> sh_status s \<noteq> Running)
      \<and> (sh_status s = Completed \<longrightarrow> sh_done s \<and> sh_exit s = 0)
      \<and> (sh_status s = Failed \<longrightarrow> sh_done s \<and> sh_exit s \<noteq> 0)
      \<and> (sh_signaled s \<longleftrightarrow> sh_status s \<in> {Killed, TimedOut})
      \<and> sh_out_off s \<le> length (sh_stdout s) \<and> sh_err_off s \<le> length (sh_stderr s))"

lemmas shell_ops = write_out_def write_err_def kill_shell_def shell_exited_def read_new_def drain_def

lemma new_shell_inv [inv_intros]: "shell_inv (new_shell i cmd)"
  by (simp add: shell_inv_def new_shell_def)

lemma write_out_inv [inv_intros]: "shell_inv s \<Longrightarrow> shell_inv (write_out p s)"
  by (auto simp: shell_inv_def shell_ops)

lemma write_err_inv [inv_intros]: "shell_inv s \<Longrightarrow> shell_inv (write_err p s)"
  by (auto simp: shell_inv_def shell_ops)

lemma kill_shell_inv [inv_intros]: "shell_inv s \<Longrightarrow> st \<in> {Killed, TimedOut} \<Longrightarrow> shell_inv (kill_shell st s)"
  by (auto simp: shell_inv_def shell_ops)

lemma shell_exited_inv [inv_intros]: "shell_inv s \<Longrightarrow> \<not> sh_done s \<Longrightarrow> shell_inv (shell_exited c s)"
  by (cases "sh_status s") (auto simp: shell_inv_def shell_ops)

lemma drain_inv [inv_intros]: "shell_inv s \<Longrightarrow> shell_inv (drain s)"
  by (auto simp: shell_inv_def shell_ops)

lemma read_new_state: "read_new rc f s = (r, t) \<Longrightarrow> t = s \<or> t = drain s"
  by (auto simp: read_new_def Let_def split: if_splits option.splits)

lemma shell_step_inv: "shell_inv s \<Longrightarrow> shell_step rc s e t \<Longrightarrow> shell_inv t"
  by (erule shell_stepE) (auto intro: inv_intros dest!: read_new_state)

interpretation sh: invariant_system "\<lambda>s. \<exists>i cmd. s = new_shell i cmd" "shell_step rc" shell_inv for rc
  by unfold_locales (auto intro: inv_intros shell_step_inv)

lemmas shell_run_one = run_one [of "shell_step rc"] for rc
lemmas shell_run_Cons = run_Cons [of "shell_step rc"] for rc

text \<open>
  Every state a background shell can reach satisfies the invariant: its status, exit
  code, completion and kill signal always agree, and its offsets are in bounds.
\<close>

theorem shell_reachable_inv: "run (shell_step rc) (new_shell i cmd) es s \<Longrightarrow> shell_inv s"
  by (rule sh.reach_inv) auto

lemma shell_reachable_inv_witness:
  "shell_inv (shell_exited (- 1) (kill_shell Killed (write_out ''x'' (new_shell ''bash_1'' ''yes''))))"
proof -
  let ?s0 = "new_shell ''bash_1'' ''yes''"
  let ?s1 = "write_out ''x'' ?s0" let ?s2 = "kill_shell Killed ?s1"
  have s1: "shell_step Map.empty ?s0 (WroteOut ''x'') ?s1" by (rule step_out) (simp add: new_shell_def)
  have s2: "shell_step Map.empty ?s1 (KillEv Killed) ?s2" by (rule step_kill) simp
  have s3: "shell_step Map.empty ?s2 (ExitEv (-1)) (shell_exited (-1) ?s2)"
    by (rule step_exit) (simp add: new_shell_def shell_ops)
  show ?thesis
    by (rule shell_reachable_inv [OF shell_run_Cons [OF s1 shell_run_Cons [OF s2 shell_run_one [OF s3]]]])
qed

section \<open>Terminal states and reads\<close>

lemma step_terminal: "shell_step rc s e t \<Longrightarrow> sh_status s \<noteq> Running \<Longrightarrow> sh_status t = sh_status s \<and> sh_signaled t = sh_signaled s"
  by (erule shell_stepE) (auto simp: write_out_def write_err_def kill_shell_def shell_exited_def drain_def dest!: read_new_state)

text \<open>
  A shell leaves the running state once: whatever follows (a second kill, the timer,
  the process exit), the first verdict stands and no second signal is sent.
\<close>

theorem terminal_status_stable:
  "run (shell_step rc) s es t \<Longrightarrow> sh_status s \<noteq> Running \<Longrightarrow>
     sh_status t = sh_status s \<and> sh_signaled t = sh_signaled s"
  by (induction rule: run.induct) (auto dest: step_terminal)

lemma terminal_status_stable_witness:
  "sh_status (shell_exited 0 (kill_shell TimedOut (new_shell ''bash_1'' ''sleep 9''))) = TimedOut"
proof -
  let ?s = "kill_shell TimedOut (new_shell ''bash_1'' ''sleep 9'')"
  have "shell_step Map.empty ?s (ExitEv 0) (shell_exited 0 ?s)"
    by (rule step_exit) (simp add: new_shell_def shell_ops)
  then have "run (shell_step Map.empty) ?s [ExitEv 0] (shell_exited 0 ?s)"
    by (rule shell_run_one)
  moreover have "sh_status ?s = TimedOut" by (simp add: new_shell_def shell_ops)
  ultimately show ?thesis using terminal_status_stable [of Map.empty ?s "[ExitEv 0]"] by simp
qed

fun out_written :: "shell_event \<Rightarrow> string" where
  "out_written (WroteOut p) = p"
| "out_written _ = []"

fun err_written :: "shell_event \<Rightarrow> string" where
  "err_written (WroteErr p) = p"
| "err_written _ = []"

fun out_read :: "shell_event \<Rightarrow> string" where
  "out_read (ReadEv f (Some (out, err))) = out"
| "out_read _ = []"

fun err_read :: "shell_event \<Rightarrow> string" where
  "err_read (ReadEv f (Some (out, err))) = err"
| "err_read _ = []"

definition unfiltered :: "shell_event \<Rightarrow> bool" where
  "unfiltered e = (case e of ReadEv f r \<Rightarrow> f = [] | _ \<Rightarrow> True)"

abbreviation "all_out g es \<equiv> concat (map g es)"

lemma run_delivered:
  "run (shell_step rc) s es t \<Longrightarrow> s = new_shell i cmd \<Longrightarrow> \<forall>e\<in>set es. unfiltered e \<Longrightarrow>
     sh_out_off t \<le> length (sh_stdout t) \<and> sh_err_off t \<le> length (sh_stderr t)
     \<and> all_out out_written es = sh_stdout t \<and> all_out err_written es = sh_stderr t
     \<and> all_out out_read es = take (sh_out_off t) (sh_stdout t)
     \<and> all_out err_read es = take (sh_err_off t) (sh_stderr t)"
proof (induction rule: run.induct)
  case (run_Nil s)
  then show ?case by (simp add: new_shell_def)
next
  case (run_snoc s es t e u)
  then show ?case
    by (elim shell_stepE)
      (auto simp: shell_ops unfiltered_def Let_def split: if_splits option.splits)
qed

lemma output_delivered_once_parts:
  assumes "run (shell_step rc) (new_shell i cmd) es s" and "\<forall>e\<in>set es. unfiltered e"
  shows "all_out out_read es @ drop (sh_out_off s) (sh_stdout s) = all_out out_written es"
    and "all_out err_read es @ drop (sh_err_off s) (sh_stderr s) = all_out err_written es"
  using run_delivered [OF assms(1) refl assms(2)] by simp_all

text \<open>
  C30. Output is delivered exactly once: what the unfiltered reads returned so far,
  followed by what is still unread, is what the process wrote, on each stream, under every
  interleaving of writes, reads, kills and the exit.
\<close>

theorem output_delivered_once:
  assumes "run (shell_step rc) (new_shell i cmd) es s" and "\<forall>e\<in>set es. unfiltered e"
  shows "all_out out_read es @ drop (sh_out_off s) (sh_stdout s) = all_out out_written es
    \<and> all_out err_read es @ drop (sh_err_off s) (sh_stderr s) = all_out err_written es"
  using output_delivered_once_parts [OF assms] by simp


lemma output_delivered_once_witness:
  "all_out out_read [WroteOut ''ab'', ReadEv [] (Some (''ab'', []))] = ''ab''"
proof -
  let ?s0 = "new_shell ''bash_1'' ''echo ab''" let ?s1 = "write_out ''ab'' ?s0"
  have s1: "shell_step Map.empty ?s0 (WroteOut ''ab'') ?s1" by (rule step_out) (simp add: new_shell_def)
  have s2: "shell_step Map.empty ?s1 (ReadEv [] (Some (''ab'', []))) (drain ?s1)"
    by (rule step_read) (simp add: read_new_def write_out_def new_shell_def)
  have "run (shell_step Map.empty) ?s0 [WroteOut ''ab'', ReadEv [] (Some (''ab'', []))] (drain ?s1)"
    by (rule shell_run_Cons [OF s1 shell_run_one [OF s2]])
  from output_delivered_once [OF this] show ?thesis
    by (simp add: unfiltered_def drain_def)
qed

section \<open>The shell table\<close>

interpretation tbl: keyed_store get_shell put_shell
  by unfold_locales (simp add: get_shell_def put_shell_def)

lemma modify_shell_change: "modify_shell f = tbl.change f"
  by (intro ext) (simp add: modify_shell_def tbl.change_def)

definition table_inv :: "shell_table \<Rightarrow> bool" where
  "table_inv t =
     ((\<forall>i. get_shell t i \<noteq> None \<longleftrightarrow> (\<exists>n. 1 \<le> n \<and> n \<le> tb_counter t \<and> i = shell_id n))
      \<and> (\<forall>i s. get_shell t i = Some s \<longrightarrow> sh_id s = i \<and> shell_inv s))"

lemma shell_id_inject [simp]: "shell_id m = shell_id n \<longleftrightarrow> m = n"
  by (simp add: shell_id_def)

lemma numeric_shell_id: "int n \<le> max_int \<Longrightarrow> numeric_id (shell_id n) = int n"
  by (simp add: numeric_id_def shell_id_def atoi_dec trim_prefix_append [of "''bash_''", simplified])

lemma table_ids: "table_inv t \<Longrightarrow> map sh_id (fm_values (tb_shells t)) = fm_keys (tb_shells t)"
proof -
  assume inv: "table_inv t"
  have "sh_id (the (fmlookup (tb_shells t) k)) = k" if "k \<in> set (fm_keys (tb_shells t))" for k
    using that inv by (auto simp: set_fm_keys table_inv_def get_shell_def)
  then show ?thesis by (simp add: fm_values_def map_idI)
qed

lemma list_shells_mem: "s \<in> set (list_shells t) \<longleftrightarrow> (\<exists>i. get_shell t i = Some s)"
  by (simp add: list_shells_def set_fm_values get_shell_def)

lemma list_shells_distinct: "table_inv t \<Longrightarrow> distinct (map sh_id (list_shells t))"
proof -
  assume "table_inv t"
  then have "distinct (map sh_id (fm_values (tb_shells t)))" by (simp add: table_ids)
  then show ?thesis by (simp add: list_shells_def distinct_map)
qed

lemma list_shells_ids: "table_inv t \<Longrightarrow> sh_id ` set (list_shells t) = {i. get_shell t i \<noteq> None}"
proof -
  assume "table_inv t"
  then have "get_shell t j = Some s \<Longrightarrow> sh_id s = j" for j s by (simp add: table_inv_def)
  then show ?thesis by (auto simp: list_shells_mem image_iff) (metis list_shells_mem)
qed

lemma kill_all_fold: "kill_all t = fold (tbl.change (kill_shell Killed)) (map sh_id (list_shells t)) t"
  by (simp add: kill_all_def modify_shell_change fold_map comp_def)

lemma get_kill_all: "table_inv t \<Longrightarrow> get_shell (kill_all t) i = map_option (kill_shell Killed) (get_shell t i)"
  using list_shells_ids [of t]
  by (auto simp: kill_all_fold tbl.get_fold_change list_shells_distinct)

lemma kill_shell_status: "st \<noteq> Running \<Longrightarrow> sh_status (kill_shell st s) \<noteq> Running"
  by (simp add: kill_shell_def)

lemma active_count_0: "active_count t = 0 \<longleftrightarrow> (\<forall>i s. get_shell t i = Some s \<longrightarrow> sh_status s \<noteq> Running)"
  by (auto simp: active_count_def filter_empty_conv set_fm_values get_shell_def)

lemma new_table_inv [inv_intros]: "table_inv new_table"
  by (auto simp: table_inv_def new_table_def get_shell_def)

lemma start_shell_inv [inv_intros]:
  assumes "table_inv t" shows "table_inv (snd (start_shell launch cmd t))"
proof (cases launch)
  case None
  have g: "get_shell (t\<lparr>tb_counter := n\<rparr>) = get_shell t" for n
    by (rule ext) (simp add: get_shell_def)
  have c: "tb_counter (put_shell i s u) = tb_counter u" for i s u
    by (simp add: put_shell_def)
  have n: "sh_id (new_shell i cmd) = i" for i
    by (simp add: new_shell_def)
  with None assms show ?thesis
    by (auto simp: start_shell_def Let_def table_inv_def tbl.get_put g c n le_Suc_eq new_shell_inv)
qed (use assms in \<open>simp add: start_shell_def\<close>)

lemma modify_shell_inv:
  assumes "table_inv t" and "\<And>s. shell_inv s \<Longrightarrow> shell_inv (f s)" and "\<And>s. sh_id (f s) = sh_id s"
  shows "table_inv (modify_shell f i t)"
proof -
  have "tb_counter (modify_shell f i t) = tb_counter t"
    by (simp add: modify_shell_def put_shell_def split: option.splits)
  with assms show ?thesis
    by (auto simp: table_inv_def modify_shell_change tbl.get_change)
qed

lemma kill_shell_id [simp]: "sh_id (kill_shell st s) = sh_id s"
  by (simp add: kill_shell_def)

lemma modify_kill_inv [inv_intros]: "table_inv t \<Longrightarrow> table_inv (modify_shell (kill_shell Killed) i t)"
  by (rule modify_shell_inv) (auto intro: kill_shell_inv)

lemma table_kill_inv [inv_intros]: "table_inv t \<Longrightarrow> table_inv (snd (table_kill i t))"
  by (auto simp: table_kill_def intro: modify_kill_inv split: option.splits)

lemma kill_all_inv [inv_intros]: "table_inv t \<Longrightarrow> table_inv (kill_all t)"
proof -
  have "table_inv u \<Longrightarrow> table_inv (fold (\<lambda>s. modify_shell (kill_shell Killed) (sh_id s)) ss u)" for ss u
    by (induction ss arbitrary: u) (simp_all add: modify_kill_inv)
  then show "table_inv t \<Longrightarrow> ?thesis" by (simp add: kill_all_def)
qed

lemma kill_all_complete_parts:
  assumes "table_inv t"
  shows "active_count (kill_all t) = 0"
    and "get_shell (kill_all t) i =
      map_option (\<lambda>s. if sh_status s = Running then s\<lparr>sh_status := Killed, sh_signaled := True\<rparr> else s) (get_shell t i)"
proof -
  show "active_count (kill_all t) = 0"
    using get_kill_all [OF assms] kill_shell_status [of Killed] by (auto simp: active_count_0)
  have "kill_shell Killed = (\<lambda>s. if sh_status s = Running then s\<lparr>sh_status := Killed, sh_signaled := True\<rparr> else s)"
    by (rule ext) (simp add: kill_shell_def)
  then show "get_shell (kill_all t) i =
      map_option (\<lambda>s. if sh_status s = Running then s\<lparr>sh_status := Killed, sh_signaled := True\<rparr> else s) (get_shell t i)"
    using get_kill_all [OF assms, of i] by simp
qed

text \<open>
  \<^verbatim>\<open>KillAll\<close>: afterwards no shell of the table is running and the active count is
  zero; a shell that had already ended keeps its verdict, its output and its exit code.
\<close>

theorem kill_all_complete:
  assumes "table_inv t"
  shows "active_count (kill_all t) = 0 \<and>
    (\<forall>i. get_shell (kill_all t) i =
      map_option (\<lambda>s. if sh_status s = Running then s\<lparr>sh_status := Killed, sh_signaled := True\<rparr> else s) (get_shell t i))"
  using kill_all_complete_parts [OF assms] by simp


lemma kill_all_complete_witness: "active_count (kill_all (snd (start_shell None ''sleep 9'' new_table))) = 0"
  by (rule kill_all_complete [THEN conjunct1]) (intro inv_intros)

lemma shells_in_start_order_parts:
  assumes "table_inv t" and "int (tb_counter t) \<le> max_int"
  shows "map sh_id (list_shells t) = map shell_id [1..<Suc (tb_counter t)]"
    and "start_shell None cmd t = (Inr i, t') \<Longrightarrow> get_shell t i = None \<and> get_shell t' i = Some (new_shell i cmd)"
proof -
  let ?c = "tb_counter t" and ?ids = "map sh_id (list_shells t)"
  have set: "set ?ids = shell_id ` {1..?c}"
    using list_shells_ids [OF assms(1)] assms(1) by (auto simp: table_inv_def)
  have num: "numeric_id (shell_id n) = int n" if "n \<le> ?c" for n
    using that assms(2) by (simp add: numeric_shell_id)
  have "set (map numeric_id ?ids) = int ` {1..?c}"
    unfolding list.set_map [of numeric_id] set by (auto simp: image_image num)
  moreover have "sorted (map numeric_id ?ids)"
    using sorted_sort_key [of "\<lambda>s. numeric_id (sh_id s)" "fm_values (tb_shells t)"]
    by (simp add: list_shells_def comp_def)
  moreover have "inj_on numeric_id (set ?ids)"
    unfolding set by (auto simp: inj_on_def num)
  then have "distinct (map numeric_id ?ids)"
    using list_shells_distinct [OF assms(1)] by (simp only: distinct_map [of numeric_id])
  moreover have "set (map int [1..<Suc ?c]) = int ` {1..?c}"
    by (simp only: set_map set_upt atLeastLessThanSuc_atLeastAtMost)
  moreover have "sorted (map int [1..<Suc ?c])" "distinct (map int [1..<Suc ?c])"
    by (simp_all add: sorted_map distinct_map del: upt_Suc)
  ultimately have eq: "map numeric_id ?ids = map int [1..<Suc ?c]"
    by (intro sorted_distinct_set_unique) simp_all
  have "?ids = map (shell_id \<circ> nat \<circ> numeric_id) ?ids"
    using set num by (intro map_idI [symmetric]) auto
  also have "\<dots> = map (shell_id \<circ> nat) (map int [1..<Suc ?c])"
    unfolding eq [symmetric] by simp
  finally show "?ids = map shell_id [1..<Suc ?c]" by (simp add: comp_def del: upt_Suc)
next
  assume st: "start_shell None cmd t = (Inr i, t')"
  then have i: "i = shell_id (Suc (tb_counter t))" and t': "get_shell t' i = Some (new_shell i cmd)"
    by (auto simp: start_shell_def Let_def tbl.get_put)
  moreover have "get_shell t i = None"
    using assms(1) unfolding table_inv_def i by (metis not_less_eq_eq order_refl shell_id_inject)
  ultimately show "get_shell t i = None \<and> get_shell t' i = Some (new_shell i cmd)" by simp
qed

text \<open>
  \<^verbatim>\<open>Start\<close> gives a new shell an unused ID, and \<^verbatim>\<open>List\<close> shows the shells
  in the order they were started: \<^verbatim>\<open>bash_1\<close>, \<^verbatim>\<open>bash_2\<close>, and so on past
  \<^verbatim>\<open>bash_10\<close>, as long as the counter is a 64-bit int.
\<close>

theorem shells_in_start_order:
  assumes "table_inv t" and "int (tb_counter t) \<le> max_int"
  shows "map sh_id (list_shells t) = map shell_id [1..<Suc (tb_counter t)] \<and>
    (\<forall>cmd i t'. start_shell None cmd t = (Inr i, t') \<longrightarrow>
       get_shell t i = None \<and> get_shell t' i = Some (new_shell i cmd))"
  using shells_in_start_order_parts [OF assms] by blast


lemma shells_in_start_order_witness:
  "map sh_id (list_shells (snd (start_shell None ''a'' new_table))) = map shell_id [1..<Suc 1]"
proof -
  have "table_inv (snd (start_shell None ''a'' new_table))" by (intro inv_intros)
  moreover have "tb_counter (snd (start_shell None ''a'' new_table)) = 1"
    by (simp add: start_shell_def new_table_def put_shell_def Let_def)
  ultimately show ?thesis using shells_in_start_order by (simp add: max_int_def)
qed

section \<open>Quoting for the wrapper script\<close>

text \<open>
  How bash reads one word: quoted by apostrophes, escaped by a backslash, or plain; a
  blank or a line feed ends it. The result is the word and what follows it.
\<close>

fun bash_word :: "bool \<Rightarrow> string \<Rightarrow> (string \<times> string) option" where
  "bash_word True [] = None"
| "bash_word True (c # s) =
     (if c = CHR 0x27 then bash_word False s
      else map_option (\<lambda>(w, r). (c # w, r)) (bash_word True s))"
| "bash_word False [] = Some ([], [])"
| "bash_word False (c # s) =
     (if c = CHR 0x27 then bash_word True s
      else if c = CHR '' '' \<or> c = nl then Some ([], c # s)
      else if c = CHR 0x5C then
        (case s of [] \<Rightarrow> None | d # s' \<Rightarrow> map_option (\<lambda>(w, r). (d # w, r)) (bash_word False s'))
      else map_option (\<lambda>(w, r). (c # w, r)) (bash_word False s))"

lemma bash_word_quoted:
  "bash_word True (subst_char (CHR 0x27) [CHR 0x27, CHR 0x5C, CHR 0x27, CHR 0x27] s @ [CHR 0x27] @ r) =
     map_option (\<lambda>(w, r). (s @ w, r)) (bash_word False r)"
proof (induction s)
  case Nil
  then show ?case by (simp add: map_option.identity case_prod_unfold)
next
  case (Cons c s)
  then show ?case by (cases "bash_word False r") auto
qed

text \<open>
  The wrapper script redirects the final working directory into exactly the temporary
  file, whatever characters its name has: bash reads the quoted name back as one word.
\<close>

theorem wrapper_redirects_to_tmp:
  "\<exists>script rest. wrapped_command cmd tmp = cmd @ script @ rest
     \<and> script = [nl] @ ''__boxel_ec=$?'' @ [nl] @ ''builtin pwd > ''
     \<and> bash_word False rest = Some (tmp, '' 2>/dev/null'' @ [nl] @ ''exit $__boxel_ec'')"
proof -
  have "bash_word False (shell_quote tmp @ '' 2>/dev/null'' @ [nl] @ ''exit $__boxel_ec'')
      = Some (tmp, '' 2>/dev/null'' @ [nl] @ ''exit $__boxel_ec'')"
    using bash_word_quoted [of tmp "'' 2>/dev/null'' @ [nl] @ ''exit $__boxel_ec''"]
    by (simp add: shell_quote_def replace_all_quote_def str_replace_char)
  then show ?thesis by (auto simp: wrapped_command_def)
qed

end
