(* ===== verification/Session.thy ===== *)
theory Session
  imports Shellmgr Policy
begin

text \<open>
  Logical sessions, \<^verbatim>\<open>internal/session\<close>. Handlers keep pointers to sessions, so the
  manager is a heap of sessions and an index from IDs to addresses; a reset or the garbage
  collector takes a session out of the index, not out of the hands that hold it. The time
  of each operation is an argument.
\<close>

section \<open>Data\<close>

record session =
  ss_id :: string
  ss_shells :: shell_table
  ss_overlay :: overlay
  ss_cwd :: string
  ss_env :: "(string, string) fmap"
  ss_created :: time
  ss_last_used :: time

type_synonym addr = nat

record manager =
  mg_heap :: "session list"
  mg_index :: "(string, addr) fmap"
  mg_default_cwd :: string
  mg_ttl :: duration

definition default_id :: string where
  "default_id = ''default''"

section \<open>Sessions\<close>

definition sess :: "manager \<Rightarrow> addr \<Rightarrow> session" where
  "sess m a = mg_heap m ! a"

definition on_session :: "(session \<Rightarrow> session) \<Rightarrow> addr \<Rightarrow> manager \<Rightarrow> manager" where
  "on_session f a m = m\<lparr>mg_heap := (mg_heap m)[a := f (sess m a)]\<rparr>"

definition chdir :: "string \<Rightarrow> addr \<Rightarrow> manager \<Rightarrow> manager" where
  "chdir dir = on_session (\<lambda>s. s\<lparr>ss_cwd := dir\<rparr>)"

definition set_env :: "string \<Rightarrow> string \<Rightarrow> addr \<Rightarrow> manager \<Rightarrow> manager" where
  "set_env k v = on_session (\<lambda>s. s\<lparr>ss_env := fmupd k v (ss_env s)\<rparr>)"

definition touch :: "time \<Rightarrow> addr \<Rightarrow> manager \<Rightarrow> manager" where
  "touch now = on_session (\<lambda>s. s\<lparr>ss_last_used := now\<rparr>)"

definition grant :: "string \<Rightarrow> string \<Rightarrow> addr \<Rightarrow> manager \<Rightarrow> manager" where
  "grant tool spec = on_session (\<lambda>s. s\<lparr>ss_overlay := add_allow tool spec (ss_overlay s)\<rparr>)"

definition set_shells :: "shell_table \<Rightarrow> addr \<Rightarrow> manager \<Rightarrow> manager" where
  "set_shells t = on_session (\<lambda>s. s\<lparr>ss_shells := t\<rparr>)"

definition kill_session :: "addr \<Rightarrow> manager \<Rightarrow> manager" where
  "kill_session = on_session (\<lambda>s. s\<lparr>ss_shells := kill_all (ss_shells s)\<rparr>)"

section \<open>The manager\<close>

definition new_manager :: "string \<Rightarrow> duration \<Rightarrow> manager" where
  "new_manager cwd ttl = \<lparr>mg_heap = [], mg_index = fmempty, mg_default_cwd = cwd, mg_ttl = ttl\<rparr>"

definition new_session :: "time \<Rightarrow> string \<Rightarrow> manager \<Rightarrow> session" where
  "new_session now i m = \<lparr>ss_id = i, ss_shells = new_table, ss_overlay = new_overlay,
     ss_cwd = mg_default_cwd m, ss_env = fmempty, ss_created = now, ss_last_used = now\<rparr>"

definition get_addr :: "manager \<Rightarrow> string \<Rightarrow> addr option" where
  "get_addr m i = fmlookup (mg_index m) i"

definition put_addr :: "string \<Rightarrow> addr \<Rightarrow> manager \<Rightarrow> manager" where
  "put_addr i a m = m\<lparr>mg_index := fmupd i a (mg_index m)\<rparr>"

definition del_addr :: "string \<Rightarrow> manager \<Rightarrow> manager" where
  "del_addr i m = m\<lparr>mg_index := fmdrop i (mg_index m)\<rparr>"

definition session_key :: "string \<Rightarrow> string" where
  "session_key i = (if i = [] then default_id else i)"

definition install :: "time \<Rightarrow> string \<Rightarrow> manager \<Rightarrow> addr \<times> manager" where
  "install now i m =
     (length (mg_heap m), put_addr i (length (mg_heap m)) (m\<lparr>mg_heap := mg_heap m @ [new_session now i m]\<rparr>))"

definition mgr_get :: "time \<Rightarrow> string \<Rightarrow> manager \<Rightarrow> addr \<times> manager" where
  "mgr_get now i0 m =
     (let i = session_key i0
      in case get_addr m i of
           Some a \<Rightarrow> (a, touch now a m)
         | None \<Rightarrow> (case install now i m of (a, m') \<Rightarrow> (a, touch now a m')))"

definition mgr_reset :: "time \<Rightarrow> string \<Rightarrow> manager \<Rightarrow> addr \<times> manager" where
  "mgr_reset now i0 m =
     (let i = session_key i0
      in install now i (case get_addr m i of Some a \<Rightarrow> kill_session a m | None \<Rightarrow> m))"

definition mgr_list :: "manager \<Rightarrow> session list" where
  "mgr_list m = map (sess m) (fm_values (mg_index m))"

definition mgr_count :: "manager \<Rightarrow> nat" where
  "mgr_count m = length (fm_keys (mg_index m))"

definition active_shells :: "manager \<Rightarrow> nat" where
  "active_shells m = sum_list (map (\<lambda>s. active_count (ss_shells s)) (mgr_list m))"

definition expired :: "time \<Rightarrow> manager \<Rightarrow> addr \<Rightarrow> bool" where
  "expired now m a = (now - ss_last_used (sess m a) > mg_ttl m)"

definition gc_session :: "time \<Rightarrow> string \<Rightarrow> manager \<Rightarrow> manager" where
  "gc_session now i m =
     (case get_addr m i of None \<Rightarrow> m
      | Some a \<Rightarrow> if expired now m a then del_addr i (kill_session a m) else m)"

definition gc_once :: "time \<Rightarrow> manager \<Rightarrow> manager" where
  "gc_once now m = fold (gc_session now) (fm_keys (mg_index m)) m"

text \<open>A tick of the collector's ticker; \<^verbatim>\<open>StartGC\<close> starts none without a TTL.\<close>

definition gc_tick :: "time \<Rightarrow> manager \<Rightarrow> manager" where
  "gc_tick now m = (if mg_ttl m \<le> 0 then m else gc_once now m)"

section \<open>Invariant\<close>

definition mgr_inv :: "manager \<Rightarrow> bool" where
  "mgr_inv m =
     ((\<forall>i a. get_addr m i = Some a \<longrightarrow> a < length (mg_heap m) \<and> ss_id (sess m a) = i)
      \<and> (\<forall>a < length (mg_heap m). table_inv (ss_shells (sess m a))))"

lemma mgr_inv_addr: "mgr_inv m \<Longrightarrow> get_addr m i = Some a \<Longrightarrow> a < length (mg_heap m) \<and> ss_id (sess m a) = i"
  by (simp add: mgr_inv_def)

lemma mgr_inv_inject: "mgr_inv m \<Longrightarrow> get_addr m i = Some a \<Longrightarrow> get_addr m j = Some a \<Longrightarrow> i = j"
  using mgr_inv_addr by blast

lemma on_session_index [simp]: "get_addr (on_session f a m) = get_addr m"
  by (rule ext) (simp add: on_session_def get_addr_def)

lemma on_session_length [simp]: "length (mg_heap (on_session f a m)) = length (mg_heap m)"
  by (simp add: on_session_def)

lemma sess_on_session: "sess (on_session f a m) b = (if a = b \<and> a < length (mg_heap m) then f (sess m a) else sess m b)"
  by (cases "a < length (mg_heap m)") (auto simp: on_session_def sess_def nth_list_update list_update_beyond)

lemma on_session_inv:
  assumes "mgr_inv m" and "\<And>s. ss_id (f s) = ss_id s" and "\<And>s. table_inv (ss_shells s) \<Longrightarrow> table_inv (ss_shells (f s))"
  shows "mgr_inv (on_session f a m)"
  using assms by (auto simp: mgr_inv_def sess_on_session)

lemma session_ops_inv [inv_intros]:
  assumes "mgr_inv m"
  shows "mgr_inv (chdir d a m)" "mgr_inv (set_env k v a m)" "mgr_inv (touch now a m)"
    "mgr_inv (grant tool spec a m)" "mgr_inv (kill_session a m)" "table_inv t \<Longrightarrow> mgr_inv (set_shells t a m)"
  unfolding chdir_def set_env_def touch_def grant_def kill_session_def set_shells_def
  by (rule on_session_inv [OF assms]; simp add: kill_all_inv)+

lemma install_inv [inv_intros]: "mgr_inv m \<Longrightarrow> mgr_inv (snd (install now i m))"
  by (auto simp: mgr_inv_def install_def put_addr_def get_addr_def sess_def nth_append new_session_def
      less_Suc_eq new_table_inv split: if_splits)

lemma mgr_get_inv [inv_intros]: "mgr_inv m \<Longrightarrow> mgr_inv (snd (mgr_get now i m))"
  using install_inv [of m now "session_key i"]
  by (auto simp: mgr_get_def Let_def session_ops_inv split: option.splits prod.splits)

lemma mgr_reset_inv [inv_intros]: "mgr_inv m \<Longrightarrow> mgr_inv (snd (mgr_reset now i m))"
  by (auto simp: mgr_reset_def Let_def session_ops_inv install_inv split: option.splits)

lemma del_addr_inv [inv_intros]: "mgr_inv m \<Longrightarrow> mgr_inv (del_addr i m)"
  by (auto simp: mgr_inv_def del_addr_def get_addr_def sess_def split: if_splits)

lemma gc_session_inv [inv_intros]: "mgr_inv m \<Longrightarrow> mgr_inv (gc_session now i m)"
  by (auto simp: gc_session_def session_ops_inv del_addr_inv split: option.splits)

lemma gc_once_inv [inv_intros]: "mgr_inv m \<Longrightarrow> mgr_inv (gc_once now m)"
proof -
  have "mgr_inv m \<Longrightarrow> mgr_inv (fold (gc_session now) ks m)" for ks
    by (induction ks arbitrary: m) (simp_all add: gc_session_inv)
  then show "mgr_inv m \<Longrightarrow> ?thesis" by (simp add: gc_once_def)
qed

lemma new_manager_inv [inv_intros]: "mgr_inv (new_manager cwd ttl)"
  by (simp add: mgr_inv_def new_manager_def get_addr_def)

section \<open>The index as an expiring table\<close>

text \<open>Dropping the index entries of the addresses that fail a test.\<close>

definition prune_index :: "(addr \<Rightarrow> bool) \<Rightarrow> manager \<Rightarrow> manager" where
  "prune_index keep m = m\<lparr>mg_index := fm_prune keep (mg_index m)\<rparr>"

interpretation ix: expiring_table get_addr put_addr del_addr prune_index
  by unfold_locales (simp_all add: get_addr_def put_addr_def del_addr_def prune_index_def)

lemma gc_session_addr: "get_addr (gc_session now i m) j =
    (case get_addr m j of Some a \<Rightarrow> if j = i \<and> expired now m a then None else Some a | None \<Rightarrow> None)"
  by (auto simp: gc_session_def ix.get_del kill_session_def split: option.splits)

lemma sess_del_addr [simp]: "sess (del_addr i m) = sess m"
  by (rule ext) (simp add: sess_def del_addr_def)

lemma sess_put_addr [simp]: "sess (put_addr i a m) = sess m"
  by (rule ext) (simp add: sess_def put_addr_def)

lemma del_addr_heap [simp]: "length (mg_heap (del_addr i m)) = length (mg_heap m)" "mg_ttl (del_addr i m) = mg_ttl m"
  by (simp_all add: del_addr_def)

lemma kill_session_ttl [simp]: "mg_ttl (kill_session a m) = mg_ttl m"
  by (simp add: kill_session_def on_session_def)

lemma kill_session_expired [simp]: "expired now (kill_session a m) b = expired now m b"
  by (simp add: expired_def) (simp add: kill_session_def sess_on_session)

lemma expired_del_addr [simp]: "expired now (del_addr i m) = expired now m"
  by (rule ext) (simp add: expired_def)

lemma gc_session_expired [simp]: "expired now (gc_session now i m) b = expired now m b"
  by (simp add: gc_session_def split: option.splits)

lemma gc_session_sess:
  "mgr_inv m \<Longrightarrow> sess (gc_session now i m) b =
     (if get_addr m i = Some b \<and> expired now m b
      then (sess m b)\<lparr>ss_shells := kill_all (ss_shells (sess m b))\<rparr> else sess m b)"
  by (auto simp: gc_session_def kill_session_def sess_on_session dest: mgr_inv_addr split: option.splits)

lemma gc_fold:
  assumes "mgr_inv m" and "distinct ks"
  shows "get_addr (fold (gc_session now) ks m) j =
      (case get_addr m j of Some a \<Rightarrow> if j \<in> set ks \<and> expired now m a then None else Some a | None \<Rightarrow> None)
    \<and> sess (fold (gc_session now) ks m) b =
      (if (\<exists>i\<in>set ks. get_addr m i = Some b) \<and> expired now m b
       then (sess m b)\<lparr>ss_shells := kill_all (ss_shells (sess m b))\<rparr> else sess m b)"
  using assms
proof (induction ks arbitrary: m)
  case Nil
  then show ?case by (simp split: option.splits)
next
  case (Cons k ks)
  let ?m = "gc_session now k m"
  have inv: "mgr_inv ?m" using Cons.prems(1) by (rule gc_session_inv)
  have IH: "get_addr (fold (gc_session now) ks ?m) j =
      (case get_addr ?m j of Some a \<Rightarrow> if j \<in> set ks \<and> expired now ?m a then None else Some a | None \<Rightarrow> None)"
    "sess (fold (gc_session now) ks ?m) b =
      (if (\<exists>i\<in>set ks. get_addr ?m i = Some b) \<and> expired now ?m b
       then (sess ?m b)\<lparr>ss_shells := kill_all (ss_shells (sess ?m b))\<rparr> else sess ?m b)"
    using Cons.IH [OF inv] Cons.prems(2) by auto
  have only: "get_addr m k = Some b \<Longrightarrow> i \<in> set ks \<Longrightarrow> get_addr m i \<noteq> Some b" for i
    using mgr_inv_inject [OF Cons.prems(1)] Cons.prems(2) by auto
  have "get_addr (fold (gc_session now) (k # ks) m) j =
      (case get_addr m j of Some a \<Rightarrow> if j \<in> set (k # ks) \<and> expired now m a then None else Some a | None \<Rightarrow> None)"
    using IH(1) by (auto simp: gc_session_addr split: option.splits)
  moreover have "(\<exists>i\<in>set ks. get_addr ?m i = Some b) \<longleftrightarrow> (\<exists>i\<in>set ks. get_addr m i = Some b)"
    using Cons.prems(2) by (auto simp: gc_session_addr split: option.splits)
  then have "sess (fold (gc_session now) (k # ks) m) b =
      (if (\<exists>i\<in>set (k # ks). get_addr m i = Some b) \<and> expired now m b
       then (sess m b)\<lparr>ss_shells := kill_all (ss_shells (sess m b))\<rparr> else sess m b)"
    using IH(2) only by (auto simp: gc_session_sess [OF Cons.prems(1)])
  ultimately show ?case by simp
qed

lemma index_keys: "i \<in> set (fm_keys (mg_index m)) \<longleftrightarrow> get_addr m i \<noteq> None"
  by (simp add: set_fm_keys get_addr_def)

lemma gc_once_addr: "mgr_inv m \<Longrightarrow> get_addr (gc_once now m) j = get_addr (prune_index (\<lambda>a. \<not> expired now m a) m) j"
  using gc_fold [of m "fm_keys (mg_index m)" now j, THEN conjunct1]
  by (auto simp: gc_once_def ix.get_prune index_keys split: option.splits)

section \<open>Properties\<close>

lemma gc_exact_parts:
  assumes "mgr_inv m"
  shows "get_addr (gc_once now m) i =
      (case get_addr m i of Some a \<Rightarrow> if now - ss_last_used (sess m a) > mg_ttl m then None else Some a | None \<Rightarrow> None)"
    and "get_addr m i = Some a \<Longrightarrow> get_addr (gc_once now m) i = None \<Longrightarrow>
      active_count (ss_shells (sess (gc_once now m) a)) = 0"
    and "\<not> (\<exists>j. get_addr m j = Some b \<and> get_addr (gc_once now m) j = None) \<Longrightarrow> sess (gc_once now m) b = sess m b"
proof -
  show A: "get_addr (gc_once now m) i =
      (case get_addr m i of Some a \<Rightarrow> if now - ss_last_used (sess m a) > mg_ttl m then None else Some a | None \<Rightarrow> None)" for i
    by (simp add: gc_once_addr [OF assms] ix.get_prune expired_def split: option.splits)
  have F: "sess (gc_once now m) b =
      (if (\<exists>i. get_addr m i = Some b) \<and> expired now m b
       then (sess m b)\<lparr>ss_shells := kill_all (ss_shells (sess m b))\<rparr> else sess m b)" for b
  proof -
    have "(\<exists>i\<in>set (fm_keys (mg_index m)). get_addr m i = Some b) \<longleftrightarrow> (\<exists>i. get_addr m i = Some b)"
      by (auto simp: index_keys)
    then show ?thesis using gc_fold [OF assms, of "fm_keys (mg_index m)", THEN conjunct2] by (simp add: gc_once_def)
  qed
  show "active_count (ss_shells (sess (gc_once now m) a)) = 0"
    if "get_addr m i = Some a" "get_addr (gc_once now m) i = None"
  proof -
    have "table_inv (ss_shells (sess m a))" using assms that(1) by (auto simp: mgr_inv_def)
    moreover have "expired now m a" using A [of i] that by (auto simp: expired_def split: if_splits)
    ultimately show ?thesis using F [of a] that(1) kill_all_complete_parts(1) by auto
  qed
  show "sess (gc_once now m) b = sess m b"
    if "\<not> (\<exists>j. get_addr m j = Some b \<and> get_addr (gc_once now m) j = None)"
    using that F [of b] A by (auto simp: expired_def)
qed

text \<open>
  One pass of the collector removes exactly the sessions idle for longer than the TTL.
  A removed session has no running shell left; every other session, removed from the index
  earlier or still live, is untouched.
\<close>

theorem gc_exact:
  assumes "mgr_inv m"
  shows "get_addr (gc_once now m) i =
      (case get_addr m i of Some a \<Rightarrow> if now - ss_last_used (sess m a) > mg_ttl m then None else Some a | None \<Rightarrow> None)
    \<and> (\<forall>a. get_addr m i = Some a \<and> get_addr (gc_once now m) i = None \<longrightarrow>
      active_count (ss_shells (sess (gc_once now m) a)) = 0)
    \<and> (\<forall>b. (\<exists>j. get_addr m j = Some b \<and> get_addr (gc_once now m) j = None) \<or> sess (gc_once now m) b = sess m b)"
  using gc_exact_parts [OF assms] by blast


lemma gc_exact_witness:
  "get_addr (gc_once 100 (snd (mgr_get 0 [] (new_manager ''/w'' 60)))) default_id = None"
proof -
  let ?m = "snd (mgr_get 0 [] (new_manager ''/w'' 60))"
  have inv: "mgr_inv ?m" by (intro inv_intros)
  have "get_addr ?m default_id = Some 0" "ss_last_used (sess ?m 0) = 0" "mg_ttl ?m = 60"
    by (simp_all add: mgr_get_def new_manager_def get_addr_def install_def put_addr_def session_key_def
        touch_def on_session_def sess_def new_session_def)
  then show ?thesis using gc_exact [OF inv, of 100 default_id] by simp
qed

lemma install_addr: "get_addr (snd (install now i m)) j = (if j = i then Some (fst (install now i m)) else get_addr m j)"
  by (simp add: install_def put_addr_def get_addr_def)

lemma install_sess:
  "fst (install now i m) = length (mg_heap m)"
  "sess (snd (install now i m)) (length (mg_heap m)) = new_session now i m"
  "b < length (mg_heap m) \<Longrightarrow> sess (snd (install now i m)) b = sess m b"
  by (simp_all add: install_def put_addr_def sess_def nth_append)

lemma get_session_parts:
  assumes "mgr_inv m" and "mgr_get now i m = (a, m')"
  shows "get_addr m' j = (if j = session_key i then Some a else get_addr m j)"
    and "ss_id (sess m' a) = session_key i \<and> ss_last_used (sess m' a) = now"
    and "get_addr m (session_key i) = Some b \<Longrightarrow> a = b \<and> sess m' a = (sess m a)\<lparr>ss_last_used := now\<rparr>"
    and "get_addr m (session_key i) = None \<Longrightarrow> a = length (mg_heap m) \<and> sess m' a = new_session now (session_key i) m"
    and "c < length (mg_heap m) \<Longrightarrow> c \<noteq> a \<Longrightarrow> sess m' c = sess m c"
proof -
  let ?k = "session_key i"
  show "get_addr m' j = (if j = ?k then Some a else get_addr m j)"
    using assms(2) install_addr [of now ?k m j]
    by (auto simp: mgr_get_def touch_def Let_def split: option.splits prod.splits)
  have found: "get_addr m ?k = Some b \<Longrightarrow> a = b \<and> m' = touch now b m" for b
    using assms(2) by (auto simp: mgr_get_def Let_def)
  have fresh: "get_addr m ?k = None \<Longrightarrow> a = length (mg_heap m) \<and> m' = touch now a (snd (install now ?k m))"
    using assms(2) install_sess(1) [of now ?k m] by (auto simp: mgr_get_def Let_def split: prod.splits)
  have len: "length (mg_heap (snd (install now ?k m))) = Suc (length (mg_heap m))"
    by (simp add: install_def put_addr_def)
  show f: "get_addr m ?k = Some b \<Longrightarrow> a = b \<and> sess m' a = (sess m a)\<lparr>ss_last_used := now\<rparr>" for b
    using found [of b] mgr_inv_addr [OF assms(1)] by (auto simp: touch_def sess_on_session)
  show n: "get_addr m ?k = None \<Longrightarrow> a = length (mg_heap m) \<and> sess m' a = new_session now ?k m"
    using fresh len install_sess(2) [of now ?k m] by (auto simp: touch_def sess_on_session new_session_def)
  show "ss_id (sess m' a) = ?k \<and> ss_last_used (sess m' a) = now"
  proof (cases "get_addr m ?k")
    case None
    then have "sess m' a = new_session now ?k m" using n by blast
    then show ?thesis by (simp add: new_session_def)
  next
    case (Some b)
    from f [OF this] have "a = b" "sess m' a = (sess m a)\<lparr>ss_last_used := now\<rparr>" by blast+
    then show ?thesis using mgr_inv_addr [OF assms(1) Some] by simp
  qed
  show "c < length (mg_heap m) \<Longrightarrow> c \<noteq> a \<Longrightarrow> sess m' c = sess m c"
    using found fresh install_sess(3) [of c m now ?k]
    by (cases "get_addr m ?k") (auto simp: touch_def sess_on_session)
qed

text \<open>
  \<^verbatim>\<open>Get\<close> never fails: it returns the session of the ID (\<^verbatim>\<open>default\<close> for
  an empty one), the existing session if there is one, otherwise a fresh one in the default
  directory, marks it used, and leaves every other ID and session alone.
\<close>

theorem get_session:
  assumes "mgr_inv m" and "mgr_get now i m = (a, m')"
  shows "(\<forall>j. get_addr m' j = (if j = session_key i then Some a else get_addr m j))
    \<and> ss_id (sess m' a) = session_key i \<and> ss_last_used (sess m' a) = now
    \<and> (case get_addr m (session_key i) of
         Some b \<Rightarrow> a = b \<and> sess m' a = (sess m a)\<lparr>ss_last_used := now\<rparr>
       | None \<Rightarrow> a = length (mg_heap m) \<and> sess m' a = new_session now (session_key i) m)
    \<and> (\<forall>c < length (mg_heap m). c \<noteq> a \<longrightarrow> sess m' c = sess m c)"
  using get_session_parts [OF assms] by (auto split: option.splits)


lemma get_session_witness: "ss_id (sess (snd (mgr_get 5 [] (new_manager ''/w'' 60))) 0) = ''default''"
proof -
  have inv: "mgr_inv (new_manager ''/w'' 60)" by (rule new_manager_inv)
  have "get_addr (new_manager ''/w'' 60) (session_key []) = None" "length (mg_heap (new_manager ''/w'' 60)) = 0"
    by (simp_all add: new_manager_def get_addr_def)
  then show ?thesis
    using get_session [where now = 5 and i = "[]", OF inv prod.collapse [symmetric]] by (auto simp: session_key_def default_id_def)
qed

lemma reset_session_parts:
  assumes "mgr_inv m" and "mgr_reset now i m = (a, m')"
  shows "get_addr m' j = (if j = session_key i then Some a else get_addr m j)"
    and "sess m' a = new_session now (session_key i) m"
    and "get_addr m (session_key i) = Some b \<Longrightarrow> a \<noteq> b \<and> active_count (ss_shells (sess m' b)) = 0"
proof -
  let ?k = "session_key i"
  let ?m = "case get_addr m ?k of Some a \<Rightarrow> kill_session a m | None \<Rightarrow> m"
  have idx: "get_addr ?m = get_addr m" and len: "length (mg_heap ?m) = length (mg_heap m)"
    and new: "new_session now ?k ?m = new_session now ?k m"
    by (auto simp: kill_session_def new_session_def on_session_def get_addr_def split: option.splits)
  have i: "(a, m') = install now ?k ?m" using assms(2) by (simp add: mgr_reset_def Let_def)
  then have a: "a = length (mg_heap m)" and m': "m' = snd (install now ?k ?m)"
    using install_sess(1) [of now ?k ?m] len by (metis fst_conv, metis snd_conv)
  show "get_addr m' j = (if j = ?k then Some a else get_addr m j)"
    using install_addr [of now ?k ?m j] idx i by (metis fst_conv snd_conv)
  show "sess m' a = new_session now ?k m"
    using install_sess(2) [of now ?k ?m] a m' len new by simp
  show "a \<noteq> b \<and> active_count (ss_shells (sess m' b)) = 0" if b: "get_addr m ?k = Some b"
  proof -
    note lt = mgr_inv_addr [OF assms(1) b]
    then have "sess m' b = (sess m b)\<lparr>ss_shells := kill_all (ss_shells (sess m b))\<rparr>"
      using m' install_sess(3) [of b ?m now ?k] b len by (simp add: kill_session_def sess_on_session)
    moreover have "table_inv (ss_shells (sess m b))" using assms(1) lt by (simp add: mgr_inv_def)
    ultimately show ?thesis using a lt kill_all_complete_parts(1) by auto
  qed
qed

text \<open>
  \<^verbatim>\<open>Reset\<close> replaces the session: the ID now names a fresh session in the default
  directory with no grants, no environment and no shells, and the shells of the one it
  replaced are all dead.
\<close>

theorem reset_session:
  assumes "mgr_inv m" and "mgr_reset now i m = (a, m')"
  shows "(\<forall>j. get_addr m' j = (if j = session_key i then Some a else get_addr m j))
    \<and> sess m' a = new_session now (session_key i) m
    \<and> (\<forall>b. get_addr m (session_key i) = Some b \<longrightarrow> a \<noteq> b \<and> active_count (ss_shells (sess m' b)) = 0)"
  using reset_session_parts [OF assms] by blast


lemma reset_session_witness:
  "sess (snd (mgr_reset 5 ''x'' (new_manager ''/w'' 60))) (fst (mgr_reset 5 ''x'' (new_manager ''/w'' 60)))
     = new_session 5 ''x'' (new_manager ''/w'' 60)"
  using reset_session [where now = 5 and i = "''x''", OF new_manager_inv prod.collapse [symmetric]]
  by (simp add: session_key_def)

end
