(* ===== verification/Vfs.thy ===== *)
theory Vfs
  imports Paths
begin

text \<open>
  The sandbox file system the tools act on, with symbolic links: the part of the
  operating system behind Go's \<^verbatim>\<open>os\<close> package that \<^verbatim>\<open>internal/harness\<close> and
  \<^verbatim>\<open>internal/policy\<close> rely on. A location is a list of components from the root;
  a path is resolved to a location component by component, following links. The
  component \<open>faults\<close> lets any call fail with any error text, so the handlers'
  error branches are all reachable.
\<close>

section \<open>Nodes, locations and path resolution\<close>

datatype node = FileN string | DirN | LinkN string

datatype syscall = SysStat | SysRead | SysWrite | SysMkdir | SysReadDir

datatype os_err = ENOENT | ENOTDIR | ELOOP | EISDIR | EEXIST | EOther string

type_synonym loc = "string list"

record vfs =
  nodes :: "loc \<Rightarrow> node option"
  mtimes :: "loc \<Rightarrow> time"
  faults :: "syscall \<Rightarrow> string \<Rightarrow> string option"

definition skip_comp :: "string \<Rightarrow> bool" where
  "skip_comp c = (c = [] \<or> c = ''.'')"

text \<open>
  \<open>walk k v d cs\<close> resolves the components \<open>cs\<close> from the directory at \<open>d\<close>, following
  at most \<open>k\<close> links. \<^verbatim>\<open>filepath.EvalSymlinks\<close> allows 255, the kernel 40.
\<close>

definition link_start :: "string \<Rightarrow> loc \<Rightarrow> loc" where
  "link_start t d = (if is_abs t then [] else d)"

text \<open>A file is fine as the last component and \<^verbatim>\<open>ENOTDIR\<close> before it.\<close>

definition file_end :: "string list \<Rightarrow> loc \<Rightarrow> os_err + loc" where
  "file_end cs l = (if cs = [] then Inr l else Inl ENOTDIR)"

lemma file_end_Inr [simp]: "file_end cs l = Inr l' \<longleftrightarrow> cs = [] \<and> l' = l"
  by (auto simp: file_end_def)

lemma file_end_Nil [simp]: "file_end [] l = Inr l"
  by simp

function walk :: "nat \<Rightarrow> vfs \<Rightarrow> loc \<Rightarrow> string list \<Rightarrow> os_err + loc" where
  "walk k v d [] = Inr d"
| "walk k v d (c # cs) =
     (if skip_comp c then walk k v d cs
      else if c = ''..'' then walk k v (butlast d) cs
      else case nodes v (d @ [c]) of
             None \<Rightarrow> Inl ENOENT
           | Some DirN \<Rightarrow> walk k v (d @ [c]) cs
           | Some (FileN _) \<Rightarrow> file_end cs (d @ [c])
           | Some (LinkN t) \<Rightarrow>
               (case k of 0 \<Rightarrow> Inl ELOOP
                | Suc k' \<Rightarrow> walk k' v (link_start t d) (split_char slash t @ cs)))"
  by pat_completeness auto
termination
  by (relation "measures [\<lambda>(k, v, d, cs). k, \<lambda>(k, v, d, cs). length cs]") auto

declare walk.simps(2) [simp del]

abbreviation go_links :: nat where "go_links \<equiv> 255"
abbreviation kernel_links :: nat where "kernel_links \<equiv> 40"

definition eval_symlinks :: "vfs \<Rightarrow> string \<Rightarrow> string option" where
  "eval_symlinks v p =
     (case walk go_links v [] (split_char slash p) of Inl _ \<Rightarrow> None | Inr l \<Rightarrow> Some (abs_path l))"

section \<open>System calls\<close>

definition kloc :: "vfs \<Rightarrow> string \<Rightarrow> os_err + loc" where
  "kloc v p = walk kernel_links v [] (split_char slash p)"

definition os_stat :: "vfs \<Rightarrow> string \<Rightarrow> os_err + (loc \<times> node)" where
  "os_stat v p =
     (case faults v SysStat p of Some e \<Rightarrow> Inl (EOther e)
      | None \<Rightarrow> (case kloc v p of Inl e \<Rightarrow> Inl e
                 | Inr l \<Rightarrow> (case nodes v l of None \<Rightarrow> Inl ENOENT | Some n \<Rightarrow> Inr (l, n))))"

definition os_read_file :: "vfs \<Rightarrow> string \<Rightarrow> os_err + string" where
  "os_read_file v p =
     (case faults v SysRead p of Some e \<Rightarrow> Inl (EOther e)
      | None \<Rightarrow> (case kloc v p of Inl e \<Rightarrow> Inl e
                 | Inr l \<Rightarrow> (case nodes v l of Some (FileN s) \<Rightarrow> Inr s | Some DirN \<Rightarrow> Inl EISDIR
                             | _ \<Rightarrow> Inl ENOENT)))"

text \<open>
  Opening with \<^verbatim>\<open>O_CREAT\<close>: a missing last component is where the file is created;
  a last component that is a link is followed, also when its target is missing.
\<close>

function walk_create :: "nat \<Rightarrow> vfs \<Rightarrow> loc \<Rightarrow> string list \<Rightarrow> os_err + loc" where
  "walk_create k v d [] = Inr d"
| "walk_create k v d (c # cs) =
     (if skip_comp c then walk_create k v d cs
      else if c = ''..'' then walk_create k v (butlast d) cs
      else case nodes v (d @ [c]) of
             None \<Rightarrow> if cs = [] then Inr (d @ [c]) else Inl ENOENT
           | Some DirN \<Rightarrow> walk_create k v (d @ [c]) cs
           | Some (FileN _) \<Rightarrow> file_end cs (d @ [c])
           | Some (LinkN t) \<Rightarrow>
               (case k of 0 \<Rightarrow> Inl ELOOP
                | Suc k' \<Rightarrow> walk_create k' v (link_start t d) (split_char slash t @ cs)))"
  by pat_completeness auto
termination
  by (relation "measures [\<lambda>(k, v, d, cs). k, \<lambda>(k, v, d, cs). length cs]") auto

declare walk_create.simps(2) [simp del]

definition set_node :: "loc \<Rightarrow> node \<Rightarrow> vfs \<Rightarrow> vfs" where
  "set_node l n v = v\<lparr>nodes := (nodes v)(l := Some n)\<rparr>"

definition os_write_file :: "vfs \<Rightarrow> string \<Rightarrow> string \<Rightarrow> os_err + vfs" where
  "os_write_file v p data =
     (case faults v SysWrite p of Some e \<Rightarrow> Inl (EOther e)
      | None \<Rightarrow> (case walk_create kernel_links v [] (split_char slash p) of Inl e \<Rightarrow> Inl e
                 | Inr l \<Rightarrow> if nodes v l = Some DirN then Inl EISDIR
                            else Inr (set_node l (FileN data) v)))"

text \<open>\<^verbatim>\<open>mkdir(2)\<close> and \<^verbatim>\<open>lstat(2)\<close> on the path with components \<open>ds @ [c]\<close>.\<close>

definition os_mkdir :: "vfs \<Rightarrow> string list \<Rightarrow> string \<Rightarrow> os_err + vfs" where
  "os_mkdir v ds c =
     (case faults v SysMkdir (abs_path (ds @ [c])) of Some e \<Rightarrow> Inl (EOther e)
      | None \<Rightarrow> (case walk kernel_links v [] ds of Inl e \<Rightarrow> Inl e
                 | Inr d \<Rightarrow> if nodes v d \<noteq> Some DirN then Inl ENOTDIR
                            else if nodes v (d @ [c]) \<noteq> None then Inl EEXIST
                            else Inr (set_node (d @ [c]) DirN v)))"

definition os_lstat :: "vfs \<Rightarrow> string list \<Rightarrow> string \<Rightarrow> node option" where
  "os_lstat v ds c =
     (case walk kernel_links v [] ds of Inl _ \<Rightarrow> None
      | Inr d \<Rightarrow> if nodes v d = Some DirN then nodes v (d @ [c]) else None)"

text \<open>
  \<^verbatim>\<open>os.MkdirAll\<close> on the path whose components, innermost first, are the argument:
  the parent first, then the directory itself.
\<close>

fun os_mkdir_all :: "vfs \<Rightarrow> string list \<Rightarrow> os_err option \<times> vfs" where
  "os_mkdir_all v [] =
     (case os_stat v ''/'' of Inr (l, n) \<Rightarrow> (if n = DirN then None else Some ENOTDIR, v) | Inl _ \<Rightarrow> (None, v))"
| "os_mkdir_all v (c # ps) =
     (case os_stat v (abs_path (rev (c # ps))) of
        Inr (l, n) \<Rightarrow> (if n = DirN then None else Some ENOTDIR, v)
      | Inl _ \<Rightarrow>
          (case (if ps = [] then (None, v) else os_mkdir_all v ps) of
             (Some e, v1) \<Rightarrow> (Some e, v1)
           | (None, v1) \<Rightarrow>
               (case os_mkdir v1 (rev ps) c of
                  Inr v2 \<Rightarrow> (None, v2)
                | Inl e \<Rightarrow> (if os_lstat v1 (rev ps) c = Some DirN then None else Some e, v1))))"

section \<open>Well-formed file systems\<close>

definition vfs_wf :: "vfs \<Rightarrow> bool" where
  "vfs_wf v \<longleftrightarrow> nodes v [] = Some DirN \<and> (\<forall>d c. nodes v (d @ [c]) \<noteq> None \<longrightarrow> nodes v d = Some DirN)
     \<and> (\<forall>l. nodes v l \<noteq> None \<longrightarrow> normal l)"

lemma vfs_wf_root [simp]: "vfs_wf v \<Longrightarrow> nodes v [] = Some DirN"
  by (simp add: vfs_wf_def)

lemma vfs_wf_parent: "vfs_wf v \<Longrightarrow> nodes v (d @ [c]) = Some n \<Longrightarrow> nodes v d = Some DirN"
  unfolding vfs_wf_def by blast

lemma vfs_wf_normal: "vfs_wf v \<Longrightarrow> nodes v l = Some n \<Longrightarrow> normal l"
  unfolding vfs_wf_def by (metis option.distinct(1))

lemma vfs_wf_butlast: "vfs_wf v \<Longrightarrow> nodes v d = Some DirN \<Longrightarrow> nodes v (butlast d) = Some DirN"
  by (cases d rule: rev_cases) (auto dest: vfs_wf_parent)

lemma vfs_wf_prefix: "vfs_wf v \<Longrightarrow> nodes v (d @ e) = Some n \<Longrightarrow> e \<noteq> [] \<Longrightarrow> nodes v d = Some DirN"
proof (induction e arbitrary: n rule: rev_induct)
  case (snoc c e)
  then have "nodes v (d @ e) = Some DirN" by (metis append.assoc vfs_wf_parent)
  with snoc show ?case by (cases "e = []") auto
qed simp

lemma vfs_wf_below_None:
  "vfs_wf v \<Longrightarrow> nodes v d = None \<Longrightarrow> nodes v (d @ e) = None"
  by (cases "e = []"; cases "nodes v (d @ e)") (auto dest: vfs_wf_prefix)

lemma vfs_wf_set_file:
  assumes "vfs_wf v" and "nodes v d = Some DirN" and "normal_comp c" and "nodes v (d @ [c]) \<noteq> Some DirN"
  shows "vfs_wf (set_node (d @ [c]) (FileN s) v)"
proof -
  have "nodes v (d @ [c] @ [e]) = None" for e
    using assms(1,4) vfs_wf_parent [of v "d @ [c]" e] by (cases "nodes v (d @ [c] @ [e])") auto
  then show ?thesis
    using assms vfs_wf_normal [OF assms(1,2)] unfolding vfs_wf_def set_node_def
    by (auto split: if_splits)
qed

lemma vfs_wf_set_dir:
  assumes "vfs_wf v" and "nodes v d = Some DirN" and "normal_comp c"
  shows "vfs_wf (set_node (d @ [c]) DirN v)"
  using assms vfs_wf_normal [OF assms(1,2)] unfolding vfs_wf_def set_node_def
  by auto

section \<open>Resolution\<close>

lemmas walk_step = walk.simps(2)

lemma walk_normal_comp:
  "normal_comp c \<Longrightarrow> \<not> skip_comp c \<and> c \<noteq> ''..''"
  by (auto simp: normal_comp_def skip_comp_def)

lemma walk_mono_fuel: "walk k v d cs = Inr l \<Longrightarrow> k \<le> k' \<Longrightarrow> walk k' v d cs = Inr l"
proof (induction k v d cs arbitrary: k' rule: walk.induct)
  case (2 k v d c cs)
  from "2.prems" show ?case
    by (auto simp: walk_step [of _ v d c cs] split: if_splits option.splits node.splits nat.splits
        intro: "2.IH" dest: Suc_le_D)
qed simp

lemma kernel_walk: "walk kernel_links v d cs = Inr l \<Longrightarrow> walk go_links v d cs = Inr l"
  by (rule walk_mono_fuel) auto

lemma walk_prefix: "walk k v d (xs @ ys) = Inr l \<Longrightarrow> \<exists>m. walk k v d xs = Inr m"
proof (induction k v d xs rule: walk.induct)
  case (2 k v d c cs)
  from "2.prems" show ?case
    by (auto simp: walk_step [of k v d c] split: if_splits option.splits node.splits nat.splits
        intro: "2.IH")
qed simp

text \<open>One more ordinary component after a resolved directory.\<close>

lemma walk_one_Some:
  "normal_comp y \<Longrightarrow> dy = d @ [y] \<Longrightarrow> nodes v dy = Some n \<Longrightarrow> (\<forall>t. n \<noteq> LinkN t) \<Longrightarrow> walk k v d [y] = Inr dy"
  by (cases n) (auto simp: walk_step dest: walk_normal_comp)

lemma walk_one_None:
  "normal_comp y \<Longrightarrow> dy = d @ [y] \<Longrightarrow> nodes v dy = None \<Longrightarrow> walk k v d (y # zs) = Inl ENOENT"
  by (auto simp: walk_step dest: walk_normal_comp)

lemma walk_snoc_Some:
  "walk k v d xs = Inr m \<Longrightarrow> nodes v m = Some DirN \<Longrightarrow> normal_comp y \<Longrightarrow>
     nodes v (m @ [y]) = Some n \<Longrightarrow> (\<forall>t. n \<noteq> LinkN t) \<Longrightarrow> walk k v d (xs @ [y]) = Inr (m @ [y])"
proof (induction k v d xs rule: walk.induct)
  case (1 k v d)
  then show ?case by (auto intro: walk_one_Some)
next
  case (2 k v d c cs)
  from "2.prems" show ?case
    by (auto simp: walk_step [of k v d c] split: if_splits option.splits node.splits nat.splits
        intro: "2.IH" "2.IH"(4) [unfolded append_assoc] walk_one_Some)
qed

lemma walk_snoc_None:
  "walk k v d xs = Inr m \<Longrightarrow> nodes v (m @ [y]) = None \<Longrightarrow> nodes v m = Some DirN \<Longrightarrow> normal_comp y \<Longrightarrow>
     walk k v d (xs @ y # zs) = Inl ENOENT"
proof (induction k v d xs rule: walk.induct)
  case (1 k v d)
  then show ?case by (auto intro: walk_one_None)
next
  case (2 k v d c cs)
  from "2.prems" show ?case
    by (auto simp: walk_step [of k v d c] split: if_splits option.splits node.splits nat.splits
        intro: "2.IH" "2.IH"(4) [unfolded append_assoc append_Cons] walk_one_None)
qed

text \<open>From a directory, resolution ends at an existing node.\<close>

lemma walk_exists:
  "walk k v d cs = Inr l \<Longrightarrow> vfs_wf v \<Longrightarrow> nodes v d = Some DirN \<Longrightarrow> \<exists>n. nodes v l = Some n \<and> (\<forall>t. n \<noteq> LinkN t)"
proof (induction k v d cs rule: walk.induct)
  case (2 k v d c cs)
  from "2.prems" show ?case
    by (auto simp: walk_step [of k v d c] vfs_wf_butlast link_start_def split: if_splits option.splits node.splits nat.splits
        intro: "2.IH")
qed auto

text \<open>Adding a directory where nothing was does not change what already resolved.\<close>

lemma walk_set_dir:
  "walk k v d cs = Inr l \<Longrightarrow> nodes v x = None \<Longrightarrow> walk k (set_node x DirN v) d cs = Inr l"
proof (induction k v d cs rule: walk.induct)
  case (2 k v d c cs)
  have s: "nodes v (d @ [c]) = Some n \<Longrightarrow> nodes (set_node x DirN v) (d @ [c]) = Some n" for n
    using "2.prems"(2) by (auto simp: set_node_def)
  from "2.prems" show ?case
    by (auto simp: walk_step [of k _ d c] s split: if_splits option.splits node.splits nat.splits
        intro: "2.IH")
qed simp

section \<open>Writing\<close>

lemmas create_step = walk_create.simps(2)

text \<open>
  Where a write lands: an existing file or directory, or a fresh name in an existing
  directory; never a link, which is followed.
\<close>

definition create_target :: "vfs \<Rightarrow> loc \<Rightarrow> bool" where
  "create_target v l =
     ((\<exists>s. nodes v l = Some (FileN s)) \<or> nodes v l = Some DirN
      \<or> nodes v l = None \<and> (\<exists>d c. l = d @ [c] \<and> nodes v d = Some DirN \<and> normal_comp c))"

lemma create_normal: "\<not> skip_comp c \<Longrightarrow> c \<noteq> ''..'' \<Longrightarrow> slash \<notin> set c \<Longrightarrow> normal_comp c"
  by (auto simp: normal_comp_def skip_comp_def)

lemma split_no_slash: "\<forall>c\<in>set cs. slash \<notin> set c \<Longrightarrow> c \<in> set (split_char slash t @ cs) \<Longrightarrow> slash \<notin> set c"
  using split_char_parts by auto

lemma walk_create_target:
  "walk_create k v d cs = Inr l \<Longrightarrow> vfs_wf v \<Longrightarrow> nodes v d = Some DirN \<Longrightarrow> \<forall>c\<in>set cs. slash \<notin> set c \<Longrightarrow>
     create_target v l"
proof (induction k v d cs rule: walk_create.induct)
  case (1 k v d)
  then show ?case by (simp add: create_target_def)
next
  case (2 k v d c cs)
  consider "skip_comp c" | "\<not> skip_comp c" "c = ''..''" | "\<not> skip_comp c" "c \<noteq> ''..''" by blast
  then show ?case
  proof cases
    case 3
    show ?thesis
    proof (cases "nodes v (d @ [c])")
      case None
      with 2 3 have "cs = []" "l = d @ [c]" by (auto simp: create_step [of k v d c] split: if_splits)
      with None 2 3 create_normal show ?thesis by (auto simp: create_target_def)
    next
      case (Some n)
      show ?thesis
      proof (cases n)
        case (LinkN t)
        with 2 3 Some obtain k' where k: "k = Suc k'" "walk_create k' v (link_start t d) (split_char slash t @ cs) = Inr l"
          by (auto simp: create_step [of k v d c] split: nat.splits)
        show ?thesis
        proof (rule "2.IH"(4) [OF 3 Some LinkN k(1) k(2) "2.prems"(2)])
          show "nodes v (link_start t d) = Some DirN" using "2.prems"(2,3) by (simp add: link_start_def)
          show "\<forall>c\<in>set (split_char slash t @ cs). slash \<notin> set c"
            using "2.prems"(4) split_char_parts by auto
        qed
      qed (use 2 3 Some in \<open>auto simp: create_step [of k v d c] create_target_def\<close>)
    qed
  qed (use 2 in \<open>auto simp: create_step [of k v d] vfs_wf_butlast\<close>)
qed

lemma walk_after_create:
  "walk_create k v d cs = Inr l \<Longrightarrow> vfs_wf v \<Longrightarrow> nodes v d = Some DirN \<Longrightarrow> nodes v l \<noteq> Some DirN \<Longrightarrow>
     \<forall>t. nodes v l \<noteq> Some (LinkN t) \<Longrightarrow> walk k (set_node l (FileN s) v) d cs = Inr l"
proof (induction k v d cs rule: walk_create.induct)
  case (2 k v d c cs)
  have same: "nodes (set_node l (FileN s) v) (d @ [c]) = nodes v (d @ [c])" if "d @ [c] \<noteq> l"
    using that by (auto simp: set_node_def)
  have new: "nodes (set_node l (FileN s) v) l = Some (FileN s)" by (simp add: set_node_def)
  consider "skip_comp c" | "\<not> skip_comp c" "c = ''..''" | "\<not> skip_comp c" "c \<noteq> ''..''" by blast
  then show ?case
  proof cases
    case 3
    show ?thesis
    proof (cases "nodes v (d @ [c])")
      case None
      with 2 3 have "cs = []" "l = d @ [c]" by (auto simp: create_step [of k v d c] split: if_splits)
      with new 3 show ?thesis by (simp add: walk_step)
    next
      case (Some n)
      show ?thesis
      proof (cases n)
        case (LinkN t)
        with 2 3 Some obtain k' where k: "k = Suc k'" "walk_create k' v (link_start t d) (split_char slash t @ cs) = Inr l"
          by (auto simp: create_step [of k v d c] split: nat.splits)
        have ne: "d @ [c] \<noteq> l" using 2 Some LinkN by auto
        have "walk k' (set_node l (FileN s) v) (link_start t d) (split_char slash t @ cs) = Inr l"
          by (rule "2.IH"(4) [OF 3 Some LinkN k(1) k(2)]) (use 2 in \<open>auto simp: link_start_def\<close>)
        with 3 Some LinkN k(1) same [OF ne] show ?thesis by (simp add: walk_step [of "Suc k'" _ d c])
      next
        case (FileN s')
        with 2 3 Some have "cs = []" "l = d @ [c]" by (auto simp: create_step [of k v d c])
        with new 3 show ?thesis by (simp add: walk_step)
      next
        case DirN
        then have ne: "d @ [c] \<noteq> l" using 2 Some by auto
        have "walk k (set_node l (FileN s) v) (d @ [c]) cs = Inr l"
          using 2 3 Some DirN by (auto simp: create_step [of k v d c])
        with 3 Some DirN same [OF ne] show ?thesis by (simp add: walk_step [of k _ d c])
      qed
    qed
  qed (use 2 in \<open>auto simp: create_step [of k v d] walk_step [of k _ d] vfs_wf_butlast\<close>)
qed simp

lemma create_existing: "walk k v d cs = Inr l \<Longrightarrow> walk_create k v d cs = Inr l"
proof (induction k v d cs rule: walk.induct)
  case (2 k v d c cs)
  from "2.prems" show ?case
    by (auto simp: walk_step [of k v d c] create_step [of k v d c] split: if_splits option.splits node.splits nat.splits
        intro: "2.IH")
qed simp

lemma os_write_file_cases:
  assumes "os_write_file v p data = Inr v'"
  obtains l where "walk_create kernel_links v [] (split_char slash p) = Inr l" "nodes v l \<noteq> Some DirN"
    "v' = set_node l (FileN data) v"
  using assms by (auto simp: os_write_file_def split: option.splits sum.splits if_splits)

lemma set_node_faults [simp]: "faults (set_node l n v) = faults v"
  by (simp add: set_node_def)

lemma os_write_file_wf:
  assumes "os_write_file v p data = Inr v'" and "vfs_wf v"
  shows "vfs_wf v'"
proof -
  obtain l where l: "walk_create kernel_links v [] (split_char slash p) = Inr l" "nodes v l \<noteq> Some DirN"
    "v' = set_node l (FileN data) v"
    using assms(1) by (rule os_write_file_cases)
  have t: "create_target v l"
    by (rule walk_create_target [OF l(1) assms(2)]) (use assms(2) split_char_parts in auto)
  show ?thesis
  proof (cases "\<exists>d c. l = d @ [c] \<and> nodes v d = Some DirN \<and> normal_comp c")
    case True
    with l assms(2) vfs_wf_set_file show ?thesis by blast
  next
    case False
    with t l(2) obtain s where s: "nodes v l = Some (FileN s)" by (auto simp: create_target_def)
    then obtain d c where dc: "l = d @ [c]"
      using assms(2) by (cases l rule: rev_cases) (auto simp: vfs_wf_def)
    then have "nodes v d = Some DirN" "normal_comp c"
      using s assms(2) vfs_wf_parent vfs_wf_normal [OF assms(2) s] by auto
    with False dc show ?thesis by blast
  qed
qed

lemma os_write_read:
  assumes "os_write_file v p data = Inr v'" and "vfs_wf v" and "faults v SysRead p = None"
  shows "os_read_file v' p = Inr data"
proof -
  obtain l where l: "walk_create kernel_links v [] (split_char slash p) = Inr l" "nodes v l \<noteq> Some DirN"
    "v' = set_node l (FileN data) v"
    using assms(1) by (rule os_write_file_cases)
  have "create_target v l"
    by (rule walk_create_target [OF l(1) assms(2)]) (use assms(2) split_char_parts in auto)
  then have "walk kernel_links v' [] (split_char slash p) = Inr l"
    unfolding l(3) by (intro walk_after_create [OF l(1) assms(2)]) (use assms(2) l(2) in \<open>auto simp: create_target_def\<close>)
  then show ?thesis using l(3) assms(3) by (simp add: os_read_file_def kloc_def) (simp add: set_node_def)
qed

section \<open>Making directories\<close>

lemma os_mkdir_cases:
  assumes "os_mkdir v ds c = Inr v'"
  obtains d where "walk kernel_links v [] ds = Inr d" "nodes v d = Some DirN" "nodes v (d @ [c]) = None"
    "v' = set_node (d @ [c]) DirN v"
  using assms by (auto simp: os_mkdir_def split: option.splits sum.splits if_splits)

lemma os_mkdir_wf: "os_mkdir v ds c = Inr v' \<Longrightarrow> vfs_wf v \<Longrightarrow> normal_comp c \<Longrightarrow> vfs_wf v'"
  by (erule os_mkdir_cases) (simp add: vfs_wf_set_dir)

text \<open>Induction over the directories \<^verbatim>\<open>MkdirAll\<close> makes, one at a time.\<close>

lemma os_mkdir_all_induct:
  assumes "os_mkdir_all v ps = (r, v')" and "P v" and "normal ps"
    and "\<And>u u' ds c. P u \<Longrightarrow> os_mkdir u ds c = Inr u' \<Longrightarrow> (\<exists>e. ds @ c # e = rev ps) \<Longrightarrow> P u'"
  shows "P v'"
proof -
  have "os_mkdir_all v qs = (r, v') \<Longrightarrow> P v \<Longrightarrow> (\<exists>e. rev qs @ e = rev ps) \<Longrightarrow> P v'" for qs r v'
  proof (induction qs arbitrary: r v')
    case Nil
    then show ?case by (auto split: sum.splits)
  next
    case (Cons c qs)
    show ?case
    proof (cases "os_stat v (abs_path (rev (c # qs)))")
      case (Inr ln)
      with Cons.prems show ?thesis by (auto split: prod.splits)
    next
      case (Inl e)
      obtain r1 v1 where r1: "(if qs = [] then (None, v) else os_mkdir_all v qs) = (r1, v1)"
        by (cases "if qs = [] then (None, v) else os_mkdir_all v qs")
      have "\<exists>e. rev qs @ e = rev ps" using Cons.prems(3) by auto
      then have P1: "P v1" using r1 Cons.IH [of r1 v1] Cons.prems(2) by (cases "qs = []") auto
      have ex: "\<exists>e. rev qs @ c # e = rev ps" using Cons.prems(3) by auto
      show ?thesis
      proof (cases r1)
        case (Some e1)
        with Cons.prems(1) Inl r1 P1 show ?thesis by simp
      next
        case None
        show ?thesis
        proof (cases "os_mkdir v1 (rev qs) c")
          case (Inl e2)
          with Cons.prems(1) \<open>os_stat v (abs_path (rev (c # qs))) = Inl e\<close> r1 P1 None show ?thesis by simp
        next
          case (Inr v2)
          have "P v2" by (rule assms(4) [OF P1 Inr ex])
          with Cons.prems(1) Inl r1 None Inr show ?thesis by simp
        qed
      qed
    qed
  qed
  from this [of ps r v'] assms(1,2) show ?thesis by simp
qed

lemma os_mkdir_all_wf:
  assumes "os_mkdir_all v ps = (r, v')" and "vfs_wf v" and "normal ps"
  shows "vfs_wf v' \<and> faults v' = faults v"
proof (rule os_mkdir_all_induct [OF assms(1) _ assms(3), of "\<lambda>u. vfs_wf u \<and> faults u = faults v"])
  fix u u' ds c
  assume u: "vfs_wf u \<and> faults u = faults v" and m: "os_mkdir u ds c = Inr u'" and "\<exists>e. ds @ c # e = rev ps"
  then have "normal_comp c" using assms(3) by (metis in_set_conv_decomp list_all_iff set_rev)
  then show "vfs_wf u' \<and> faults u' = faults v"
    using u m os_mkdir_wf by (auto elim: os_mkdir_cases)
qed (use assms(2) in simp)

end
