(* ===== verification/Envelope.thy ===== *)
theory Envelope
  imports Go_Strings
begin

text \<open>
  The tool-call envelope, \<^verbatim>\<open>internal/envelope\<close>: the typed inputs, the list of
  supported tools and \<^verbatim>\<open>ParseInput\<close>. A raw message is a parsed JSON value here
  (\<^const>\<open>None\<close>: no bytes at all); decoding into a struct follows
  \<^verbatim>\<open>encoding/json\<close>: keys match field names up to case folding, \<^verbatim>\<open>null\<close> leaves a
  field alone, a later duplicate wins, unknown keys are ignored, and a value of the wrong
  type or an integer out of range makes the whole decoding fail.
\<close>

section \<open>JSON values and struct decoding\<close>

datatype json =
    JNull | JBool bool | JInt int | JReal string | JStr string
  | JArr "json list" | JObj "(string \<times> json) list"

type_synonym members = "(string \<times> json) list"

datatype parse_error =
    NotAnObject
  | BadField string
  | MissingField string
  | SameStrings
  | BadOutputMode string
  | NegativeTimeout
  | NoSuchTool string

definition name_matches :: "string \<Rightarrow> string \<Rightarrow> bool" where
  "name_matches f k = (map fold_rune (runes k) = map fold_rune (runes f))"

definition field_values :: "string \<Rightarrow> members \<Rightarrow> json list" where
  "field_values f ms = filter (\<lambda>v. v \<noteq> JNull) (map snd (filter (\<lambda>m. name_matches f (fst m)) ms))"

fun as_string :: "json \<Rightarrow> string option" where
  "as_string (JStr s) = Some s"
| "as_string _ = None"

fun as_bool :: "json \<Rightarrow> bool option" where
  "as_bool (JBool b) = Some b"
| "as_bool _ = None"

fun as_int :: "json \<Rightarrow> int option" where
  "as_int (JInt i) = (if int64_range i then Some i else None)"
| "as_int _ = None"

definition dec_values :: "(json \<Rightarrow> 'a option) \<Rightarrow> 'a \<Rightarrow> string \<Rightarrow> json list \<Rightarrow> parse_error + 'a" where
  "dec_values conv zero f js =
     (let vs = map conv js
      in if list_ex (\<lambda>v. v = None) vs then Inl (BadField f)
         else if vs = [] then Inr zero else Inr (the (last vs)))"

definition dec_field :: "(json \<Rightarrow> 'a option) \<Rightarrow> 'a \<Rightarrow> string \<Rightarrow> members \<Rightarrow> parse_error + 'a" where
  "dec_field conv zero f ms = dec_values conv zero f (field_values f ms)"

abbreviation "dec_string \<equiv> dec_field as_string []"
abbreviation "dec_int \<equiv> dec_field as_int 0"
abbreviation "dec_bool \<equiv> dec_field as_bool False"

definition raw_members :: "json option \<Rightarrow> parse_error + members" where
  "raw_members raw =
     (case raw of None \<Rightarrow> Inr [] | Some JNull \<Rightarrow> Inr [] | Some (JObj ms) \<Rightarrow> Inr ms | Some _ \<Rightarrow> Inl NotAnObject)"

section \<open>The typed inputs\<close>

record read_input =
  ri_file_path :: string
  ri_offset :: int
  ri_limit :: int

record write_input =
  wi_file_path :: string
  wi_content :: string

record edit_input =
  ei_file_path :: string
  ei_old_string :: string
  ei_new_string :: string
  ei_replace_all :: bool

record glob_input =
  gi_pattern :: string
  gi_path :: string

record grep_input =
  gr_pattern :: string
  gr_path :: string
  gr_glob :: string
  gr_type :: string
  gr_output_mode :: string
  gr_case_insensitive :: bool
  gr_line_numbers :: bool
  gr_after :: int
  gr_before :: int
  gr_context :: int
  gr_multiline :: bool
  gr_head_limit :: int
  gr_offset :: int

record bash_input =
  bi_command :: string
  bi_timeout :: int
  bi_description :: string
  bi_background :: bool

record bash_output_input =
  bo_bash_id :: string
  bo_filter :: string

record kill_shell_input =
  ks_shell_id :: string

datatype tool_input =
    ReadIn read_input | WriteIn write_input | EditIn edit_input | GlobIn glob_input
  | GrepIn grep_input | BashIn bash_input | BashOutputIn bash_output_input | KillShellIn kill_shell_input

section \<open>Supported tools\<close>

definition supported_tools :: "string list" where
  "supported_tools = [''Bash'', ''BashOutput'', ''Edit'', ''Glob'', ''Grep'', ''KillShell'', ''Read'', ''Write'']"

definition is_supported :: "string \<Rightarrow> bool" where
  "is_supported tool = (tool \<in> set supported_tools)"

section \<open>ParseInput\<close>

definition dec_read :: "members \<Rightarrow> parse_error + read_input" where
  "dec_read ms =
     then_ok (dec_string ''file_path'' ms) (\<lambda>f.
     then_ok (dec_int ''offset'' ms) (\<lambda>off.
     then_ok (dec_int ''limit'' ms) (\<lambda>l.
       Inr \<lparr>ri_file_path = f, ri_offset = off, ri_limit = l\<rparr>)))"

definition dec_write :: "members \<Rightarrow> parse_error + write_input" where
  "dec_write ms =
     then_ok (dec_string ''file_path'' ms) (\<lambda>f.
     then_ok (dec_string ''content'' ms) (\<lambda>c.
       Inr \<lparr>wi_file_path = f, wi_content = c\<rparr>))"

definition dec_edit :: "members \<Rightarrow> parse_error + edit_input" where
  "dec_edit ms =
     then_ok (dec_string ''file_path'' ms) (\<lambda>f.
     then_ok (dec_string ''old_string'' ms) (\<lambda>old.
     then_ok (dec_string ''new_string'' ms) (\<lambda>new.
     then_ok (dec_bool ''replace_all'' ms) (\<lambda>all.
       Inr \<lparr>ei_file_path = f, ei_old_string = old, ei_new_string = new, ei_replace_all = all\<rparr>))))"

definition dec_glob :: "members \<Rightarrow> parse_error + glob_input" where
  "dec_glob ms =
     then_ok (dec_string ''pattern'' ms) (\<lambda>p.
     then_ok (dec_string ''path'' ms) (\<lambda>d.
       Inr \<lparr>gi_pattern = p, gi_path = d\<rparr>))"

definition dec_grep :: "members \<Rightarrow> parse_error + grep_input" where
  "dec_grep ms =
     then_ok (dec_string ''pattern'' ms) (\<lambda>p.
     then_ok (dec_string ''path'' ms) (\<lambda>d.
     then_ok (dec_string ''glob'' ms) (\<lambda>g.
     then_ok (dec_string ''type'' ms) (\<lambda>t.
     then_ok (dec_string ''output_mode'' ms) (\<lambda>om.
     then_ok (dec_bool ''-i'' ms) (\<lambda>i.
     then_ok (dec_bool ''-n'' ms) (\<lambda>n.
     then_ok (dec_int ''-A'' ms) (\<lambda>a.
     then_ok (dec_int ''-B'' ms) (\<lambda>b.
     then_ok (dec_int ''-C'' ms) (\<lambda>c.
     then_ok (dec_bool ''multiline'' ms) (\<lambda>m.
     then_ok (dec_int ''head_limit'' ms) (\<lambda>h.
     then_ok (dec_int ''offset'' ms) (\<lambda>off.
       Inr \<lparr>gr_pattern = p, gr_path = d, gr_glob = g, gr_type = t, gr_output_mode = om,
            gr_case_insensitive = i, gr_line_numbers = n, gr_after = a, gr_before = b,
            gr_context = c, gr_multiline = m, gr_head_limit = h, gr_offset = off\<rparr>)))))))))))))"

definition dec_bash :: "members \<Rightarrow> parse_error + bash_input" where
  "dec_bash ms =
     then_ok (dec_string ''command'' ms) (\<lambda>c.
     then_ok (dec_int ''timeout'' ms) (\<lambda>t.
     then_ok (dec_string ''description'' ms) (\<lambda>d.
     then_ok (dec_bool ''run_in_background'' ms) (\<lambda>b.
       Inr \<lparr>bi_command = c, bi_timeout = t, bi_description = d, bi_background = b\<rparr>))))"

definition dec_bash_output :: "members \<Rightarrow> parse_error + bash_output_input" where
  "dec_bash_output ms =
     then_ok (dec_string ''bash_id'' ms) (\<lambda>i.
     then_ok (dec_string ''filter'' ms) (\<lambda>f.
       Inr \<lparr>bo_bash_id = i, bo_filter = f\<rparr>))"

definition dec_kill_shell :: "members \<Rightarrow> parse_error + kill_shell_input" where
  "dec_kill_shell ms = then_ok (dec_string ''shell_id'' ms) (\<lambda>i. Inr \<lparr>ks_shell_id = i\<rparr>)"

definition output_modes :: "string list" where
  "output_modes = [[], ''content'', ''files_with_matches'', ''count'']"

definition parse_input :: "string \<Rightarrow> json option \<Rightarrow> parse_error + tool_input" where
  "parse_input tool raw =
     (if tool = ''Read'' then
        then_ok (then_ok (raw_members raw) dec_read) (\<lambda>v.
        check_that (ri_file_path v \<noteq> []) (MissingField ''file_path'') (Inr (ReadIn v)))
      else if tool = ''Write'' then
        then_ok (then_ok (raw_members raw) dec_write) (\<lambda>v.
        check_that (wi_file_path v \<noteq> []) (MissingField ''file_path'') (Inr (WriteIn v)))
      else if tool = ''Edit'' then
        then_ok (then_ok (raw_members raw) dec_edit) (\<lambda>v.
        check_that (ei_file_path v \<noteq> []) (MissingField ''file_path'') (
        check_that (ei_old_string v \<noteq> []) (MissingField ''old_string'') (
        check_that (ei_old_string v \<noteq> ei_new_string v) SameStrings (Inr (EditIn v)))))
      else if tool = ''Glob'' then
        then_ok (then_ok (raw_members raw) dec_glob) (\<lambda>v.
        check_that (gi_pattern v \<noteq> []) (MissingField ''pattern'') (Inr (GlobIn v)))
      else if tool = ''Grep'' then
        then_ok (then_ok (raw_members raw) dec_grep) (\<lambda>v.
        check_that (gr_pattern v \<noteq> []) (MissingField ''pattern'') (
        check_that (gr_output_mode v \<in> set output_modes) (BadOutputMode (gr_output_mode v)) (Inr (GrepIn v))))
      else if tool = ''Bash'' then
        then_ok (then_ok (raw_members raw) dec_bash) (\<lambda>v.
        check_that (bi_command v \<noteq> []) (MissingField ''command'') (
        check_that (0 \<le> bi_timeout v) NegativeTimeout (Inr (BashIn v))))
      else if tool = ''BashOutput'' then
        then_ok (then_ok (raw_members raw) dec_bash_output) (\<lambda>v.
        check_that (bo_bash_id v \<noteq> []) (MissingField ''bash_id'') (Inr (BashOutputIn v)))
      else if tool = ''KillShell'' then
        then_ok (then_ok (raw_members raw) dec_kill_shell) (\<lambda>v.
        check_that (ks_shell_id v \<noteq> []) (MissingField ''shell_id'') (Inr (KillShellIn v)))
      else Inl (NoSuchTool tool))"

section \<open>What a parsed input satisfies\<close>

fun tool_of :: "tool_input \<Rightarrow> string" where
  "tool_of (ReadIn _) = ''Read''"
| "tool_of (WriteIn _) = ''Write''"
| "tool_of (EditIn _) = ''Edit''"
| "tool_of (GlobIn _) = ''Glob''"
| "tool_of (GrepIn _) = ''Grep''"
| "tool_of (BashIn _) = ''Bash''"
| "tool_of (BashOutputIn _) = ''BashOutput''"
| "tool_of (KillShellIn _) = ''KillShell''"

fun input_ok :: "tool_input \<Rightarrow> bool" where
  "input_ok (ReadIn v) = (ri_file_path v \<noteq> [] \<and> int64_range (ri_offset v) \<and> int64_range (ri_limit v))"
| "input_ok (WriteIn v) = (wi_file_path v \<noteq> [])"
| "input_ok (EditIn v) = (ei_file_path v \<noteq> [] \<and> ei_old_string v \<noteq> [] \<and> ei_old_string v \<noteq> ei_new_string v)"
| "input_ok (GlobIn v) = (gi_pattern v \<noteq> [])"
| "input_ok (GrepIn v) = (gr_pattern v \<noteq> [] \<and> gr_output_mode v \<in> set output_modes \<and>
     int64_range (gr_after v) \<and> int64_range (gr_before v) \<and> int64_range (gr_context v) \<and>
     int64_range (gr_head_limit v) \<and> int64_range (gr_offset v))"
| "input_ok (BashIn v) = (bi_command v \<noteq> [] \<and> 0 \<le> bi_timeout v \<and> int64_range (bi_timeout v))"
| "input_ok (BashOutputIn v) = (bo_bash_id v \<noteq> [])"
| "input_ok (KillShellIn v) = (ks_shell_id v \<noteq> [])"

lemma dec_int_range: "dec_int f ms = Inr i \<Longrightarrow> int64_range i"
proof -
  assume d: "dec_int f ms = Inr i"
  have r: "as_int v = Some j \<Longrightarrow> int64_range j" for v j
    by (cases v) (auto split: if_splits)
  let ?vs = "map as_int (field_values f ms)"
  show ?thesis
  proof (cases "?vs = []")
    case False
    from d have "\<forall>v\<in>set ?vs. v \<noteq> None" by (auto simp: dec_field_def dec_values_def list_ex_iff Let_def image_iff split: if_splits) (metis not_None_eq)
    then obtain j where j: "last ?vs = Some j" using False by (meson last_in_set not_None_eq)
    with d False have "i = j" by (auto simp: dec_field_def dec_values_def Let_def split: if_splits)
    moreover have "\<exists>v. as_int v = Some j" using j False by (metis last_map map_is_Nil_conv)
    ultimately show ?thesis using r by blast
  qed (use d in \<open>auto simp: dec_field_def dec_values_def\<close>)
qed

lemma parse_input_tool: "parse_input tool raw = Inr i \<Longrightarrow> tool_of i = tool"
  by (auto simp: parse_input_def result_iffs split: if_splits)

lemma parse_input_wf: "parse_input tool raw = Inr i \<Longrightarrow> input_ok i"
  by (auto simp: parse_input_def result_iffs dec_read_def dec_write_def dec_edit_def dec_glob_def
      dec_grep_def dec_bash_def dec_bash_output_def dec_kill_shell_def
      split: if_splits dest: dec_int_range)

section \<open>Encoding\<close>

text \<open>
  \<^verbatim>\<open>json.Marshal\<close> of a typed input by its struct tags: the members in field order,
  without the zero values of fields marked \<^verbatim>\<open>omitempty\<close>.
\<close>

definition opt_member :: "string \<Rightarrow> json \<Rightarrow> bool \<Rightarrow> members" where
  "opt_member k v present = (if present then [(k, v)] else [])"

definition str_member :: "string \<Rightarrow> string \<Rightarrow> members" where
  "str_member k v = opt_member k (JStr v) (v \<noteq> [])"

definition int_member :: "string \<Rightarrow> int \<Rightarrow> members" where
  "int_member k v = opt_member k (JInt v) (v \<noteq> 0)"

definition bool_member :: "string \<Rightarrow> bool \<Rightarrow> members" where
  "bool_member k v = opt_member k (JBool v) v"

fun encode_input :: "tool_input \<Rightarrow> members" where
  "encode_input (ReadIn v) = [(''file_path'', JStr (ri_file_path v))] @ int_member ''offset'' (ri_offset v)
     @ int_member ''limit'' (ri_limit v)"
| "encode_input (WriteIn v) = [(''file_path'', JStr (wi_file_path v)), (''content'', JStr (wi_content v))]"
| "encode_input (EditIn v) = [(''file_path'', JStr (ei_file_path v)), (''old_string'', JStr (ei_old_string v)),
     (''new_string'', JStr (ei_new_string v))] @ bool_member ''replace_all'' (ei_replace_all v)"
| "encode_input (GlobIn v) = [(''pattern'', JStr (gi_pattern v))] @ str_member ''path'' (gi_path v)"
| "encode_input (GrepIn v) = [(''pattern'', JStr (gr_pattern v))] @ str_member ''path'' (gr_path v)
     @ str_member ''glob'' (gr_glob v) @ str_member ''type'' (gr_type v)
     @ str_member ''output_mode'' (gr_output_mode v) @ bool_member ''-i'' (gr_case_insensitive v)
     @ bool_member ''-n'' (gr_line_numbers v) @ int_member ''-A'' (gr_after v)
     @ int_member ''-B'' (gr_before v) @ int_member ''-C'' (gr_context v)
     @ bool_member ''multiline'' (gr_multiline v) @ int_member ''head_limit'' (gr_head_limit v)
     @ int_member ''offset'' (gr_offset v)"
| "encode_input (BashIn v) = [(''command'', JStr (bi_command v))] @ int_member ''timeout'' (bi_timeout v)
     @ str_member ''description'' (bi_description v) @ bool_member ''run_in_background'' (bi_background v)"
| "encode_input (BashOutputIn v) = [(''bash_id'', JStr (bo_bash_id v))] @ str_member ''filter'' (bo_filter v)"
| "encode_input (KillShellIn v) = [(''shell_id'', JStr (ks_shell_id v))]"

named_theorems field_simps \<open>looking a field up among members\<close>

lemma field_values_append [field_simps]: "field_values f (ms @ ns) = field_values f ms @ field_values f ns"
  by (simp add: field_values_def)

lemma field_values_Cons [field_simps]: "field_values f ((k, v) # ms) =
    (if name_matches f k \<and> v \<noteq> JNull then [v] else []) @ field_values f ms"
  by (simp add: field_values_def)

lemma field_values_Nil [field_simps]: "field_values f [] = []"
  by (simp add: field_values_def)

lemma field_values_opt [field_simps]:
  "field_values f (opt_member k v b) = (if b \<and> name_matches f k \<and> v \<noteq> JNull then [v] else [])"
  by (simp add: opt_member_def field_simps)

lemma dec_values_one [field_simps]:
  "dec_values conv zero f [v] = (case conv v of None \<Rightarrow> Inl (BadField f) | Some x \<Rightarrow> Inr x)"
  by (auto simp: dec_values_def Let_def split: option.splits)

lemma dec_values_Nil [field_simps]: "dec_values conv zero f [] = Inr zero"
  by (simp add: dec_values_def)

lemma dec_values_opt [field_simps]:
  "dec_values as_string [] f (if s = [] then [] else [JStr s]) = Inr s"
  "int64_range i \<Longrightarrow> dec_values as_int 0 f (if i = 0 then [] else [JInt i]) = Inr i"
  "dec_values as_bool False f (if b then [JBool b] else []) = Inr b"
  "dec_values as_string [] f (if s \<noteq> [] then [JStr s] else []) = Inr s"
  "int64_range i \<Longrightarrow> dec_values as_int 0 f (if i \<noteq> 0 then [JInt i] else []) = Inr i"
  by (simp_all add: dec_values_def)

lemma name_matches_refl [field_simps]: "name_matches f f"
  by (simp add: name_matches_def)

text \<open>Folded names of the fields, so that comparing two of them is evaluation.\<close>

lemma name_matches_ascii: "ascii f \<Longrightarrow> ascii k \<Longrightarrow>
    name_matches f k \<longleftrightarrow> map (fold_rune \<circ> byte) k = map (fold_rune \<circ> byte) f"
proof -
  have "ascii s \<Longrightarrow> runes s = map byte s" for s
    by (induction s) (auto simp: ascii_def runes_ascii_Cons)
  then show "ascii f \<Longrightarrow> ascii k \<Longrightarrow> ?thesis" by (simp add: name_matches_def)
qed

lemmas encode_simps = parse_input_def raw_members_def dec_field_def field_simps
  int_member_def str_member_def bool_member_def name_matches_ascii ascii_def fold_rune_def

lemma parse_encode_small:
  "input_ok (ReadIn r) \<Longrightarrow> parse_input ''Read'' (Some (JObj (encode_input (ReadIn r)))) = Inr (ReadIn r)"
  "input_ok (WriteIn w) \<Longrightarrow> parse_input ''Write'' (Some (JObj (encode_input (WriteIn w)))) = Inr (WriteIn w)"
  "input_ok (GlobIn g) \<Longrightarrow> parse_input ''Glob'' (Some (JObj (encode_input (GlobIn g)))) = Inr (GlobIn g)"
  "input_ok (BashOutputIn b) \<Longrightarrow> parse_input ''BashOutput'' (Some (JObj (encode_input (BashOutputIn b)))) = Inr (BashOutputIn b)"
  "input_ok (KillShellIn k) \<Longrightarrow> parse_input ''KillShell'' (Some (JObj (encode_input (KillShellIn k)))) = Inr (KillShellIn k)"
  by (simp_all add: encode_simps dec_read_def dec_write_def dec_glob_def dec_bash_output_def dec_kill_shell_def)

lemma parse_encode_edit:
  "input_ok (EditIn e) \<Longrightarrow> parse_input ''Edit'' (Some (JObj (encode_input (EditIn e)))) = Inr (EditIn e)"
  by (simp add: encode_simps dec_edit_def)

lemma parse_encode_bash:
  "input_ok (BashIn b) \<Longrightarrow> parse_input ''Bash'' (Some (JObj (encode_input (BashIn b)))) = Inr (BashIn b)"
  by (simp add: encode_simps dec_bash_def)

lemma dec_encode_grep:
  assumes "int64_range (gr_after g)" "int64_range (gr_before g)" "int64_range (gr_context g)"
    "int64_range (gr_head_limit g)" "int64_range (gr_offset g)"
  shows "dec_grep (encode_input (GrepIn g)) = Inr g"
  using assms by (simp add: encode_simps dec_grep_def split del: if_split)

lemma parse_encode_grep:
  "input_ok (GrepIn g) \<Longrightarrow> parse_input ''Grep'' (Some (JObj (encode_input (GrepIn g)))) = Inr (GrepIn g)"
  by (simp add: parse_input_def raw_members_def dec_encode_grep del: encode_input.simps)

text \<open>
  C32. What \<^verbatim>\<open>ParseInput\<close> returns is the input of the named tool, and every
  well-formed input is returned exactly when it is encoded by its own struct tags: the
  wire format loses nothing.
\<close>

theorem parse_encode:
  "(parse_input tool raw = Inr i \<longrightarrow> tool_of i = tool \<and> input_ok i \<and> is_supported tool)
   \<and> (input_ok i \<longrightarrow> parse_input (tool_of i) (Some (JObj (encode_input i))) = Inr i)"
proof (intro conjI impI)
  assume p: "parse_input tool raw = Inr i"
  show "tool_of i = tool" using p by (rule parse_input_tool)
  then show "is_supported tool" by (cases i) (auto simp: is_supported_def supported_tools_def)
  show "input_ok i" using p by (rule parse_input_wf)
next
  assume "input_ok i"
  then show "parse_input (tool_of i) (Some (JObj (encode_input i))) = Inr i"
    using parse_encode_small parse_encode_edit parse_encode_bash parse_encode_grep
    by (cases i) (simp_all del: encode_input.simps input_ok.simps)
qed

lemma parse_encode_witness:
  "parse_input ''Bash'' (Some (JObj (encode_input (BashIn \<lparr>bi_command = ''ls'', bi_timeout = 5,
      bi_description = [], bi_background = True\<rparr>)))) =
     Inr (BashIn \<lparr>bi_command = ''ls'', bi_timeout = 5, bi_description = [], bi_background = True\<rparr>)"
  using parse_encode [of _ _ "BashIn \<lparr>bi_command = ''ls'', bi_timeout = 5, bi_description = [], bi_background = True\<rparr>"]
  by simp

end
