(* ===== verification/Harness.thy ===== *)
theory Harness
  imports Session Vfs Envelope "HOL-Library.Product_Lexorder"
begin

text \<open>
  The tools, \<^verbatim>\<open>internal/harness\<close>. They act on the sandbox: the sessions and the file
  system. What the tools call outside the repository is the record \<open>system\<close>: running a
  script, launching a background process, \<^verbatim>\<open>regexp\<close>, the \<^verbatim>\<open>doublestar\<close> and
  \<^verbatim>\<open>rg\<close> matchers, directory trees and listings, and the texts of system errors.
\<close>

section \<open>The surroundings\<close>

datatype dtree = DFile "time option" | DDir "(string \<times> dtree) list" | DUnreadable

record rg_outcome =
  rg_failed :: "string option"
  rg_exit :: int
  rg_stdout :: string
  rg_stderr :: string

record system =
  sys_environ :: "string list"
  sys_tmp :: "string + string"
  sys_run :: "vfs \<Rightarrow> string \<Rightarrow> string \<Rightarrow> string list \<Rightarrow> duration \<Rightarrow> fg_process \<times> vfs"
  sys_launch :: "string \<Rightarrow> string \<Rightarrow> string list \<Rightarrow> string option"
  sys_regexp :: "string \<Rightarrow> (string \<Rightarrow> bool) option"
  sys_regexp_err :: "string \<Rightarrow> string"
  sys_glob :: "string \<Rightarrow> string \<Rightarrow> bool option"
  sys_split :: "string \<Rightarrow> string \<times> string"
  sys_tree :: "vfs \<Rightarrow> string \<Rightarrow> dtree"
  sys_readdir :: "vfs \<Rightarrow> string \<Rightarrow> (string \<times> bool) list option"
  sys_fold :: "string \<Rightarrow> string \<Rightarrow> bool"
  sys_err :: "string \<Rightarrow> string \<Rightarrow> os_err \<Rightarrow> string"
  sys_rg :: "(vfs \<Rightarrow> string list \<Rightarrow> rg_outcome) option"
  sys_mtime :: "vfs \<Rightarrow> string \<Rightarrow> time option"

record sandbox =
  sb_mgr :: manager
  sb_vfs :: vfs

record tool_result =
  tr_text :: string
  tr_error :: bool
  tr_exit :: "int option"

definition ok_text :: "string \<Rightarrow> tool_result" where
  "ok_text s = \<lparr>tr_text = s, tr_error = False, tr_exit = None\<rparr>"

definition err_text :: "string \<Rightarrow> tool_result" where
  "err_text s = \<lparr>tr_text = s, tr_error = True, tr_exit = None\<rparr>"

section \<open>harness.go\<close>

abbreviation max_output_bytes :: nat where "max_output_bytes \<equiv> 30000"
abbreviation read_default_limit :: int where "read_default_limit \<equiv> 2000"
abbreviation read_max_line_len :: nat where "read_max_line_len \<equiv> 2000"
abbreviation bash_default_timeout :: int where "bash_default_timeout \<equiv> 120000"
abbreviation bash_max_timeout :: int where "bash_max_timeout \<equiv> 600000"

definition abs_in :: "string \<Rightarrow> string \<Rightarrow> string" where
  "abs_in cwd p =
     (if p = [] then cwd
      else path_clean (if is_abs p then p else path_join [cwd, p]))"

definition truncate_text :: "string \<Rightarrow> nat \<Rightarrow> string" where
  "truncate_text s mx =
     (if length s \<le> mx then s
      else take mx s @ [nl] @ ''... ['' @ dec (length s - mx) @ '' bytes truncated] ...'')"

section \<open>fileops.go\<close>

abbreviation tab :: char where "tab \<equiv> CHR 0x09"

definition read_truncation_marker :: string where
  "read_truncation_marker = [nl] @ ''... [output truncated: use offset/limit to view more] ...''"

definition split_file_lines :: "string \<Rightarrow> string list" where
  "split_file_lines content = split_char nl (trim_suffix content [nl])"

definition truncate_line :: "string \<Rightarrow> string" where
  "truncate_line line =
     (if rune_count line \<le> read_max_line_len then line
      else string_of_runes (take read_max_line_len (runes line)))"

definition cat_n :: "nat \<Rightarrow> string \<Rightarrow> string" where
  "cat_n k line = pad_left 6 (dec k) @ [tab] @ line"

definition did_you_mean :: "system \<Rightarrow> vfs \<Rightarrow> string \<Rightarrow> string" where
  "did_you_mean sys v path =
     (let dir = path_dir path; base = path_base path;
          baseNoExt = trim_suffix base (path_ext base)
      in case sys_readdir sys v dir of None \<Rightarrow> []
         | Some es \<Rightarrow>
             (case find (\<lambda>(name, isdir). \<not> (name = base \<or> isdir) \<and>
                 (equal_fold (sys_fold sys) name base \<or> trim_suffix name (path_ext name) = baseNoExt)) es of
                None \<Rightarrow> [] | Some (name, _) \<Rightarrow> path_join [dir, name]))"

text \<open>The builder loop of \<^verbatim>\<open>readTool\<close>: the text so far, the line number, the lines left.\<close>

fun read_loop :: "string \<Rightarrow> nat \<Rightarrow> string list \<Rightarrow> string" where
  "read_loop b k [] = b"
| "read_loop b k (l # ls) =
     (let formatted = cat_n k (truncate_line l); sep = (if b \<noteq> [] then [nl] else [])
      in if length b + length sep + length formatted > max_output_bytes
         then b @ read_truncation_marker
         else read_loop (b @ sep @ formatted) (Suc k) ls)"

definition read_content :: "read_input \<Rightarrow> string \<Rightarrow> string \<Rightarrow> tool_result" where
  "read_content i path data =
     (if CHR 0x00 \<in> set (take 8192 data) then err_text (''Cannot read binary file: '' @ path)
      else
        let ls = split_file_lines data; n = int (length ls);
            offset = (if ri_offset i \<le> 0 then 1 else ri_offset i)
        in if offset > n
           then err_text (''Offset '' @ itoa (ri_offset i) @ '' is past the end of the file (file has '' @ itoa n @ '' lines)'')
           else let limit = (if ri_limit i \<le> 0 then read_default_limit else ri_limit i);
                    end0 = wrap64 (wrap64 (offset + limit) - 1);
                    end = (if end0 > n then n else end0)
                in ok_text (read_loop [] (nat offset)
                     (take (nat (end - offset + 1)) (drop (nat (offset - 1)) ls))))"

definition read_tool :: "system \<Rightarrow> string \<Rightarrow> read_input \<Rightarrow> vfs \<Rightarrow> tool_result" where
  "read_tool sys cwd i v =
     (let path = abs_in cwd (ri_file_path i)
      in case os_stat v path of
           Inl ENOENT \<Rightarrow>
             (let s = did_you_mean sys v path
              in err_text (''File does not exist.'' @ (if s \<noteq> [] then [nl] @ ''Did you mean '' @ s @ ''?'' else [])))
         | Inl e \<Rightarrow> err_text (sys_err sys ''stat'' path e)
         | Inr (l, DirN) \<Rightarrow> err_text ''EISDIR: illegal operation on a directory, read''
         | Inr (l, n) \<Rightarrow>
             if n = FileN [] then ok_text ''<system-reminder>Warning: the file exists but the contents are empty.</system-reminder>''
             else case os_read_file v path of
                    Inl e \<Rightarrow> err_text (sys_err sys ''open'' path e)
                  | Inr data \<Rightarrow> read_content i path data)"

definition path_comps :: "string \<Rightarrow> string list" where
  "path_comps p = clean_comps True p"

definition write_tool :: "system \<Rightarrow> string \<Rightarrow> write_input \<Rightarrow> vfs \<Rightarrow> tool_result \<times> vfs" where
  "write_tool sys cwd i v =
     (let path = abs_in cwd (wi_file_path i);
          existed = (case os_stat v path of Inl _ \<Rightarrow> False | Inr _ \<Rightarrow> True)
      in if (case os_stat v path of Inr (l, DirN) \<Rightarrow> True | _ \<Rightarrow> False)
         then (err_text (''EISDIR: illegal operation on a directory, open '' @ [CHR 0x27] @ path @ [CHR 0x27]), v)
         else case os_mkdir_all v (rev (path_comps (path_dir path))) of
                (Some e, v1) \<Rightarrow> (err_text (sys_err sys ''mkdir'' (path_dir path) e), v1)
              | (None, v1) \<Rightarrow>
                  (case os_write_file v1 path (wi_content i) of
                     Inl e \<Rightarrow> (err_text (sys_err sys ''open'' path e), v1)
                   | Inr v2 \<Rightarrow>
                       (ok_text (if existed then ''The file '' @ path @ '' has been updated.''
                                 else ''File created successfully at: '' @ path), v2)))"

text \<open>The snippet \<^verbatim>\<open>editTool\<close> shows: the lines around the first replacement.\<close>

definition edit_window :: "edit_input \<Rightarrow> string \<Rightarrow> string \<Rightarrow> int \<times> int" where
  "edit_window i content new =
     (let idx = the (index_of content (ei_old_string i));
          startLine = int (str_count (take idx content) [nl]) + 1;
          endLine = int (str_count (take (idx + length (ei_new_string i)) new) [nl]) + 1;
          n = int (length (split_file_lines new));
          from0 = startLine - 4; to0 = endLine + 4
      in (if from0 < 1 then 1 else from0, if to0 > n then n else to0))"

definition edit_snippet :: "edit_input \<Rightarrow> string \<Rightarrow> string \<Rightarrow> string" where
  "edit_snippet i content new =
     (case edit_window i content new of (from, to) \<Rightarrow>
        join_with [nl] (map (\<lambda>k. cat_n k (truncate_line (split_file_lines new ! (k - 1)))) [nat from ..< Suc (nat to)]))"

definition edit_apply :: "edit_input \<Rightarrow> string \<Rightarrow> string + string" where
  "edit_apply i content =
     (let count = str_count content (ei_old_string i)
      in if count = 0
         then Inl (''String to replace not found in file.'' @ [nl] @ ''String: '' @ ei_old_string i)
         else if count > 1 \<and> \<not> ei_replace_all i
         then Inl (''Found '' @ dec count @ '' matches of the string to replace, but replace_all is false. To replace all occurrences, set replace_all to true. To replace only one occurrence, please provide more context to uniquely identify the instance.'' @ [nl] @ ''String: '' @ ei_old_string i)
         else Inr (str_replace content (ei_old_string i) (ei_new_string i) (if ei_replace_all i then -1 else 1)))"

definition edit_tool :: "system \<Rightarrow> string \<Rightarrow> edit_input \<Rightarrow> vfs \<Rightarrow> tool_result \<times> vfs" where
  "edit_tool sys cwd i v =
     (let path = abs_in cwd (ei_file_path i)
      in case os_read_file v path of
           Inl ENOENT \<Rightarrow> (err_text ''File does not exist.'', v)
         | Inl e \<Rightarrow> (err_text (sys_err sys ''open'' path e), v)
         | Inr content \<Rightarrow>
             (case edit_apply i content of Inl m \<Rightarrow> (err_text m, v)
              | Inr new \<Rightarrow>
                  (case os_write_file v path new of
                     Inl e \<Rightarrow> (err_text (sys_err sys ''open'' path e), v)
                   | Inr v' \<Rightarrow>
                       (ok_text (''The file '' @ path @ '' has been updated. Here'' @ [CHR 0x27] @
                          ''s the result of running `cat -n` on a snippet of the edited file:'' @ [nl] @
                          edit_snippet i content new), v'))))"

section \<open>glob.go\<close>

abbreviation glob_max_results :: nat where "glob_max_results \<equiv> 100"

definition glob_truncation_notice :: string where
  "glob_truncation_notice = ''(Results are truncated. Consider using a more specific path or pattern.)''"

definition glob_root_and_pattern :: "system \<Rightarrow> string \<Rightarrow> glob_input \<Rightarrow> string \<times> string" where
  "glob_root_and_pattern sys cwd i =
     (if is_abs (gi_pattern i)
      then (case sys_split sys (gi_pattern i) of (root, pat) \<Rightarrow> (path_clean root, pat))
      else (abs_in cwd (gi_path i), gi_pattern i))"

definition glob_search_root :: "system \<Rightarrow> string \<Rightarrow> glob_input \<Rightarrow> string" where
  "glob_search_root sys cwd i = fst (glob_root_and_pattern sys cwd i)"

text \<open>The zero \<^verbatim>\<open>time.Time\<close>, of a file whose information is unavailable.\<close>

definition zero_time :: time where
  "zero_time = -62135596800 * second"

text \<open>\<^verbatim>\<open>filepath.WalkDir\<close> with the callback's directory cases: the files it is asked about.\<close>

fun is_dir_tree :: "dtree \<Rightarrow> bool" where
  "is_dir_tree (DFile t) = False"
| "is_dir_tree _ = True"

fun dir_files :: "string \<Rightarrow> dtree \<Rightarrow> (string \<times> time) list" where
  "dir_files p (DFile t) = [(p, (case t of None \<Rightarrow> zero_time | Some mt \<Rightarrow> mt))]"
| "dir_files p DUnreadable = []"
| "dir_files p (DDir es) =
     concat (map (\<lambda>e. if fst e = ''.git'' \<and> is_dir_tree (snd e) then []
                      else dir_files (path_join [p, fst e]) (snd e)) es)"

definition glob_matches :: "system \<Rightarrow> vfs \<Rightarrow> string \<Rightarrow> string \<Rightarrow> (string \<times> time) list" where
  "glob_matches sys v root pat =
     filter (\<lambda>(p, t). case path_rel root p of None \<Rightarrow> False | Some rel \<Rightarrow> sys_glob sys pat rel = Some True)
       (dir_files root (sys_tree sys v root))"

definition glob_lines :: "(string \<times> time) list \<Rightarrow> string list" where
  "glob_lines ms =
     (let ps = map fst (sort_key (\<lambda>(p, t). (t, p)) ms)
      in if length ps > glob_max_results then take glob_max_results ps @ [glob_truncation_notice] else ps)"

definition glob_tool :: "system \<Rightarrow> string \<Rightarrow> glob_input \<Rightarrow> vfs \<Rightarrow> tool_result" where
  "glob_tool sys cwd i v =
     (case glob_root_and_pattern sys cwd i of (root, pat) \<Rightarrow>
        if sys_glob sys pat ''probe'' = None then err_text ''Invalid glob pattern: syntax error in pattern''
        else case os_stat v root of
               Inl ENOENT \<Rightarrow> err_text (''Path does not exist: '' @ root)
             | Inl e \<Rightarrow> err_text (sys_err sys ''stat'' root e)
             | Inr (l, n) \<Rightarrow>
                 if n \<noteq> DirN then err_text (''Path is not a directory: '' @ root)
                 else let ms = glob_matches sys v root pat
                      in if ms = [] then ok_text ''No files found''
                         else ok_text (truncate_text (join_with [nl] (glob_lines ms)) max_output_bytes))"

section \<open>grep.go\<close>

definition slice_lines :: "string list \<Rightarrow> int \<Rightarrow> int \<Rightarrow> string list" where
  "slice_lines ls offset limit =
     (if 0 < offset \<and> int (length ls) \<le> offset then []
      else let ls1 = (if 0 < offset then drop (nat offset) ls else ls)
           in if 0 < limit \<and> limit < int (length ls1) then take (nat limit) ls1 else ls1)"

definition grep_mode :: "grep_input \<Rightarrow> string" where
  "grep_mode i = (if gr_output_mode i = [] then ''files_with_matches'' else gr_output_mode i)"

definition context_flag :: "string \<Rightarrow> int \<Rightarrow> string list" where
  "context_flag f n = (if 0 < n then [f, itoa n] else [])"

definition grep_args :: "grep_input \<Rightarrow> string \<Rightarrow> string list" where
  "grep_args i root =
     [''--color=never'', ''--no-heading''] @
     (if grep_mode i = ''files_with_matches'' then [''-l'']
      else if grep_mode i = ''count'' then [''--count'']
      else if grep_mode i = ''content'' then
        [''-n''] @ context_flag ''-A'' (gr_after i) @ context_flag ''-B'' (gr_before i) @ context_flag ''-C'' (gr_context i)
      else []) @
     (if gr_case_insensitive i then [''-i''] else []) @
     (if gr_multiline i then [''-U'', ''--multiline-dotall''] else []) @
     (if gr_glob i \<noteq> [] then [''--glob'', gr_glob i] else []) @
     (if gr_type i \<noteq> [] then [''--type'', gr_type i] else []) @
     [''--'', gr_pattern i, root]"

definition newest_first :: "system \<Rightarrow> vfs \<Rightarrow> string list \<Rightarrow> string list" where
  "newest_first sys v ps =
     sort_key (\<lambda>p. (- (case sys_mtime sys v p of None \<Rightarrow> zero_time | Some t \<Rightarrow> t), p)) ps"

definition grep_output :: "system \<Rightarrow> grep_input \<Rightarrow> vfs \<Rightarrow> rg_outcome \<Rightarrow> tool_result" where
  "grep_output sys i v r =
     (if rg_exit r \<noteq> 0 \<and> rg_exit r \<noteq> 1
      then (let msg = trim_space (rg_stderr r)
            in err_text (if msg = [] then ''rg exited with code '' @ itoa (rg_exit r) else msg))
      else let out = trim_right_chars (rg_stdout r) [nl]
           in if rg_exit r = 1 \<or> out = []
              then ok_text (if grep_mode i = ''files_with_matches'' then ''No files found'' else ''No matches found'')
              else let ls = split_char nl out
                   in if grep_mode i = ''files_with_matches''
                      then let ps = slice_lines (newest_first sys v ls) (gr_offset i) (gr_head_limit i);
                               head = ''Found '' @ dec (length ls) @ '' files''
                           in ok_text (truncate_text (if ps \<noteq> [] then head @ [nl] @ join_with [nl] ps else head) max_output_bytes)
                      else let ls' = slice_lines ls (gr_offset i) (gr_head_limit i)
                           in ok_text (if ls' = [] then ''No matches found'' else truncate_text (join_with [nl] ls') max_output_bytes))"

definition grep_tool :: "system \<Rightarrow> string \<Rightarrow> grep_input \<Rightarrow> vfs \<Rightarrow> string + tool_result" where
  "grep_tool sys cwd i v =
     (case sys_rg sys of None \<Rightarrow> Inr (err_text ''ripgrep (rg) not found on PATH'')
      | Some rg \<Rightarrow>
          let r = rg v (grep_args i (abs_in cwd (gr_path i)))
          in case rg_failed r of Some e \<Rightarrow> Inl e | None \<Rightarrow> Inr (grep_output sys i v r))"

section \<open>bash.go\<close>

definition session_environ :: "system \<Rightarrow> session \<Rightarrow> string list" where
  "session_environ sys s =
     sys_environ sys @ map (\<lambda>k. k @ ''='' @ the (fmlookup (ss_env s) k)) (fm_keys (ss_env s))"

definition combine_output :: "string \<Rightarrow> string \<Rightarrow> string" where
  "combine_output stdout stderr =
     (let out = trim_right_chars stdout [nl]; err = trim_right_chars stderr [nl]
      in if err = [] then out else if out = [] then err else out @ [nl] @ err)"

definition append_final_line :: "string \<Rightarrow> string \<Rightarrow> string" where
  "append_final_line text line = (if text = [] then line else text @ [nl] @ line)"

definition clamp_timeout :: "int \<Rightarrow> int" where
  "clamp_timeout t0 =
     (let t = (if t0 \<le> 0 then bash_default_timeout else t0)
      in if t > bash_max_timeout then bash_max_timeout else t)"

text \<open>\<^verbatim>\<open>time.Duration.String\<close> for whole seconds below an hour.\<close>

definition seconds_string :: "nat \<Rightarrow> string" where
  "seconds_string n =
     (if n < 60 then dec n @ ''s'' else dec (n div 60) @ ''m'' @ dec (n mod 60) @ ''s'')"

definition bash_result :: "int \<Rightarrow> fg_result \<Rightarrow> tool_result" where
  "bash_result timeoutMs r =
     (let text = truncate_text (combine_output (fg_stdout r) (fg_stderr r)) max_output_bytes
      in if fg_timed_out r
         then err_text (append_final_line text (''Command timed out after '' @ seconds_string (nat (timeoutMs div 1000))))
         else if fg_exit r = 0
         then \<lparr>tr_text = text, tr_error = False, tr_exit = Some 0\<rparr>
         else \<lparr>tr_text = append_final_line text (''Exit code '' @ itoa (fg_exit r)), tr_error = True,
               tr_exit = Some (fg_exit r)\<rparr>)"

definition bash_tool :: "system \<Rightarrow> addr \<Rightarrow> bash_input \<Rightarrow> sandbox \<Rightarrow> (string + tool_result) \<times> sandbox" where
  "bash_tool sys a i sb =
     (let s = sess (sb_mgr sb) a; cwd = ss_cwd s; env = session_environ sys s
      in if bi_background i
         then (case start_shell (sys_launch sys (bi_command i) cwd env) (bi_command i) (ss_shells s) of
                 (Inl e, t) \<Rightarrow> (Inr (err_text (''Failed to start background shell: '' @ e)), sb)
               | (Inr shid, t) \<Rightarrow>
                   (Inr (ok_text (''Command running in background with ID: '' @ shid)),
                    sb\<lparr>sb_mgr := set_shells t a (sb_mgr sb)\<rparr>))
         else (let timeoutMs = clamp_timeout (bi_timeout i)
               in case run_foreground (sys_run sys (sb_vfs sb)) (sb_vfs sb) (sys_tmp sys) (bi_command i) cwd env (timeoutMs * millisecond) of
                    (Inl e, v') \<Rightarrow> (Inl e, sb\<lparr>sb_vfs := v'\<rparr>)
                  | (Inr r, v') \<Rightarrow>
                      (Inr (bash_result timeoutMs r),
                       sb\<lparr>sb_vfs := v',
                          sb_mgr := (if fg_new_cwd r \<noteq> [] \<and> fg_new_cwd r \<noteq> cwd
                                     then chdir (fg_new_cwd r) a (sb_mgr sb) else sb_mgr sb)\<rparr>)))"

definition block_content :: "string \<Rightarrow> string" where
  "block_content s = (if s = [] \<or> has_suffix s [nl] then s else s @ [nl])"

definition bash_output_text :: "shell \<Rightarrow> string \<Rightarrow> string \<Rightarrow> string" where
  "bash_output_text sh out err =
     ''<status>'' @ status_string (sh_status sh) @ ''</status>'' @ [nl] @
     (if sh_done sh then ''<exit_code>'' @ itoa (sh_exit sh) @ ''</exit_code>'' @ [nl] else []) @
     ''<stdout>'' @ [nl] @ block_content (truncate_text out max_output_bytes) @ ''</stdout>'' @
     (if err \<noteq> []
      then [nl] @ ''<stderr>'' @ [nl] @ block_content (truncate_text err max_output_bytes) @ ''</stderr>''
      else [])"

definition bash_output_tool :: "system \<Rightarrow> addr \<Rightarrow> bash_output_input \<Rightarrow> sandbox \<Rightarrow> tool_result \<times> sandbox" where
  "bash_output_tool sys a i sb =
     (let t = ss_shells (sess (sb_mgr sb) a)
      in case get_shell t (bo_bash_id i) of
           None \<Rightarrow>
             (err_text (''No shell found with ID: '' @ bo_bash_id i @
                (if list_shells t \<noteq> []
                 then [nl] @ ''Available shells: '' @ join_with '', '' (map sh_id (list_shells t)) else [])), sb)
         | Some sh \<Rightarrow>
             (case read_new (sys_regexp sys) (bo_filter i) sh of
                (None, sh') \<Rightarrow> (err_text (sys_regexp_err sys (bo_filter i)), sb)
              | (Some (out, err), sh') \<Rightarrow>
                  (ok_text (bash_output_text sh out err),
                   sb\<lparr>sb_mgr := set_shells (put_shell (bo_bash_id i) sh' t) a (sb_mgr sb)\<rparr>)))"

definition kill_shell_tool :: "addr \<Rightarrow> kill_shell_input \<Rightarrow> sandbox \<Rightarrow> tool_result \<times> sandbox" where
  "kill_shell_tool a i sb =
     (let t = ss_shells (sess (sb_mgr sb) a)
      in case get_shell t (ks_shell_id i) of
           None \<Rightarrow> (err_text (''No shell found with ID: '' @ ks_shell_id i), sb)
         | Some sh \<Rightarrow>
             if sh_status sh \<noteq> Running
             then (err_text (''Shell '' @ ks_shell_id i @ '' is not running (status: '' @ status_string (sh_status sh) @ '')''), sb)
             else (case table_kill (ks_shell_id i) t of
                     (Some e, t') \<Rightarrow> (err_text e, sb\<lparr>sb_mgr := set_shells t' a (sb_mgr sb)\<rparr>)
                   | (None, t') \<Rightarrow>
                       (ok_text (''Successfully killed shell: '' @ ks_shell_id i),
                        sb\<lparr>sb_mgr := set_shells t' a (sb_mgr sb)\<rparr>)))"

section \<open>Dispatch\<close>

definition on_vfs :: "tool_result \<times> vfs \<Rightarrow> sandbox \<Rightarrow> (string + tool_result) \<times> sandbox" where
  "on_vfs r sb = (Inr (fst r), sb\<lparr>sb_vfs := snd r\<rparr>)"

definition dispatch :: "system \<Rightarrow> addr \<Rightarrow> tool_input \<Rightarrow> sandbox \<Rightarrow> (string + tool_result) \<times> sandbox" where
  "dispatch sys a i sb =
     (let cwd = ss_cwd (sess (sb_mgr sb) a); v = sb_vfs sb
      in case i of
           ReadIn x \<Rightarrow> (Inr (read_tool sys cwd x v), sb)
         | WriteIn x \<Rightarrow> on_vfs (write_tool sys cwd x v) sb
         | EditIn x \<Rightarrow> on_vfs (edit_tool sys cwd x v) sb
         | GlobIn x \<Rightarrow> (Inr (glob_tool sys cwd x v), sb)
         | GrepIn x \<Rightarrow> (grep_tool sys cwd x v, sb)
         | BashIn x \<Rightarrow> bash_tool sys a x sb
         | BashOutputIn x \<Rightarrow> (case bash_output_tool sys a x sb of (r, sb') \<Rightarrow> (Inr r, sb'))
         | KillShellIn x \<Rightarrow> (case kill_shell_tool a x sb of (r, sb') \<Rightarrow> (Inr r, sb')))"

end
