(* ===== verification/Audit_Log.thy ===== *)
theory Audit_Log
  imports Go_Strings
begin

text \<open>
  The audit log, \<^verbatim>\<open>internal/audit\<close>: entries, the append-only logger, and
  \<^verbatim>\<open>RedactCommand\<close>, which decides how much of a command line is shown. \<open>sha\<close> is
  the hexadecimal SHA-256 digest.
\<close>

section \<open>Entries and the logger\<close>

record entry =
  en_time :: "time option"
  en_session :: string
  en_tool :: string
  en_input_digest :: string
  en_target :: string
  en_decision :: string
  en_rule :: string
  en_mode :: string
  en_exit_status :: "int option"
  en_duration_ms :: int
  en_error :: string

text \<open>\<^verbatim>\<open>Logger\<close>: \<open>lg_file\<close> is the open file's content, absent when disabled or closed.\<close>

record logger =
  lg_file :: "entry list option"

datatype log_fault = LogFine | MarshalFails string | WriteFails string | SyncFails string

definition new_logger :: "string \<Rightarrow> string + entry list \<Rightarrow> string + logger" where
  "new_logger path opened =
     (if path = [] then Inr \<lparr>lg_file = None\<rparr>
      else case opened of Inl e \<Rightarrow> Inl (''audit: open log: '' @ e) | Inr ls \<Rightarrow> Inr \<lparr>lg_file = Some ls\<rparr>)"

definition record_entry :: "time \<Rightarrow> log_fault \<Rightarrow> entry \<Rightarrow> logger \<Rightarrow> string option \<times> logger" where
  "record_entry now fault e l =
     (case lg_file l of None \<Rightarrow> (None, l)
      | Some ls \<Rightarrow>
          let e' = (case en_time e of None \<Rightarrow> e\<lparr>en_time := Some now\<rparr> | Some _ \<Rightarrow> e)
          in case fault of
               MarshalFails m \<Rightarrow> (Some (''audit: marshal entry: '' @ m), l)
             | WriteFails m \<Rightarrow> (Some (''audit: write entry: '' @ m), l)
             | SyncFails m \<Rightarrow> (Some (''audit: sync: '' @ m), l\<lparr>lg_file := Some (ls @ [e'])\<rparr>)
             | LogFine \<Rightarrow> (None, l\<lparr>lg_file := Some (ls @ [e'])\<rparr>))"

definition close_logger :: "logger \<Rightarrow> logger" where
  "close_logger l = (case lg_file l of None \<Rightarrow> l | Some _ \<Rightarrow> l\<lparr>lg_file := None\<rparr>)"

definition digest :: "(string \<Rightarrow> string) \<Rightarrow> string \<Rightarrow> string" where
  "digest sha b = ''sha256:'' @ sha b"

section \<open>Redaction\<close>

definition secret_words :: "string list" where
  "secret_words = [''PASSWORD'', ''PASSWD'', ''SECRET'', ''TOKEN'', ''APIKEY'', ''API_KEY'', ''API-KEY'',
     ''BEARER'', ''AUTHORIZATION'']"

definition secret_match :: "string \<Rightarrow> bool" where
  "secret_match cmd = list_ex (\<lambda>w. sublist (map byte w) (map fold_rune (runes cmd))) secret_words"

abbreviation max_redacted_runes :: nat where "max_redacted_runes \<equiv> 80"

definition ellipsis :: string where
  "ellipsis = [CHR 0xE2, CHR 0x80, CHR 0xA6]"

definition redact_command :: "string \<Rightarrow> string" where
  "redact_command cmd =
     (case str_fields cmd of [] \<Rightarrow> []
      | f # fs \<Rightarrow>
          if secret_match cmd then f @ '' [redacted]''
          else let collapsed = join_with '' '' (f # fs); rs = runes collapsed
               in if length rs \<le> max_redacted_runes then collapsed
                  else string_of_runes (take max_redacted_runes rs) @ ellipsis)"

section \<open>What is shown\<close>

lemma ellipsis_rune: "ellipsis = encode_rune 0x2026"
  by (simp add: ellipsis_def encode_rune_def encode_bytes_def valid_rune_def Let_def) code_simp

lemma runes_append_encoded: "\<forall>r\<in>set rs. valid_rune r \<Longrightarrow> runes (string_of_runes rs @ t) = rs @ runes t"
  by (induction rs) (auto simp: string_of_runes_def runes_encode_append)

text \<open>
  A command without a secret word is shown as its words separated by single blanks, cut
  after 80 runes with an ellipsis: never more than 81 runes, never half a rune.
\<close>

theorem redact_bounded:
  assumes "\<not> secret_match cmd"
  shows "runes (redact_command cmd) =
      (let rs = runes (join_with '' '' (str_fields cmd))
       in if length rs \<le> 80 then rs else take 80 rs @ [0x2026])
    \<and> rune_count (redact_command cmd) \<le> 81"
proof (intro conjI)
  let ?rs = "runes (join_with '' '' (str_fields cmd))"
  have "runes (string_of_runes (take 80 ?rs) @ ellipsis) = take 80 ?rs @ [0x2026]"
    using runes_append_encoded [of "take 80 ?rs" ellipsis] runes_valid
      runes_encode_append [of "0x2026" "[]"]
    by (auto simp: ellipsis_rune valid_rune_def dest!: in_set_takeD)
  then show r: "runes (redact_command cmd) = (let rs = ?rs in if length rs \<le> 80 then rs else take 80 rs @ [0x2026])"
    using assms by (auto simp: redact_command_def Let_def split: list.splits)
  then show "rune_count (redact_command cmd) \<le> 81"
    unfolding rune_count_def by (simp add: Let_def)
qed

lemma redact_bounded_witness: "rune_count (redact_command ''ls -l'') \<le> 81"
proof -
  have "\<not> secret_match ''ls -l''" by code_simp
  from redact_bounded [OF this] show ?thesis ..
qed

text \<open>
  A command with a secret word is reduced to its first word, whatever follows: two
  commands with the same first word look alike, in the log and in the approval prompt.
\<close>

lemma redact_hides_rest:
  assumes "secret_match cmd" and "str_fields cmd = w # ws"
  shows "redact_command cmd = w @ '' [redacted]''"
  using assms by (simp add: redact_command_def)

text \<open>
  The first word is shown in full. A credential assigned in front of a command
  (\<^verbatim>\<open>API_KEY=... curl\<close>) is that word, so the redacted text contains it.
\<close>

theorem redact_keeps_assignment:
  assumes "\<forall>c\<in>set v. c \<notin> hd ` set space_seqs"
  shows "redact_command (''API_KEY='' @ v @ '' '' @ cmd) = ''API_KEY='' @ v @ '' [redacted]''"
proof -
  let ?c = "''API_KEY='' @ v @ '' '' @ cmd"
  have a: "\<forall>c\<in>set ''API_KEY=''. c \<notin> hd ` set space_seqs"
    by (simp add: space_seqs_def)
  have "str_fields ?c = (''API_KEY='' @ v) # str_fields cmd"
    using fields_first_word [of "''API_KEY='' @ v" cmd] a assms by auto
  moreover have "secret_match ?c"
  proof -
    have "map fold_rune (runes ?c) = map byte ''API_KEY'' @ map fold_rune (runes (CHR ''='' # v @ CHR '' '' # cmd))"
      by (simp add: runes_ascii_Cons fold_rune_def)
    then have "sublist (map byte ''API_KEY'') (map fold_rune (runes ?c))"
      by (metis append_Nil sublist_def)
    then show ?thesis by (simp add: secret_match_def secret_words_def)
  qed
  ultimately show ?thesis by (simp add: redact_command_def)
qed

lemma redact_keeps_assignment_witness:
  "redact_command (''API_KEY='' @ ''hunter2'' @ '' '' @ ''curl x'') = ''API_KEY=hunter2 [redacted]''"
  using redact_keeps_assignment [of "''hunter2''" "''curl x''"] by (simp add: space_seqs_def)

end
