(* ===== verification/Metrics.thy ===== *)
theory Metrics
  imports Session
begin

text \<open>
  The instruments of \<^verbatim>\<open>internal/metrics\<close>. The Prometheus client is outside: an instrument's
  state is what the code has passed to it, a count per label pair and the list of observed
  durations, and the gauges are read off the session manager when they are scraped.
\<close>

datatype buckets = DefBuckets | ExponentialBuckets duration nat nat

datatype instrument =
    CounterVec string string "string list"
  | HistogramVec string string buckets "string list"
  | Histogram string string buckets
  | GaugeFunc string string

definition instruments :: "instrument list" where
  "instruments =
     [CounterVec ''boxel_invocations_total'' ''Tunneled tool invocations by tool and permission decision.'' [''tool'', ''decision''],
      HistogramVec ''boxel_tool_duration_seconds'' ''Tool invocation latency in seconds.'' DefBuckets [''tool''],
      Histogram ''boxel_elicitation_duration_seconds'' ''Time waiting for user approval of an elicitation.''
        (ExponentialBuckets (100 * millisecond) 2 12),
      GaugeFunc ''boxel_active_shells'' ''Number of active background shells.'',
      GaugeFunc ''boxel_active_sessions'' ''Number of active sessions.'']"

record metrics =
  mt_invocations :: "string \<times> string \<Rightarrow> nat"
  mt_durations :: "string \<Rightarrow> duration list"
  mt_elicitations :: "duration list"

definition new_metrics :: metrics where
  "new_metrics = \<lparr>mt_invocations = (\<lambda>l. 0), mt_durations = (\<lambda>t. []), mt_elicitations = []\<rparr>"

definition observe_invocation :: "string \<Rightarrow> string \<Rightarrow> duration \<Rightarrow> metrics \<Rightarrow> metrics" where
  "observe_invocation tool verdict d x =
     x\<lparr>mt_invocations := (mt_invocations x)((tool, verdict) := Suc (mt_invocations x (tool, verdict))),
       mt_durations := (mt_durations x)(tool := mt_durations x tool @ [d])\<rparr>"

definition observe_elicitation :: "duration \<Rightarrow> metrics \<Rightarrow> metrics" where
  "observe_elicitation d x = x\<lparr>mt_elicitations := mt_elicitations x @ [d]\<rparr>"

text \<open>The two gauges, in the order of \<open>instruments\<close>, at a scrape.\<close>

definition gauges :: "manager \<Rightarrow> nat \<times> nat" where
  "gauges m = (active_shells m, mgr_count m)"

end
