(* ===== verification/Schemas.thy ===== *)
theory Schemas
  imports Envelope "HOL-Library.List_Lexorder" "HOL-Library.Char_ord"
begin

text \<open>
  The input schemas of \<^verbatim>\<open>internal/envelope/schemas.go\<close>, which \<open>describe\<close> publishes and a
  schema error echoes, as the JSON values their texts denote. \<^verbatim>\<open>ParseInput\<close> does not consult
  them: the reference validator \<open>conforms\<close> states what a client reads in them, for the
  keywords they use, and the theorem compares the two.
\<close>

section \<open>The table\<close>

definition field :: "string \<Rightarrow> string \<Rightarrow> string \<Rightarrow> string \<times> json" where
  "field n t d = (n, JObj [(''type'', JStr t), (''description'', JStr d)])"

definition tool_object :: "members \<Rightarrow> string list \<Rightarrow> json" where
  "tool_object ps rs = JObj [(''type'', JStr ''object''), (''properties'', JObj ps), (''required'', JArr (map JStr rs))]"

definition read_schema :: json where
  \<open>read_schema = tool_object
    [field ''file_path'' ''string'' ''The absolute path to the file to read'',
     field ''offset'' ''integer'' ''The line number to start reading from (1-based). Only provide for large files.'',
     field ''limit'' ''integer'' ''The number of lines to read. Only provide for large files.'']
    [''file_path'']\<close>

definition write_schema :: json where
  \<open>write_schema = tool_object
    [field ''file_path'' ''string'' ''The absolute path to the file to write'',
     field ''content'' ''string'' ''The content to write to the file'']
    [''file_path'', ''content'']\<close>

definition edit_schema :: json where
  \<open>edit_schema = tool_object
    [field ''file_path'' ''string'' ''The absolute path to the file to modify'',
     field ''old_string'' ''string'' ''The text to replace. Must match the file contents exactly, including whitespace, and be unique unless replace_all is set.'',
     field ''new_string'' ''string'' ''The text to replace it with (must differ from old_string)'',
     (''replace_all'', JObj [(''type'', JStr ''boolean''), (''default'', JBool False), (''description'', JStr ''Replace all occurrences of old_string'')])]
    [''file_path'', ''old_string'', ''new_string'']\<close>

definition glob_schema :: json where
  \<open>glob_schema = tool_object
    [field ''pattern'' ''string'' ''The glob pattern to match files against, e.g. "**/*.go"'',
     field ''path'' ''string'' ''The directory to search in. Omit for the session working directory.'']
    [''pattern'']\<close>

definition grep_schema :: json where
  \<open>grep_schema = tool_object
    [field ''pattern'' ''string'' ''The regular expression pattern to search for (ripgrep syntax)'',
     field ''path'' ''string'' ''File or directory to search in. Defaults to the session working directory.'',
     field ''glob'' ''string'' ''Glob pattern to filter files, e.g. "*.go"'',
     field ''type'' ''string'' ''File type to search, e.g. "go", "py", "js"'',
     (''output_mode'', JObj [(''type'', JStr ''string''), (''enum'', JArr [JStr ''content'', JStr ''files_with_matches'', JStr ''count'']), (''description'', JStr ''Output mode; defaults to files_with_matches'')]),
     field ''-i'' ''boolean'' ''Case insensitive search'',
     field ''-n'' ''boolean'' ''Show line numbers (content mode; defaults to true)'',
     field ''-A'' ''integer'' ''Lines to show after each match (content mode)'',
     field ''-B'' ''integer'' ''Lines to show before each match (content mode)'',
     field ''-C'' ''integer'' ''Lines to show before and after each match (content mode)'',
     field ''multiline'' ''boolean'' ''Enable multiline mode where patterns can span lines'',
     field ''head_limit'' ''integer'' ''Limit output to first N lines/entries'',
     field ''offset'' ''integer'' ''Skip first N lines/entries before applying head_limit'']
    [''pattern'']\<close>

definition bash_schema :: json where
  \<open>bash_schema = tool_object
    [field ''command'' ''string'' ''The command to execute (bash -c, non-interactive)'',
     field ''timeout'' ''integer'' ''Optional timeout in milliseconds (default 120000, max 600000)'',
     field ''description'' ''string'' ''Clear, concise description of what this command does'',
     field ''run_in_background'' ''boolean'' ''Run in the background; poll with BashOutput'']
    [''command'']\<close>

definition bash_output_schema :: json where
  \<open>bash_output_schema = tool_object
    [field ''bash_id'' ''string'' ''The ID of the background shell to retrieve output from'',
     field ''filter'' ''string'' ''Optional regex; only output lines matching it are returned'']
    [''bash_id'']\<close>

definition kill_shell_schema :: json where
  \<open>kill_shell_schema = tool_object
    [field ''shell_id'' ''string'' ''The ID of the background shell to kill'']
    [''shell_id'']\<close>

definition schemas :: members where
  "schemas = [(''Read'', read_schema), (''Write'', write_schema), (''Edit'', edit_schema), (''Glob'', glob_schema),
     (''Grep'', grep_schema), (''Bash'', bash_schema), (''BashOutput'', bash_output_schema), (''KillShell'', kill_shell_schema)]"

definition schema_for :: "string \<Rightarrow> json" where
  "schema_for tool = (case map_of schemas tool of Some s \<Rightarrow> s | None \<Rightarrow> JNull)"

section \<open>What a schema says\<close>

fun json_is :: "string \<Rightarrow> json \<Rightarrow> bool" where
  "json_is t JNull = (t = ''null'')"
| "json_is t (JBool b) = (t = ''boolean'')"
| "json_is t (JInt i) = (t = ''integer'' \<or> t = ''number'')"
| "json_is t (JReal s) = (t = ''number'')"
| "json_is t (JStr s) = (t = ''string'')"
| "json_is t (JArr vs) = (t = ''array'')"
| "json_is t (JObj ms) = (t = ''object'')"

fun keyword :: "string \<Rightarrow> json \<Rightarrow> json option" where
  "keyword k (JObj ms) = map_of ms k"
| "keyword k _ = None"

definition value_ok :: "json \<Rightarrow> json \<Rightarrow> bool" where
  "value_ok s v =
     ((case keyword ''type'' s of Some (JStr t) \<Rightarrow> json_is t v | _ \<Rightarrow> True)
      \<and> (case keyword ''enum'' s of Some (JArr vs) \<Rightarrow> v \<in> set vs | _ \<Rightarrow> True))"

definition has_required :: "json \<Rightarrow> members \<Rightarrow> bool" where
  "has_required s ms =
     (case keyword ''required'' s of Some (JArr ks) \<Rightarrow> list_all (\<lambda>k. k \<in> set (map (JStr \<circ> fst) ms)) ks | _ \<Rightarrow> True)"

definition properties_ok :: "json \<Rightarrow> members \<Rightarrow> bool" where
  "properties_ok s ms =
     (case keyword ''properties'' s of
        Some (JObj ps) \<Rightarrow> list_all (\<lambda>(n, sub). list_all (\<lambda>(m, w). m = n \<longrightarrow> value_ok sub w) ms) ps
      | _ \<Rightarrow> True)"

definition conforms :: "json \<Rightarrow> json \<Rightarrow> bool" where
  "conforms s v = (value_ok s v \<and> (case v of JObj ms \<Rightarrow> has_required s ms \<and> properties_ok s ms | _ \<Rightarrow> True))"

text \<open>
  Documents on which a JSON schema and a Go decoder speak of the same thing: no key twice, no
  key that is a property's name in another case, and integers of 64 bits.
\<close>

definition property_names :: "json \<Rightarrow> string list" where
  "property_names s = (case keyword ''properties'' s of Some (JObj ps) \<Rightarrow> map fst ps | _ \<Rightarrow> [])"

definition plain_document :: "json \<Rightarrow> members \<Rightarrow> bool" where
  "plain_document s ms =
     (distinct (map fst ms)
      \<and> list_all (\<lambda>(k, v). list_all (\<lambda>p. name_matches p k \<longrightarrow> k = p) (property_names s)
          \<and> (case v of JInt i \<Rightarrow> int64_range i | _ \<Rightarrow> True)) ms)"

section \<open>Reading a conforming document\<close>

definition text_at :: "string \<Rightarrow> members \<Rightarrow> string" where
  "text_at k ms = (case map_of ms k of Some (JStr s) \<Rightarrow> s | _ \<Rightarrow> [])"

definition number_at :: "string \<Rightarrow> members \<Rightarrow> int" where
  "number_at k ms = (case map_of ms k of Some (JInt i) \<Rightarrow> i | _ \<Rightarrow> 0)"

definition truth_at :: "string \<Rightarrow> members \<Rightarrow> bool" where
  "truth_at k ms = (case map_of ms k of Some (JBool b) \<Rightarrow> b | _ \<Rightarrow> False)"

text \<open>The property \<open>p\<close> of type \<open>t\<close> can be read off \<open>ms\<close> by its name.\<close>

definition readable :: "members \<Rightarrow> string \<Rightarrow> string \<Rightarrow> bool" where
  "readable ms p t \<longleftrightarrow> distinct (map fst ms)
     \<and> (\<forall>(k, v)\<in>set ms. (name_matches p k \<longrightarrow> k = p) \<and> (k = p \<longrightarrow> json_is t v)
          \<and> (case v of JInt i \<Rightarrow> int64_range i | _ \<Rightarrow> True))"

lemma field_values_readable:
  "readable ms p t \<Longrightarrow> field_values p ms = (case map_of ms p of Some v \<Rightarrow> if v = JNull then [] else [v] | None \<Rightarrow> [])"
proof (induction ms)
  case (Cons m ms)
  obtain k v where m [simp]: "m = (k, v)" by (cases m)
  have r: "readable ms p t" and n: "name_matches p k \<Longrightarrow> k = p" using Cons.prems by (auto simp: readable_def)
  have "k = p \<Longrightarrow> map_of ms p = None" using Cons.prems by (auto simp: readable_def map_of_eq_None_iff)
  then show ?case using Cons.IH [OF r] n by (auto simp: field_values_Cons name_matches_refl)
qed (simp add: field_values_Nil)

lemma readable_value: "readable ms p t \<Longrightarrow> map_of ms p = Some v \<Longrightarrow> json_is t v \<and> (case v of JInt i \<Rightarrow> int64_range i | _ \<Rightarrow> True)"
  by (auto simp: readable_def dest: map_of_SomeD)

lemma dec_readable:
  "readable ms p ''string'' \<Longrightarrow> dec_string p ms = Inr (text_at p ms)"
  "readable ms p ''integer'' \<Longrightarrow> dec_int p ms = Inr (number_at p ms)"
  "readable ms p ''boolean'' \<Longrightarrow> dec_bool p ms = Inr (truth_at p ms)"
proof -
  note simps = dec_field_def field_values_readable text_at_def number_at_def truth_at_def dec_values_one dec_values_Nil
  show "readable ms p ''string'' \<Longrightarrow> dec_string p ms = Inr (text_at p ms)"
    using readable_value [of ms p "''string''"] by (auto simp: simps split: option.split json.split)
  show "readable ms p ''integer'' \<Longrightarrow> dec_int p ms = Inr (number_at p ms)"
    using readable_value [of ms p "''integer''"] by (auto simp: simps split: option.split json.split)
  show "readable ms p ''boolean'' \<Longrightarrow> dec_bool p ms = Inr (truth_at p ms)"
    using readable_value [of ms p "''boolean''"] by (auto simp: simps split: option.split json.split)
qed

lemma keyword_tool_object [simp]:
  "keyword ''type'' (tool_object ps rs) = Some (JStr ''object'')"
  "keyword ''properties'' (tool_object ps rs) = Some (JObj ps)"
  "keyword ''required'' (tool_object ps rs) = Some (JArr (map JStr rs))"
  "keyword ''enum'' (tool_object ps rs) = None"
  by (simp_all add: tool_object_def)

lemma keyword_field [simp]:
  "keyword ''type'' (snd (field n t d)) = Some (JStr t)" "keyword ''enum'' (snd (field n t d)) = None"
  by (simp_all add: field_def)

lemma fst_field [simp]: "fst (field n t d) = n"
  by (simp add: field_def)

lemma conforms_tool_object:
  "conforms (tool_object ps rs) (JObj ms) \<longleftrightarrow>
     (\<forall>r\<in>set rs. r \<in> fst ` set ms) \<and> (\<forall>p\<in>set ps. \<forall>(m, w)\<in>set ms. m = fst p \<longrightarrow> value_ok (snd p) w)"
  by (simp add: conforms_def value_ok_def [of "tool_object ps rs"] has_required_def properties_ok_def list_all_iff image_iff split_def)

lemma readable_property:
  assumes "conforms (tool_object ps rs) (JObj ms)" "plain_document (tool_object ps rs) ms"
    and "p \<in> set ps" and "keyword ''type'' (snd p) = Some (JStr t)"
  shows "readable ms (fst p) t"
  using assms unfolding conforms_tool_object readable_def
  by (fastforce simp: plain_document_def property_names_def list_all_iff value_ok_def)

lemma readable_properties:
  assumes "conforms (tool_object ps rs) (JObj ms)" "plain_document (tool_object ps rs) ms"
  shows "list_all (\<lambda>p. case keyword ''type'' (snd p) of Some (JStr t) \<Rightarrow> readable ms (fst p) t | _ \<Rightarrow> True) ps"
  using readable_property [OF assms] by (auto simp: list_all_iff split: option.split json.split)

section \<open>Each tool\<close>

lemmas schema_defs = read_schema_def write_schema_def edit_schema_def glob_schema_def grep_schema_def bash_schema_def
  bash_output_schema_def kill_shell_schema_def

lemma schema_for_tools:
  "schema_for ''Read'' = read_schema" "schema_for ''Write'' = write_schema" "schema_for ''Edit'' = edit_schema"
  "schema_for ''Glob'' = glob_schema" "schema_for ''Grep'' = grep_schema" "schema_for ''Bash'' = bash_schema"
  "schema_for ''BashOutput'' = bash_output_schema" "schema_for ''KillShell'' = kill_shell_schema"
  by (simp_all add: schema_for_def schemas_def)

lemma supported_are_described: "supported_tools = sort (map fst schemas)"
  by (simp add: supported_tools_def schemas_def)

definition demands :: "string \<Rightarrow> members \<Rightarrow> bool" where
  "demands tool ms =
     (if tool = ''Read'' \<or> tool = ''Write'' then text_at ''file_path'' ms \<noteq> []
      else if tool = ''Edit''
      then text_at ''file_path'' ms \<noteq> [] \<and> text_at ''old_string'' ms \<noteq> [] \<and> text_at ''old_string'' ms \<noteq> text_at ''new_string'' ms
      else if tool = ''Glob'' \<or> tool = ''Grep'' then text_at ''pattern'' ms \<noteq> []
      else if tool = ''Bash'' then text_at ''command'' ms \<noteq> [] \<and> 0 \<le> number_at ''timeout'' ms
      else if tool = ''BashOutput'' then text_at ''bash_id'' ms \<noteq> []
      else text_at ''shell_id'' ms \<noteq> [])"

lemmas dec_tools = dec_read_def dec_write_def dec_edit_def dec_glob_def dec_grep_def dec_bash_def dec_bash_output_def dec_kill_shell_def

lemma reads_small:
  "conforms read_schema (JObj ms) \<Longrightarrow> plain_document read_schema ms \<Longrightarrow>
     dec_read ms = Inr \<lparr>ri_file_path = text_at ''file_path'' ms, ri_offset = number_at ''offset'' ms, ri_limit = number_at ''limit'' ms\<rparr>"
  "conforms write_schema (JObj ms) \<Longrightarrow> plain_document write_schema ms \<Longrightarrow>
     dec_write ms = Inr \<lparr>wi_file_path = text_at ''file_path'' ms, wi_content = text_at ''content'' ms\<rparr>"
  "conforms glob_schema (JObj ms) \<Longrightarrow> plain_document glob_schema ms \<Longrightarrow>
     dec_glob ms = Inr \<lparr>gi_pattern = text_at ''pattern'' ms, gi_path = text_at ''path'' ms\<rparr>"
  "conforms bash_schema (JObj ms) \<Longrightarrow> plain_document bash_schema ms \<Longrightarrow>
     dec_bash ms = Inr \<lparr>bi_command = text_at ''command'' ms, bi_timeout = number_at ''timeout'' ms,
       bi_description = text_at ''description'' ms, bi_background = truth_at ''run_in_background'' ms\<rparr>"
  "conforms bash_output_schema (JObj ms) \<Longrightarrow> plain_document bash_output_schema ms \<Longrightarrow>
     dec_bash_output ms = Inr \<lparr>bo_bash_id = text_at ''bash_id'' ms, bo_filter = text_at ''filter'' ms\<rparr>"
  "conforms kill_shell_schema (JObj ms) \<Longrightarrow> plain_document kill_shell_schema ms \<Longrightarrow>
     dec_kill_shell ms = Inr \<lparr>ks_shell_id = text_at ''shell_id'' ms\<rparr>"
  unfolding schema_defs by (drule (1) readable_properties, simp add: dec_tools dec_readable)+


lemma reads_more:
  "conforms edit_schema (JObj ms) \<Longrightarrow> plain_document edit_schema ms \<Longrightarrow>
     dec_edit ms = Inr \<lparr>ei_file_path = text_at ''file_path'' ms, ei_old_string = text_at ''old_string'' ms,
       ei_new_string = text_at ''new_string'' ms, ei_replace_all = truth_at ''replace_all'' ms\<rparr>"
  "conforms grep_schema (JObj ms) \<Longrightarrow> plain_document grep_schema ms \<Longrightarrow>
     dec_grep ms = Inr \<lparr>gr_pattern = text_at ''pattern'' ms, gr_path = text_at ''path'' ms, gr_glob = text_at ''glob'' ms,
       gr_type = text_at ''type'' ms, gr_output_mode = text_at ''output_mode'' ms, gr_case_insensitive = truth_at ''-i'' ms,
       gr_line_numbers = truth_at ''-n'' ms, gr_after = number_at ''-A'' ms, gr_before = number_at ''-B'' ms,
       gr_context = number_at ''-C'' ms, gr_multiline = truth_at ''multiline'' ms, gr_head_limit = number_at ''head_limit'' ms,
       gr_offset = number_at ''offset'' ms\<rparr>"
  unfolding schema_defs by (drule (1) readable_properties, simp add: dec_tools dec_readable)+

text \<open>The one enumeration: the schema's values, or nothing.\<close>

lemma grep_mode_ok:
  assumes "conforms grep_schema (JObj ms)"
  shows "text_at ''output_mode'' ms \<in> set output_modes"
proof -
  have "\<forall>v. map_of ms ''output_mode'' = Some v \<longrightarrow> v \<in> set [JStr ''content'', JStr ''files_with_matches'', JStr ''count'']"
    using assms unfolding schema_defs conforms_tool_object
    by (auto simp: value_ok_def dest!: map_of_SomeD)
  then show ?thesis by (auto simp: text_at_def output_modes_def split: option.split)
qed

text \<open>What a decoded input must satisfy beyond its decoding.\<close>

lemma parse_input_branches:
  "(\<exists>i. parse_input ''Read'' (Some (JObj ms)) = Inr i) \<longleftrightarrow> (\<exists>v. dec_read ms = Inr v \<and> ri_file_path v \<noteq> [])"
  "(\<exists>i. parse_input ''Write'' (Some (JObj ms)) = Inr i) \<longleftrightarrow> (\<exists>v. dec_write ms = Inr v \<and> wi_file_path v \<noteq> [])"
  "(\<exists>i. parse_input ''Edit'' (Some (JObj ms)) = Inr i) \<longleftrightarrow>
     (\<exists>v. dec_edit ms = Inr v \<and> ei_file_path v \<noteq> [] \<and> ei_old_string v \<noteq> [] \<and> ei_old_string v \<noteq> ei_new_string v)"
  "(\<exists>i. parse_input ''Glob'' (Some (JObj ms)) = Inr i) \<longleftrightarrow> (\<exists>v. dec_glob ms = Inr v \<and> gi_pattern v \<noteq> [])"
  "(\<exists>i. parse_input ''Grep'' (Some (JObj ms)) = Inr i) \<longleftrightarrow>
     (\<exists>v. dec_grep ms = Inr v \<and> gr_pattern v \<noteq> [] \<and> gr_output_mode v \<in> set output_modes)"
  "(\<exists>i. parse_input ''Bash'' (Some (JObj ms)) = Inr i) \<longleftrightarrow> (\<exists>v. dec_bash ms = Inr v \<and> bi_command v \<noteq> [] \<and> 0 \<le> bi_timeout v)"
  "(\<exists>i. parse_input ''BashOutput'' (Some (JObj ms)) = Inr i) \<longleftrightarrow> (\<exists>v. dec_bash_output ms = Inr v \<and> bo_bash_id v \<noteq> [])"
  "(\<exists>i. parse_input ''KillShell'' (Some (JObj ms)) = Inr i) \<longleftrightarrow> (\<exists>v. dec_kill_shell ms = Inr v \<and> ks_shell_id v \<noteq> [])"
  by (auto simp: parse_input_def raw_members_def result_iffs)

lemma accepted_tools:
  "conforms read_schema (JObj ms) \<Longrightarrow> plain_document read_schema ms \<Longrightarrow>
     (\<exists>i. parse_input ''Read'' (Some (JObj ms)) = Inr i) \<longleftrightarrow> demands ''Read'' ms"
  "conforms write_schema (JObj ms) \<Longrightarrow> plain_document write_schema ms \<Longrightarrow>
     (\<exists>i. parse_input ''Write'' (Some (JObj ms)) = Inr i) \<longleftrightarrow> demands ''Write'' ms"
  "conforms edit_schema (JObj ms) \<Longrightarrow> plain_document edit_schema ms \<Longrightarrow>
     (\<exists>i. parse_input ''Edit'' (Some (JObj ms)) = Inr i) \<longleftrightarrow> demands ''Edit'' ms"
  "conforms glob_schema (JObj ms) \<Longrightarrow> plain_document glob_schema ms \<Longrightarrow>
     (\<exists>i. parse_input ''Glob'' (Some (JObj ms)) = Inr i) \<longleftrightarrow> demands ''Glob'' ms"
  "conforms grep_schema (JObj ms) \<Longrightarrow> plain_document grep_schema ms \<Longrightarrow>
     (\<exists>i. parse_input ''Grep'' (Some (JObj ms)) = Inr i) \<longleftrightarrow> demands ''Grep'' ms"
  "conforms bash_schema (JObj ms) \<Longrightarrow> plain_document bash_schema ms \<Longrightarrow>
     (\<exists>i. parse_input ''Bash'' (Some (JObj ms)) = Inr i) \<longleftrightarrow> demands ''Bash'' ms"
  "conforms bash_output_schema (JObj ms) \<Longrightarrow> plain_document bash_output_schema ms \<Longrightarrow>
     (\<exists>i. parse_input ''BashOutput'' (Some (JObj ms)) = Inr i) \<longleftrightarrow> demands ''BashOutput'' ms"
  "conforms kill_shell_schema (JObj ms) \<Longrightarrow> plain_document kill_shell_schema ms \<Longrightarrow>
     (\<exists>i. parse_input ''KillShell'' (Some (JObj ms)) = Inr i) \<longleftrightarrow> demands ''KillShell'' ms"
  unfolding parse_input_branches by (simp_all add: reads_small reads_more demands_def grep_mode_ok)

lemma accepted_iff:
  assumes "is_supported tool" "conforms (schema_for tool) (JObj ms)" "plain_document (schema_for tool) ms"
  shows "(\<exists>i. parse_input tool (Some (JObj ms)) = Inr i) \<longleftrightarrow> demands tool ms"
proof -
  have "tool = ''Bash'' \<or> tool = ''BashOutput'' \<or> tool = ''Edit'' \<or> tool = ''Glob'' \<or> tool = ''Grep'' \<or>
      tool = ''KillShell'' \<or> tool = ''Read'' \<or> tool = ''Write''"
    using assms(1) by (simp only: is_supported_def supported_tools_def list.set insert_iff empty_iff simp_thms)
  then show ?thesis using assms(2,3)
    by (elim disjE) (simp_all only: schema_for_tools accepted_tools)
qed

text \<open>An encoded input conforms to its schema.\<close>

lemma set_opt_member: "set (opt_member k v b) = (if b then {(k, v)} else {})"
  by (simp add: opt_member_def)

lemma ball_opt: "(\<forall>x\<in>(if b then {a} else {}). P x) \<longleftrightarrow> (b \<longrightarrow> P a)"
  by simp

lemma value_ok_field: "value_ok (snd (field n t d)) v = json_is t v"
  by (simp add: value_ok_def)

lemmas conforms_simps = schema_for_tools schema_defs conforms_tool_object set_opt_member ball_opt ball_Un value_ok_field
  str_member_def int_member_def bool_member_def

lemma encode_conforms: "input_ok i \<Longrightarrow> conforms (schema_for (tool_of i)) (JObj (encode_input i))"
  by (cases i) (simp_all add: conforms_simps split del: if_split, simp_all add: value_ok_def output_modes_def, blast)



end
