(* ===== verification/Tunnel.thy ===== *)
theory Tunnel
  imports Harness Audit_Log Metrics Schemas
begin

text \<open>
  The MCP server in front of the tools, \<^verbatim>\<open>internal/tunnel\<close>. \<^verbatim>\<open>invoke\<close> waits for
  the user while other calls proceed, so it is two operations here: \<open>begin_invoke\<close> up to
  the elicitation, \<open>answer_invoke\<close> from the user's answer on. A tool run is one step. The
  steps of all handlers, of the collector, of the shells and of other programs on the same
  file system interleave in \<open>tunnel_step\<close>.
\<close>

section \<open>Surroundings and state\<close>

text \<open>
  \<open>out_marshal\<close> is \<^verbatim>\<open>json.Marshal\<close>, \<open>out_quote\<close> the verb \<^verbatim>\<open>%q\<close>, \<open>out_time\<close> the
  \<^verbatim>\<open>RFC3339\<close> format, \<open>out_cause\<close> the text of a parse error.
\<close>

record outside =
  out_sys :: system
  out_sha :: "string \<Rightarrow> string"
  out_marshal :: "json \<Rightarrow> string + string"
  out_quote :: "string \<Rightarrow> string"
  out_time :: "time \<Rightarrow> string"
  out_cause :: "parse_error \<Rightarrow> string"
  out_hostname :: string
  out_os :: string
  out_arch :: string
  out_version :: string

record server =
  sv_box :: sandbox
  sv_log :: "logger option"
  sv_metrics :: "metrics option"

record invoke_args =
  ia_tool :: string
  ia_input :: "members option"
  ia_session :: string

datatype content = Text string | Compact json | Pretty json

datatype answer = Replied content bool | Failed string

section \<open>Results\<close>

definition text_result :: "content \<Rightarrow> bool \<Rightarrow> answer" where
  "text_result c isError = Replied c isError"

definition json_result :: "json \<Rightarrow> bool \<Rightarrow> answer" where
  "json_result v isError = text_result (Pretty v) isError"

definition refusal :: "string \<Rightarrow> decision \<Rightarrow> answer" where
  "refusal tool d = json_result (JObj
     [(''error'', JStr ''permission_denied''), (''reason'', JStr (d_reason d)),
      (''rule'', JStr (d_rule d)), (''tool'', JStr tool)]) True"

definition unknown_tool_error :: "string \<Rightarrow> json" where
  "unknown_tool_error tool = JObj
     [(''error'', JStr ''unknown_tool''), (''supported'', JArr (map JStr supported_tools)), (''tool'', JStr tool)]"

definition schema_error :: "outside \<Rightarrow> string \<Rightarrow> parse_error \<Rightarrow> json" where
  "schema_error out tool cause = JObj
     [(''error'', JStr ''invalid_input''), (''expected_schema'', schema_for tool),
      (''message'', JStr (out_cause out cause)), (''tool'', JStr tool)]"

section \<open>The policy's view of a call\<close>

definition tool_call_for :: "system \<Rightarrow> string \<Rightarrow> tool_input \<Rightarrow> string \<Rightarrow> tool_call" where
  "tool_call_for sys tool i cwd =
     (let call = \<lparr>tc_tool = tool, tc_command = [], tc_paths = []\<rparr>
      in case i of
           BashIn x \<Rightarrow> call\<lparr>tc_command := bi_command x\<rparr>
         | ReadIn x \<Rightarrow> call\<lparr>tc_paths := [abs_in cwd (ri_file_path x)]\<rparr>
         | WriteIn x \<Rightarrow> call\<lparr>tc_paths := [abs_in cwd (wi_file_path x)]\<rparr>
         | EditIn x \<Rightarrow> call\<lparr>tc_paths := [abs_in cwd (ei_file_path x)]\<rparr>
         | GlobIn x \<Rightarrow> call\<lparr>tc_paths := [glob_search_root sys cwd x]\<rparr>
         | GrepIn x \<Rightarrow> call\<lparr>tc_paths := [abs_in cwd (gr_path x)]\<rparr>
         | BashOutputIn x \<Rightarrow> call
         | KillShellIn x \<Rightarrow> call)"

definition specifier_for :: "tool_call \<Rightarrow> string" where
  "specifier_for call =
     (if tc_command call \<noteq> [] then tc_command call
      else case tc_paths call of p # ps \<Rightarrow> p | [] \<Rightarrow> [])"

definition audit_target :: "tool_call \<Rightarrow> string" where
  "audit_target call =
     (if tc_command call \<noteq> [] then redact_command (tc_command call)
      else case tc_paths call of p # ps \<Rightarrow> p | [] \<Rightarrow> [])"

section \<open>Asking the user\<close>

definition elicit_decision_schema :: json where
  "elicit_decision_schema = tool_object
     [(''decision'', JObj
        [(''type'', JStr ''string''), (''enum'', JArr [JStr ''allow_once'', JStr ''allow_always'', JStr ''deny'']),
         (''description'', JStr ''allow_once: run this call only. allow_always: allow this exact call for the rest of the session. deny: refuse.'')])]
     [''decision'']"

datatype elicit = ElicitFails string | Elicited string members

definition prompt :: "outside \<Rightarrow> string \<Rightarrow> tool_call \<Rightarrow> string" where
  "prompt out sid call =
     (let summary =
        (if tc_command call \<noteq> [] then tc_tool call @ '': '' @ redact_command (tc_command call)
         else case tc_paths call of p # ps \<Rightarrow> tc_tool call @ '': '' @ p | [] \<Rightarrow> tc_tool call)
      in ''Allow '' @ summary @ ''? (session '' @ out_quote out sid @ '')'')"

definition answer_text :: "members \<Rightarrow> string" where
  "answer_text content = (case map_of content ''decision'' of Some (JStr s) \<Rightarrow> s | _ \<Rightarrow> [])"

text \<open>An answer that fills the form in is one of the three the handler distinguishes.\<close>

lemma form_answers:
  assumes "conforms elicit_decision_schema (JObj content)"
  shows "answer_text content \<in> set [''allow_once'', ''allow_always'', ''deny'']"
proof -
  from assms have "''decision'' \<in> fst ` set content"
    and w: "\<forall>(m, v)\<in>set content. m = ''decision'' \<longrightarrow> v \<in> set [JStr ''allow_once'', JStr ''allow_always'', JStr ''deny'']"
    unfolding elicit_decision_schema_def conforms_tool_object by (auto simp: value_ok_def)
  then obtain v where v: "map_of content ''decision'' = Some v"
    by (metis map_of_eq_None_iff not_None_eq)
  with w map_of_SomeD [OF v] show ?thesis by (auto simp: answer_text_def)
qed

definition ask_user :: "addr \<Rightarrow> tool_call \<Rightarrow> elicit \<Rightarrow> manager \<Rightarrow> (bool \<times> string) \<times> manager" where
  "ask_user a call el m =
     (case el of
        ElicitFails err \<Rightarrow>
          ((False, ''approval unavailable: elicitation failed ('' @ err @ ''); the client may not support elicitation''), m)
      | Elicited action content \<Rightarrow>
          if action \<noteq> ''accept'' then ((False, ''user did not approve (action: '' @ action @ '')''), m)
          else if answer_text content = ''allow_once'' then ((True, []), m)
          else if answer_text content = ''allow_always''
          then ((True, []), grant (tc_tool call) (specifier_for call) a m)
          else ((False, ''user denied the request''), m))"

section \<open>Recording\<close>

definition milliseconds :: "duration \<Rightarrow> int" where
  "milliseconds d = (if 0 \<le> d then d div millisecond else - ((- d) div millisecond))"

definition sv_record :: "time \<Rightarrow> log_fault \<Rightarrow> entry \<Rightarrow> string \<Rightarrow> string \<Rightarrow> duration \<Rightarrow> server \<Rightarrow> server" where
  "sv_record now fault en tool verdict d sv =
     sv\<lparr>sv_log := map_option (\<lambda>l. snd (record_entry now fault en l)) (sv_log sv),
        sv_metrics := map_option (observe_invocation tool verdict d) (sv_metrics sv)\<rparr>"

section \<open>invoke\<close>

record pending =
  pd_addr :: addr
  pd_tool :: string
  pd_input :: tool_input
  pd_raw :: string
  pd_call :: tool_call
  pd_start :: time
  pd_asked :: time

datatype begun = Rejected answer | Decided pending decision answer | Waiting pending

definition entry_for :: "outside \<Rightarrow> engine \<Rightarrow> decision \<Rightarrow> pending \<Rightarrow> string \<Rightarrow> entry" where
  "entry_for out e d pd sid =
     \<lparr>en_time = None, en_session = sid, en_tool = pd_tool pd, en_input_digest = digest (out_sha out) (pd_raw pd),
      en_target = audit_target (pd_call pd), en_decision = behavior_string (d_behavior d),
      en_rule = d_rule d, en_mode = mode_string (e_mode e), en_exit_status = None, en_duration_ms = 0,
      en_error = []\<rparr>"

text \<open>From the decision on: refuse, or run the tool; one record either way.\<close>

definition conclude :: "outside \<Rightarrow> engine \<Rightarrow> time \<Rightarrow> log_fault \<Rightarrow> decision \<Rightarrow> pending \<Rightarrow> server \<Rightarrow> answer \<times> server" where
  "conclude out e now fault d pd sv =
     (let sid = ss_id (sess (sb_mgr (sv_box sv)) (pd_addr pd));
          elapsed = now - pd_start pd;
          en = (entry_for out e d pd sid)\<lparr>en_duration_ms := milliseconds elapsed\<rparr>;
          dec = behavior_string (d_behavior d)
      in if d_behavior d \<noteq> Allow
         then (refusal (pd_tool pd) d, sv_record now fault en (pd_tool pd) dec elapsed sv)
         else case dispatch (out_sys out) (pd_addr pd) (pd_input pd) (sv_box sv) of
                (Inl err, sb) \<Rightarrow>
                  (Failed err, sv_record now fault (en\<lparr>en_error := err\<rparr>) (pd_tool pd) ''error'' elapsed (sv\<lparr>sv_box := sb\<rparr>))
              | (Inr r, sb) \<Rightarrow>
                  (text_result (Text (tr_text r)) (tr_error r),
                   sv_record now fault
                     (en\<lparr>en_exit_status := tr_exit r, en_error := (if tr_error r then ''tool_error'' else [])\<rparr>)
                     (pd_tool pd) dec elapsed (sv\<lparr>sv_box := sb\<rparr>)))"

definition raw_json :: "members option \<Rightarrow> json" where
  "raw_json i = (case i of None \<Rightarrow> JNull | Some ms \<Rightarrow> JObj ms)"

definition on_manager :: "(manager \<Rightarrow> manager) \<Rightarrow> server \<Rightarrow> server" where
  "on_manager f sv = sv\<lparr>sv_box := (sv_box sv)\<lparr>sb_mgr := f (sb_mgr (sv_box sv))\<rparr>\<rparr>"

definition begin_invoke :: "outside \<Rightarrow> engine \<Rightarrow> time \<Rightarrow> time \<Rightarrow> log_fault \<Rightarrow> invoke_args \<Rightarrow> server \<Rightarrow> begun \<times> server" where
  "begin_invoke out e start now fault args sv =
     (let tool = ia_tool args; raw = raw_json (ia_input args)
      in if \<not> is_supported tool
         then (Rejected (text_result (Compact (unknown_tool_error tool)) True), sv)
         else case out_marshal out raw of
           Inl err \<Rightarrow> (Rejected (Failed (''marshal input: '' @ err)), sv)
         | Inr rawInput \<Rightarrow>
             (case parse_input tool (Some raw) of
                Inl err \<Rightarrow> (Rejected (text_result (Compact (schema_error out tool err)) True), sv)
              | Inr typed \<Rightarrow>
                  (case mgr_get start (ia_session args) (sb_mgr (sv_box sv)) of (a, m) \<Rightarrow>
                     let sv1 = on_manager (\<lambda>_. m) sv;
                         call = tool_call_for (out_sys out) tool typed (ss_cwd (sess m a));
                         d = evaluate (eval_symlinks (sb_vfs (sv_box sv))) (sys_glob (out_sys out)) e call (ss_overlay (sess m a));
                         pd = \<lparr>pd_addr = a, pd_tool = tool, pd_input = typed, pd_raw = rawInput,
                               pd_call = call, pd_start = start, pd_asked = now\<rparr>
                     in if d_behavior d = Ask then (Waiting pd, sv1)
                        else (case conclude out e now fault d pd sv1 of (ans, sv2) \<Rightarrow> (Decided pd d ans, sv2)))))"

definition user_decision :: "bool \<times> string \<Rightarrow> decision" where
  "user_decision v =
     (if fst v then mk_decision Allow ''elicitation'' ''approved by user''
      else mk_decision Deny ''elicitation'' (snd v))"

definition answer_invoke :: "outside \<Rightarrow> engine \<Rightarrow> time \<Rightarrow> time \<Rightarrow> log_fault \<Rightarrow> elicit \<Rightarrow> pending \<Rightarrow> server \<Rightarrow> answer \<times> server" where
  "answer_invoke out e answered now fault el pd sv =
     (case ask_user (pd_addr pd) (pd_call pd) el (sb_mgr (sv_box sv)) of (v, m) \<Rightarrow>
        conclude out e now fault (user_decision v) pd
          ((on_manager (\<lambda>_. m) sv)\<lparr>sv_metrics := map_option (observe_elicitation (answered - pd_asked pd)) (sv_metrics sv)\<rparr>))"

section \<open>session and describe\<close>

definition session_json :: "outside \<Rightarrow> session \<Rightarrow> json" where
  "session_json out s = JObj
     [(''active_shells'', JInt (int (active_count (ss_shells s)))), (''created'', JStr (out_time out (ss_created s))),
      (''cwd'', JStr (ss_cwd s)), (''id'', JStr (ss_id s)), (''last_used'', JStr (out_time out (ss_last_used s)))]"

definition session_tool :: "outside \<Rightarrow> time \<Rightarrow> string \<Rightarrow> string \<Rightarrow> server \<Rightarrow> answer \<times> server" where
  "session_tool out now action sid sv =
     (let m = sb_mgr (sv_box sv)
      in if action = ''create''
         then (case mgr_get now sid m of (a, m') \<Rightarrow>
                 (json_result (JObj [(''cwd'', JStr (ss_cwd (sess m' a))), (''id'', JStr (ss_id (sess m' a)))]) False,
                  on_manager (\<lambda>_. m') sv))
         else if action = ''reset''
         then (case mgr_reset now sid m of (a, m') \<Rightarrow>
                 (json_result (JObj [(''cwd'', JStr (ss_cwd (sess m' a))), (''id'', JStr (ss_id (sess m' a))),
                    (''reset'', JBool True)]) False,
                  on_manager (\<lambda>_. m') sv))
         else if action = ''list'' \<or> action = []
         then (json_result (JObj [(''sessions'', JArr (map (session_json out) (mgr_list m)))]) False, sv)
         else (json_result (JObj [(''error'', JStr ''invalid_action''),
                 (''message'', JStr (''unknown action '' @ out_quote out action @ '': must be create, list, or reset''))]) True, sv))"

definition policy_json :: "redacted_policy \<Rightarrow> json" where
  "policy_json p = JObj
     [(''allow'', JArr (map JStr (rp_allow p))), (''ask'', JArr (map JStr (rp_ask p))),
      (''builtin'', JObj [(''credential_paths_blocked'', JBool (rp_cred_blocked p)), (''jail'', JStr (rp_jail p))]),
      (''counts'', (case rp_counts p of (a, k, d) \<Rightarrow>
         JObj [(''allow'', JInt (int a)), (''ask'', JInt (int k)), (''deny'', JInt (int d))])),
      (''deny'', JArr (map JStr (rp_deny p))), (''mode'', JStr (rp_mode p)), (''workspace_root'', JStr (rp_root p))]"

definition describe :: "outside \<Rightarrow> engine \<Rightarrow> server \<Rightarrow> answer" where
  "describe out e sv = json_result (JObj
     [(''envelope'', JObj
         [(''description'', JStr (''invoke body: {'' @ [CHR 0x22] @ ''tool'' @ [CHR 0x22] @ '': <name>, '' @ [CHR 0x22] @
             ''input'' @ [CHR 0x22] @ '': <native Claude Code tool input>, '' @ [CHR 0x22] @ ''session'' @ [CHR 0x22] @ '': <optional id>}'')),
          (''input_schemas'', JObj (map (\<lambda>n. (n, schema_for n)) (sort supported_tools))),
          (''supported_tools'', JArr (map JStr supported_tools))]),
      (''limits'', JObj
         [(''bash_default_timeout_ms'', JInt bash_default_timeout), (''bash_max_timeout_ms'', JInt bash_max_timeout),
          (''max_output_bytes'', JInt (int max_output_bytes)), (''read_default_line_limit'', JInt read_default_limit)]),
      (''permissions'', policy_json (redacted e)),
      (''sandbox'', JObj
         [(''arch'', JStr (out_arch out)), (''hostname'', JStr (out_hostname out)), (''os'', JStr (out_os out)),
          (''workspace_root'', JStr (e_root e))]),
      (''server'', JObj [(''name'', JStr ''tunnel-mcp''), (''version'', JStr (out_version out))]),
      (''sessions'', JArr (map (session_json out) (mgr_list (sb_mgr (sv_box sv)))))]) False"

section \<open>The server as a transition system\<close>

record tunnel =
  tn_server :: server
  tn_waiting :: "(nat, pending) fmap"

datatype tunnel_event =
    CallRejected invoke_args answer
  | CallDecided invoke_args pending decision log_fault answer
  | CallWaits nat invoke_args pending
  | UserAnswered nat pending elicit log_fault answer
  | SessionCalled string string answer
  | Collected time
  | ShellEvent addr string shell_event
  | FilesChanged

inductive tunnel_step :: "outside \<Rightarrow> engine \<Rightarrow> tunnel \<Rightarrow> tunnel_event \<Rightarrow> tunnel \<Rightarrow> bool"
  for out :: outside and e :: engine where
  step_rejected: "begin_invoke out e start now fault args (tn_server t) = (Rejected ans, sv) \<Longrightarrow>
     tunnel_step out e t (CallRejected args ans) (t\<lparr>tn_server := sv\<rparr>)"
| step_decided: "begin_invoke out e start now fault args (tn_server t) = (Decided pd d ans, sv) \<Longrightarrow>
     tunnel_step out e t (CallDecided args pd d fault ans) (t\<lparr>tn_server := sv\<rparr>)"
| step_waits: "begin_invoke out e start now fault args (tn_server t) = (Waiting pd, sv) \<Longrightarrow>
     fmlookup (tn_waiting t) k = None \<Longrightarrow>
     tunnel_step out e t (CallWaits k args pd) (t\<lparr>tn_server := sv, tn_waiting := fmupd k pd (tn_waiting t)\<rparr>)"
| step_answered: "fmlookup (tn_waiting t) k = Some pd \<Longrightarrow>
     answer_invoke out e answered now fault el pd (tn_server t) = (ans, sv) \<Longrightarrow>
     tunnel_step out e t (UserAnswered k pd el fault ans) (t\<lparr>tn_server := sv, tn_waiting := fmdrop k (tn_waiting t)\<rparr>)"
| step_session: "session_tool out now action sid (tn_server t) = (ans, sv) \<Longrightarrow>
     tunnel_step out e t (SessionCalled action sid ans) (t\<lparr>tn_server := sv\<rparr>)"
| step_collected: "tunnel_step out e t (Collected now) (t\<lparr>tn_server := on_manager (gc_tick now) (tn_server t)\<rparr>)"
| step_shell: "get_shell (ss_shells (sess (sb_mgr (sv_box (tn_server t))) a)) i = Some sh \<Longrightarrow>
     shell_step rc sh ev sh' \<Longrightarrow>
     tunnel_step out e t (ShellEvent a i ev)
       (t\<lparr>tn_server := on_manager
           (\<lambda>m. set_shells (put_shell i sh' (ss_shells (sess m a))) a m) (tn_server t)\<rparr>)"
| step_files: "tunnel_step out e t FilesChanged
     (t\<lparr>tn_server := (tn_server t)\<lparr>sv_box := (sv_box (tn_server t))\<lparr>sb_vfs := v\<rparr>\<rparr>\<rparr>)"

inductive_cases tunnel_stepE: "tunnel_step out e t ev u"

end
