(* ===== verification/File_Tools.thy ===== *)
theory File_Tools
  imports Harness
begin

text \<open>
  What Read and Edit return and change: the window of numbered lines, its cut and its
  progress, and the replacement with its snippet, branch by branch.
\<close>

section \<open>Read\<close>

text \<open>The lines as \<^verbatim>\<open>cat -n\<close> shows them, from a line number on.\<close>

fun number_lines :: "nat \<Rightarrow> string list \<Rightarrow> string list" where
  "number_lines k [] = []"
| "number_lines k (l # ls) = cat_n k (truncate_line l) # number_lines (Suc k) ls"

lemma length_number_lines [simp]: "length (number_lines k ls) = length ls"
  by (induction ls arbitrary: k) auto

lemma cat_n_nonempty [simp]: "cat_n k l \<noteq> []"
  by (simp add: cat_n_def)

lemma number_lines_nonempty: "x \<in> set (number_lines k ls) \<Longrightarrow> x \<noteq> []"
  by (induction ls arbitrary: k) (auto dest: sym)

definition add_line :: "string \<Rightarrow> string \<Rightarrow> string" where
  "add_line b x = b @ (if b \<noteq> [] then [nl] else []) @ x"

lemma foldl_add_line: "\<forall>x\<in>set xs. x \<noteq> [] \<Longrightarrow> foldl add_line [] xs = join_with [nl] xs"
proof (induction xs rule: rev_induct)
  case (snoc x xs)
  then have ne: "xs \<noteq> [] \<Longrightarrow> join_with [nl] xs \<noteq> []"
    by (cases xs rule: remdups_adj.cases) auto
  with snoc show ?case by (cases "xs = []") (auto simp: add_line_def join_with_append)
qed simp

lemma read_loop_cut:
  "\<exists>m \<le> length ls. read_loop b k ls =
      foldl add_line b (take m (number_lines k ls)) @ (if m < length ls then read_truncation_marker else [])
    \<and> (0 < m \<longrightarrow> length (foldl add_line b (take m (number_lines k ls))) \<le> max_output_bytes)
    \<and> (m < length ls \<longrightarrow> length (foldl add_line b (take (Suc m) (number_lines k ls))) > max_output_bytes)"
proof (induction ls arbitrary: b k)
  case (Cons l ls)
  let ?x = "cat_n k (truncate_line l)"
  show ?case
  proof (cases "length (add_line b ?x) > max_output_bytes")
    case True
    then have "read_loop b k (l # ls) = b @ read_truncation_marker"
      by (simp add: Let_def add_line_def)
    with True show ?thesis by (intro exI [of _ 0]) simp
  next
    case False
    then have r: "read_loop b k (l # ls) = read_loop (add_line b ?x) (Suc k) ls"
      by (simp add: Let_def add_line_def)
    obtain m where m: "m \<le> length ls"
      "read_loop (add_line b ?x) (Suc k) ls = foldl add_line (add_line b ?x) (take m (number_lines (Suc k) ls))
        @ (if m < length ls then read_truncation_marker else [])"
      "0 < m \<longrightarrow> length (foldl add_line (add_line b ?x) (take m (number_lines (Suc k) ls))) \<le> max_output_bytes"
      "m < length ls \<longrightarrow> length (foldl add_line (add_line b ?x) (take (Suc m) (number_lines (Suc k) ls))) > max_output_bytes"
      using Cons.IH [of "add_line b ?x" "Suc k"] by blast
    show ?thesis
    proof (intro exI [of _ "Suc m"] conjI)
      show "0 < Suc m \<longrightarrow> length (foldl add_line b (take (Suc m) (number_lines k (l # ls)))) \<le> max_output_bytes"
        using m(3) False by (cases "m = 0") auto
    qed (use m r in auto)
  qed
qed simp

lemma truncate_line_length: "length (truncate_line l) \<le> 8000"
  using length_runes [of l] length_string_of_runes [of "take read_max_line_len (runes l)"]
  by (auto simp: truncate_line_def rune_count_def)

lemma cat_n_length:
  assumes "int k \<le> max_int"
  shows "length (cat_n k (truncate_line l)) \<le> 8020"
proof -
  have "k < 10 ^ 19" using assms by (simp add: max_int_def)
  then have "length (dec k) \<le> 19" by (intro dec_length) simp_all
  then show ?thesis using truncate_line_length [of l] by (simp add: cat_n_def pad_left_def)
qed

lemma read_loop_window:
  assumes "ls \<noteq> []" and "int k \<le> max_int"
  shows "\<exists>m. 0 < m \<and> m \<le> length ls
    \<and> read_loop [] k ls = join_with [nl] (take m (number_lines k ls)) @ (if m < length ls then read_truncation_marker else [])
    \<and> length (join_with [nl] (take m (number_lines k ls))) \<le> max_output_bytes
    \<and> (m < length ls \<longrightarrow> length (join_with [nl] (take (Suc m) (number_lines k ls))) > max_output_bytes)"
proof -
  have j: "foldl add_line [] (take m (number_lines k ls)) = join_with [nl] (take m (number_lines k ls))" for m
    by (rule foldl_add_line) (auto dest!: in_set_takeD number_lines_nonempty)
  obtain m where m: "m \<le> length ls"
    "read_loop [] k ls = join_with [nl] (take m (number_lines k ls)) @ (if m < length ls then read_truncation_marker else [])"
    "0 < m \<longrightarrow> length (join_with [nl] (take m (number_lines k ls))) \<le> max_output_bytes"
    "m < length ls \<longrightarrow> length (join_with [nl] (take (Suc m) (number_lines k ls))) > max_output_bytes"
    using read_loop_cut [of ls "[]" k] unfolding j by blast
  moreover have "0 < m"
  proof (rule ccontr)
    assume "\<not> 0 < m"
    then have "m = 0" by simp
    with m(4) assms(1) have "length (join_with [nl] (take 1 (number_lines k ls))) > max_output_bytes" by simp
    moreover obtain l ls' where "ls = l # ls'" using assms(1) by (cases ls) auto
    ultimately show False using cat_n_length [OF assms(2), of l] by simp
  qed
  ultimately show ?thesis by blast
qed

definition read_start :: "read_input \<Rightarrow> nat" where
  "read_start i = (if ri_offset i \<le> 0 then 1 else nat (ri_offset i))"

definition read_count :: "read_input \<Rightarrow> nat" where
  "read_count i = (if ri_limit i \<le> 0 then 2000 else nat (ri_limit i))"

definition read_lines :: "read_input \<Rightarrow> string \<Rightarrow> string list" where
  "read_lines i data = take (read_count i) (drop (read_start i - 1) (split_file_lines data))"

lemma read_content_window:
  assumes "CHR 0x00 \<notin> set (take 8192 data)" and "read_start i \<le> length (split_file_lines data)"
    and "int (read_start i) + int (read_count i) - 1 \<le> max_int" and "int64_range (ri_offset i)" and "int64_range (ri_limit i)"
  shows "read_content i path data = ok_text (read_loop [] (read_start i) (read_lines i data))"
proof -
  let ?o = "read_start i" and ?c = "read_count i" and ?ls = "split_file_lines data"
  let ?n = "int (length ?ls)" and ?off = "if ri_offset i \<le> 0 then 1 else ri_offset i"
  let ?lim = "if ri_limit i \<le> 0 then read_default_limit else ri_limit i"
  have o: "?off = int ?o" and c: "?lim = int ?c" by (simp_all add: read_start_def read_count_def)
  have "wrap64 (wrap64 (int ?o + int ?c) - 1) = int ?o + int ?c - 1"
  proof (cases "int ?o + int ?c \<le> 9223372036854775807")
    case False
    then have "int ?o + int ?c = 9223372036854775808" using assms(3) by (simp add: max_int_def)
    then show ?thesis by (simp add: wrap64_def)
  qed (simp add: wrap64_id)
  then have e: "wrap64 (wrap64 (?off + ?lim) - 1) = int ?o + int ?c - 1" unfolding o c .
  have p: "0 < ?o" by (simp add: read_start_def)
  have t: "take (nat ((if int ?o + int ?c - 1 > ?n then ?n else int ?o + int ?c - 1) - int ?o + 1)) (drop (nat (int ?o - 1)) ?ls)
      = read_lines i data"
  proof (cases "int ?o + int ?c - 1 > ?n")
    case True
    then have "length (drop (?o - 1) ?ls) \<le> ?c" using p by simp
    moreover have "nat (?n - int ?o + 1) = length (drop (?o - 1) ?ls)" using p assms(2) by simp
    moreover have "nat (int ?o - 1) = ?o - 1" using p by simp
    ultimately show ?thesis using True by (simp only: if_True read_lines_def take_all order_refl)
  next
    case False
    moreover have "nat (int ?o - 1) = ?o - 1" using p by simp
    ultimately show ?thesis by (simp add: read_lines_def)
  qed
  show ?thesis
    using assms(1,2) unfolding read_content_def Let_def e unfolding o t by simp
qed


text \<open>
  A huge limit overflows: once offset plus limit minus one exceeds a 64-bit int, Read
  returns an empty success for a file that has the requested lines.
\<close>

theorem read_limit_overflow:
  assumes "CHR 0x00 \<notin> set (take 8192 data)" and "1 \<le> ri_offset i" and "ri_offset i \<le> int (length (split_file_lines data))"
    and "ri_offset i + ri_limit i - 1 > max_int" and "int64_range (ri_offset i)" and "int64_range (ri_limit i)"
  shows "read_content i path data = ok_text []"
proof -
  let ?s = "ri_offset i + ri_limit i"
  have lim: "\<not> ri_limit i \<le> 0" using assms(4,5) by (auto simp: max_int_def)
  have "wrap64 (wrap64 ?s - 1) = ?s - 1 - 18446744073709551616"
  proof -
    have w: "wrap64 x = x - 18446744073709551616" if "9223372036854775808 \<le> x" "x < 27670116110564327424" for x
    proof -
      have "x + 9223372036854775808 = (x - 9223372036854775808) + 18446744073709551616" by simp
      then have "(x + 9223372036854775808) mod 18446744073709551616 = (x - 9223372036854775808) mod 18446744073709551616"
        by (metis mod_add_self2)
      also have "\<dots> = x - 9223372036854775808" using that by simp
      finally show ?thesis by (simp add: wrap64_def)
    qed
    have "wrap64 ?s = ?s - 18446744073709551616" using assms(4-6) by (intro w) (auto simp: max_int_def)
    moreover have "wrap64 (?s - 18446744073709551616 - 1) = ?s - 18446744073709551616 - 1"
      using assms(4-6) by (intro wrap64_id) (auto simp: max_int_def)
    ultimately show ?thesis by simp
  qed
  moreover have "?s - 1 - 18446744073709551616 < 0" using assms(5,6) by simp
  ultimately show ?thesis
    using assms(1-3) lim by (simp add: read_content_def Let_def)
qed

section \<open>Edit\<close>

lemma edit_apply_Inr:
  assumes ok: "input_ok (EditIn i)" and e: "edit_apply i content = Inr new"
  shows "str_contains content (ei_old_string i)"
    and "\<exists>parts. content = join_with (ei_old_string i) parts \<and> new = join_with (ei_new_string i) parts
      \<and> (\<forall>p\<in>set parts. \<not> str_contains p (ei_old_string i))
      \<and> 2 \<le> length parts \<and> (ei_replace_all i \<or> length parts = 2)"
proof -
  let ?old = "ei_old_string i" and ?new = "ei_new_string i"
  have old: "?old \<noteq> []" "?old \<noteq> ?new" using ok by simp_all
  let ?c = "str_count content ?old"
  have c: "?c = str_count_from content ?old" using old by (simp add: str_count_def)
  from e have c0: "?c \<noteq> 0" and c1: "ei_replace_all i \<or> ?c = 1"
    and new: "new = str_replace content ?old ?new (if ei_replace_all i then -1 else 1)"
    by (auto simp: edit_apply_def Let_def split: if_splits)
  show "str_contains content ?old" using c0 old by (simp add: str_count_0)
  have "new = replace_loop ?c True content ?old ?new"
    using c1 c0 old new by (auto simp: str_replace_def Let_def)
  moreover obtain parts where p: "content = join_with ?old parts"
    "replace_loop (str_count_from content ?old) True content ?old ?new = join_with ?new parts"
    "length parts = Suc (str_count_from content ?old)" "\<forall>p\<in>set parts. \<not> str_contains p ?old"
    using replace_loop_parts [OF old(1), of content True ?new] by blast
  ultimately show "\<exists>parts. content = join_with ?old parts \<and> new = join_with ?new parts
      \<and> (\<forall>p\<in>set parts. \<not> str_contains p ?old) \<and> 2 \<le> length parts \<and> (ei_replace_all i \<or> length parts = 2)"
    using c c0 c1 by (intro exI [of _ parts]) auto
qed


lemma split_file_lines_length: "Suc (str_count s [nl]) \<le> Suc (length (split_file_lines s))"
proof (cases "has_suffix s [nl]")
  case True
  then obtain r where "s = r @ [nl]" by (auto simp: has_suffix_iff)
  then show ?thesis by (simp add: split_file_lines_def length_split_char count_one_char)
qed (simp add: split_file_lines_def length_split_char count_one_char trim_suffix_def)

lemma str_count_prefix: "str_count (take a s) [nl] \<le> str_count (take (a + b) s) [nl]"
  by (simp add: count_one_char take_add)

lemma str_count_take: "str_count (take a s) [nl] \<le> str_count s [nl]"
  unfolding count_one_char by (metis append_take_drop_id filter_append le_add1 length_append)

text \<open>
  The snippet after an edit never indexes out of range: its first line is at least 1
  and at most its last, and the last is at most the number of lines of the new content.
\<close>

theorem edit_snippet_in_range:
  assumes "input_ok (EditIn i)" and "edit_apply i content = Inr new" and "edit_window i content new = (from, to)"
  shows "1 \<le> from \<and> from \<le> to \<and> to \<le> int (length (split_file_lines new))"
proof -
  let ?old = "ei_old_string i" and ?nw = "ei_new_string i"
  have "str_contains content ?old" by (rule edit_apply_Inr(1) [OF assms(1,2)])
  then obtain idx where idx: "index_of content ?old = Some idx" by (auto simp: str_contains_def)
  obtain parts where p: "content = join_with ?old parts" "new = join_with ?nw parts" "2 \<le> length parts"
    "\<forall>p\<in>set parts. \<not> str_contains p ?old"
    using edit_apply_Inr(2) [OF assms(1,2)] by blast
  have "take idx new = take idx content"
  proof -
    have old: "?old \<noteq> []" "?old \<noteq> ?nw" using assms(1) by simp_all
    have c: "str_count content ?old \<noteq> 0" using idx old by (auto simp: str_count_0 str_contains_def)
    have new: "new = str_replace content ?old ?nw (if ei_replace_all i then -1 else 1)"
      using assms(2) by (auto simp: edit_apply_def Let_def split: if_splits)
    have "\<exists>m. new = replace_loop (Suc m) True content ?old ?nw"
    proof (cases "ei_replace_all i")
      case True
      then have "new = replace_loop (str_count content ?old) True content ?old ?nw"
        using new old c by (simp add: str_replace_def Let_def)
      moreover obtain m where "str_count content ?old = Suc m" using c by (cases "str_count content ?old") auto
      ultimately show ?thesis by auto
    next
      case False
      then have "new = replace_loop 1 True content ?old ?nw"
        using new old c by (auto simp: str_replace_def Let_def split: if_splits)
      then show ?thesis by (intro exI [of _ 0]) simp
    qed
    then obtain m where "new = take idx content @ ?nw @ replace_loop m False (drop (idx + length ?old) content) ?old ?nw"
      using idx old by auto
    moreover have "idx \<le> length content" using index_of_Some [OF idx] by auto
    ultimately show ?thesis by simp
  qed
  then have start: "str_count (take idx content) [nl] \<le> str_count (take (idx + length ?nw) new) [nl]"
    "str_count (take idx content) [nl] \<le> length (split_file_lines new)"
    using str_count_prefix [of idx new "length ?nw"] str_count_take [of idx new] split_file_lines_length [of new] by auto
  have "1 \<le> length (split_file_lines new)" by (simp add: split_file_lines_def length_split_char)
  with start assms(3) idx show ?thesis by (auto simp: edit_window_def Let_def split: if_splits)
qed

end
