(* ===== verification/Confinement.thy ===== *)
theory Confinement
  imports File_Tools
begin

text \<open>
  The workspace jail end to end: the string test of the policy engine, computed with
  \<^verbatim>\<open>EvalSymlinks\<close> on the same file system the tools then act on. A path that
  passes the test is resolved by the kernel to a location below the root, so what Read
  returns and what Write and Edit change lies inside, with one exception that is stated
  and proved: a last component that is a dangling link.
\<close>

section \<open>The location the policy sees\<close>

definition resolves :: "vfs \<Rightarrow> string list \<Rightarrow> bool" where
  "resolves v cs = (\<exists>l. walk go_links v [] cs = Inr l)"

text \<open>The longest prefix that resolves, with the rest appended: by components, innermost first.\<close>

fun real_loc_rev :: "vfs \<Rightarrow> string list \<Rightarrow> string list \<Rightarrow> loc" where
  "real_loc_rev v [] rest = rest"
| "real_loc_rev v (c # ps) rest =
     (case walk go_links v [] (rev (c # ps)) of Inr l \<Rightarrow> l @ rest | Inl _ \<Rightarrow> real_loc_rev v ps (c # rest))"

definition real_loc :: "vfs \<Rightarrow> string list \<Rightarrow> loc" where
  "real_loc v cs = real_loc_rev v (rev cs) []"

lemma real_loc_rev_ex:
  "\<exists>ps m. prefix ps (rev xs) \<and> walk go_links v [] ps = Inr m \<and> (\<exists>s. rev xs = ps @ s \<and> real_loc_rev v xs rest = m @ s @ rest
      \<and> (\<forall>t. s = t # tl s \<longrightarrow> \<not> resolves v (ps @ [t])))"
proof (induction xs arbitrary: rest)
  case Nil
  then show ?case by auto
next
  case (Cons c xs)
  show ?case
  proof (cases "walk go_links v [] (rev (c # xs))")
    case (Inr l)
    then show ?thesis by (intro exI [of _ "rev (c # xs)"] exI [of _ l]) auto
  next
    case (Inl e)
    from Cons.IH [of "c # rest"] obtain ps m s where h: "walk go_links v [] ps = Inr m" "rev xs = ps @ s"
      "real_loc_rev v xs (c # rest) = m @ s @ c # rest" "\<forall>t. s = t # tl s \<longrightarrow> \<not> resolves v (ps @ [t])"
      by blast
    have "\<not> resolves v (rev xs @ [c])" using Inl by (simp add: resolves_def)
    then have "\<forall>t. s @ [c] = t # tl (s @ [c]) \<longrightarrow> \<not> resolves v (ps @ [t])"
      using h(2,4) by (cases s) auto
    with h Inl show ?thesis by (intro exI [of _ ps] exI [of _ m]) auto
  qed
qed

lemma real_loc_cases:
  obtains ps m s where "cs = ps @ s" "walk go_links v [] ps = Inr m" "real_loc v cs = m @ s"
    "\<And>t u. s = t # u \<Longrightarrow> \<not> resolves v (ps @ [t])"
proof -
  obtain ps m s where "walk go_links v [] ps = Inr m" "cs = ps @ s" "real_loc v cs = m @ s"
    and n: "\<forall>t. s = t # tl s \<longrightarrow> \<not> resolves v (ps @ [t])"
    using real_loc_rev_ex [of "rev cs" v "[]"] by (auto simp: real_loc_def)
  moreover have "s = t # u \<Longrightarrow> \<not> resolves v (ps @ [t])" for t u using n by simp
  ultimately show thesis using that by blast
qed

text \<open>Resolution does not depend on how the prefix was written: the longest prefix is unique.\<close>

lemma resolves_prefix: "resolves v (ps @ qs) \<Longrightarrow> resolves v ps"
  unfolding resolves_def using walk_prefix by blast

lemma real_loc_unique:
  assumes "cs = ps @ s" and "walk go_links v [] ps = Inr m" and "\<And>t u. s = t # u \<Longrightarrow> \<not> resolves v (ps @ [t])"
  shows "real_loc v cs = m @ s"
proof -
  obtain qs n r where r: "cs = qs @ r" "walk go_links v [] qs = Inr n" "real_loc v cs = n @ r"
    "\<And>t u. r = t # u \<Longrightarrow> \<not> resolves v (qs @ [t])" by (rule real_loc_cases [of cs v]) blast
  have "ps = qs"
  proof (rule ccontr)
    assume "ps \<noteq> qs"
    from assms(1) r(1) have "ps @ s = qs @ r" by simp
    then consider t u where "qs = ps @ t # u" "s = t # u @ r" | t u where "ps = qs @ t # u" "r = t # u @ s"
      using \<open>ps \<noteq> qs\<close> by (auto simp: append_eq_append_conv2) (metis neq_Nil_conv)+
    then show False
    proof cases
      case 1
      then have "resolves v (ps @ [t])" using r(2) resolves_prefix [of v "ps @ [t]" u] by (auto simp: resolves_def)
      with 1 assms(3) show False by blast
    next
      case 2
      then have "resolves v (qs @ [t])" using assms(2) resolves_prefix [of v "qs @ [t]" u] by (auto simp: resolves_def)
      with 2 r(4) show False by blast
    qed
  qed
  with assms r show ?thesis by simp
qed

lemma real_loc_resolved: "walk go_links v [] cs = Inr l \<Longrightarrow> real_loc v cs = l"
  using real_loc_unique [of cs cs "[]" v l] by simp

lemma walk_split_abs: "normal cs \<Longrightarrow> walk k v d (split_char slash (abs_path cs)) = walk k v d cs"
  by (simp add: split_abs_path walk_step skip_comp_def)

lemma eval_symlinks_abs: "normal cs \<Longrightarrow> eval_symlinks v (abs_path cs) =
    (case walk go_links v [] cs of Inl _ \<Rightarrow> None | Inr l \<Rightarrow> Some (abs_path l))"
  by (simp add: eval_symlinks_def walk_split_abs)

lemma walk_normal: "walk k v d cs = Inr l \<Longrightarrow> vfs_wf v \<Longrightarrow> nodes v d = Some DirN \<Longrightarrow> normal l"
  using walk_exists vfs_wf_normal by blast

lemma real_path_loop_abs:
  assumes "vfs_wf v"
  shows "normal (rev xs @ rest) \<Longrightarrow>
    real_path_loop (eval_symlinks v) p (abs_path (rev xs)) (join_with ''/'' rest) = abs_path (real_loc_rev v xs rest)"
proof (induction xs arbitrary: rest)
  case Nil
  have "path_join [abs_path [], join_with ''/'' rest] = abs_path rest"
    using path_join_abs_path [of "[]" rest] Nil by simp
  moreover have "join_with ''/'' rest = [] \<longleftrightarrow> rest = []"
    using normal_join_last [of rest] Nil by (cases "rest = []") auto
  ultimately show ?case using Nil eval_symlinks_abs [of "[]" v]
    by (subst real_path_loop.simps) auto
next
  case (Cons c xs)
  have n: "normal (rev xs @ [c])" "normal rest" "normal (c # rest)" using Cons.prems by simp_all
  have j: "join_with ''/'' rest = [] \<longleftrightarrow> rest = []"
    using normal_join_last [of rest] n by (cases "rest = []") auto
  show ?case
  proof (cases "walk go_links v [] (rev (c # xs))")
    case (Inr l)
    have "normal l" by (rule walk_normal [OF Inr assms]) (use assms in simp)
    then have "path_join [abs_path l, join_with ''/'' rest] = abs_path (l @ rest)"
      using n path_join_abs_path by blast
    then show ?thesis using Inr n j eval_symlinks_abs [of "rev xs @ [c]" v]
      by (subst real_path_loop.simps) auto
  next
    case (Inl e)
    have d: "path_dir (abs_path (rev xs @ [c])) = abs_path (rev xs)" by (rule path_dir_abs_path [OF n(1)])
    have ne: "abs_path (rev xs) \<noteq> abs_path (rev xs @ [c])" using n by (subst abs_path_inject) auto
    have b: "path_base (abs_path (rev xs @ [c])) = c" by (rule path_base_abs_path [OF n(1)])
    have jn: "path_join [c, join_with ''/'' rest] = join_with ''/'' (c # rest)"
      using path_join_rel n(3) by simp
    have "real_path_loop (eval_symlinks v) p (abs_path (rev xs @ [c])) (join_with ''/'' rest)
        = real_path_loop (eval_symlinks v) p (abs_path (rev xs)) (join_with ''/'' (c # rest))"
      using Inl n eval_symlinks_abs [of "rev xs @ [c]" v] d ne b jn
      by (subst real_path_loop.simps) (simp add: Let_def)
    with Inl Cons.IH [of "c # rest"] Cons.prems show ?thesis by simp
  qed
qed

lemma real_path_abs:
  assumes "vfs_wf v" and "normal cs"
  shows "real_path (eval_symlinks v) (abs_path cs) = abs_path (real_loc v cs)"
  using real_path_loop_abs [OF assms(1), of "rev cs" "[]" "abs_path cs"] assms(2)
  by (simp add: real_path_def real_loc_def)

section \<open>Locations below the root\<close>

lemma real_dir: "vfs_wf v \<Longrightarrow> nodes v ds = Some DirN \<Longrightarrow> walk k v [] ds = Inr ds"
proof (induction ds rule: rev_induct)
  case (snoc c ds)
  then have d: "nodes v ds = Some DirN" by (auto dest: vfs_wf_parent)
  have "normal_comp c" using vfs_wf_normal [OF snoc.prems] by simp
  with snoc d show ?case by (intro walk_snoc_Some [of _ _ _ _ ds]) auto
qed simp

lemma walk_dir_node: "walk k v [] cs = Inr m \<Longrightarrow> vfs_wf v \<Longrightarrow> nodes v (m @ x # y) \<noteq> None \<Longrightarrow> nodes v m = Some DirN"
  by (metis list.distinct(1) option.exhaust vfs_wf_prefix)

lemma root_below_resolved:
  assumes wf: "vfs_wf v" and root: "nodes v rs = Some DirN" and n: "normal cs"
    and cs: "cs = ps @ s" "walk go_links v [] ps = Inr m" "\<And>t u. s = t # u \<Longrightarrow> \<not> resolves v (ps @ [t])"
    and pre: "prefix rs (m @ s)"
  shows "prefix rs m"
proof (rule ccontr)
  assume "\<not> prefix rs m"
  then obtain t u w where t: "rs = m @ t # u" "s = t # u @ w"
    using pre by (auto simp: prefix_def append_eq_append_conv2) (metis list.exhaust append_Nil2 append_Cons)
  have nt: "normal_comp t" using n cs(1) t(2) by simp
  have m: "nodes v m = Some DirN" using walk_dir_node [OF cs(2) wf, of t u] root t(1) by simp
  have "nodes v (m @ [t]) = Some DirN"
  proof (cases "u = []")
    case False
    with vfs_wf_prefix [OF wf, of "m @ [t]" u] root t(1) show ?thesis by simp
  qed (use root t(1) in simp)
  then have "walk go_links v [] (ps @ [t]) = Inr (m @ [t])"
    using walk_snoc_Some [OF cs(2) m nt] by blast
  with cs(3) [OF t(2)] show False by (simp add: resolves_def)
qed

lemma create_mono_fuel: "walk_create k v d cs = Inr l \<Longrightarrow> k \<le> k' \<Longrightarrow> walk_create k' v d cs = Inr l"
proof (induction k v d cs arbitrary: k' rule: walk_create.induct)
  case (2 k v d c cs)
  consider "skip_comp c" | "\<not> skip_comp c" "c = ''..''"
    | t where "\<not> skip_comp c" "c \<noteq> ''..''" "nodes v (d @ [c]) = Some (LinkN t)"
    | "\<not> skip_comp c" "c \<noteq> ''..''" "nodes v (d @ [c]) = Some DirN"
    | "\<not> skip_comp c" "c \<noteq> ''..''" "nodes v (d @ [c]) = None \<or> (\<exists>s. nodes v (d @ [c]) = Some (FileN s))"
    by (metis node.exhaust not_None_eq)
  then show ?case
  proof cases
    case 1
    with 2 show ?thesis by (simp add: create_step [of _ v d c])
  next
    case c: 2
    have "walk_create k v (butlast d) cs = Inr l" using "2.prems"(1) c by (simp add: create_step [of k v d "''..''"])
    then have "walk_create k' v (butlast d) cs = Inr l" using "2.IH"(2) [OF c] "2.prems"(2) by blast
    with c show ?thesis by (simp add: create_step [of k' v d "''..''"])
  next
    case (3 t)
    with "2.prems" obtain j where j: "k = Suc j" "walk_create j v (link_start t d) (split_char slash t @ cs) = Inr l"
      by (auto simp: create_step [of k v d c] split: nat.splits)
    obtain j' where j': "k' = Suc j'" "j \<le> j'" using "2.prems"(2) j(1) by (auto dest: Suc_le_D)
    have "walk_create j' v (link_start t d) (split_char slash t @ cs) = Inr l"
      by (rule "2.IH"(4) [OF 3(1,2,3) refl j(1) j(2) j'(2)])
    with 3 j'(1) show ?thesis by (simp add: create_step [of "Suc j'" v d c])
  next
    case 4
    with 2 show ?thesis by (simp add: create_step [of _ v d c])
  next
    case 5
    with "2.prems" show ?thesis by (auto simp: create_step [of _ v d c] split: option.splits if_splits)
  qed
qed simp

lemma create_snoc_file:
  "walk k v d xs = Inr m \<Longrightarrow> nodes v m \<noteq> Some DirN \<Longrightarrow> vfs_wf v \<Longrightarrow> nodes v d = Some DirN \<Longrightarrow>
     walk_create k v d (xs @ [y]) \<noteq> Inr l"
proof (induction k v d xs rule: walk.induct)
  case (2 k v d c cs)
  consider "skip_comp c" | "\<not> skip_comp c" "c = ''..''"
    | t where "\<not> skip_comp c" "c \<noteq> ''..''" "nodes v (d @ [c]) = Some (LinkN t)"
    | "\<not> skip_comp c" "c \<noteq> ''..''" "nodes v (d @ [c]) = Some DirN"
    | "\<not> skip_comp c" "c \<noteq> ''..''" "nodes v (d @ [c]) = None \<or> (\<exists>s. nodes v (d @ [c]) = Some (FileN s))"
    by (metis node.exhaust not_None_eq)
  then show ?case
  proof cases
    case 1
    with 2 show ?thesis by (simp add: create_step [of _ v d c] walk_step [of _ v d c])
  next
    case c: 2
    have "walk k v (butlast d) cs = Inr m" using "2.prems"(1) c by (simp add: walk_step [of k v d "''..''"])
    then have "walk_create k v (butlast d) (cs @ [y]) \<noteq> Inr l"
      using "2.IH"(2) [OF c] "2.prems" vfs_wf_butlast by blast
    with c show ?thesis by (simp add: create_step [of k v d "''..''"])
  next
    case (3 t)
    with "2.prems" obtain j where j: "k = Suc j" "walk j v (link_start t d) (split_char slash t @ cs) = Inr m"
      by (auto simp: walk_step [of k v d c] split: nat.splits)
    have "nodes v (link_start t d) = Some DirN" using "2.prems"(3,4) by (simp add: link_start_def)
    then have "walk_create j v (link_start t d) ((split_char slash t @ cs) @ [y]) \<noteq> Inr l"
      using "2.IH"(4) [OF 3(1,2,3) refl j(1) j(2) "2.prems"(2,3)] by blast
    with 3 j(1) show ?thesis by (simp add: create_step [of "Suc j" v d c])
  next
    case 4
    with 2 show ?thesis by (simp add: create_step [of _ v d c] walk_step [of _ v d c])
  next
    case 5
    with "2.prems" show ?thesis by (auto simp: create_step [of _ v d c] walk_step [of _ v d c] split: option.splits)
  qed
qed simp

lemma create_parent: "walk_create k v d (xs @ [y]) = Inr l \<Longrightarrow> \<exists>m. walk k v d xs = Inr m"
proof (induction k v d xs rule: walk.induct)
  case (2 k v d c cs)
  from "2.prems" show ?case
    by (auto simp: walk_step [of k v d c] create_step [of k v d c] split: if_splits option.splits node.splits nat.splits
        intro: "2.IH")
qed simp

lemma create_snoc_None:
  "walk k v d xs = Inr m \<Longrightarrow> nodes v (m @ [y]) = None \<Longrightarrow> nodes v m = Some DirN \<Longrightarrow> normal_comp y \<Longrightarrow>
     walk_create k v d (xs @ [y]) = Inr (m @ [y])"
proof (induction k v d xs rule: walk.induct)
  case (1 k v d)
  then show ?case by (auto simp: create_step dest: walk_normal_comp)
next
  case (2 k v d c cs)
  from "2.prems" show ?case
    by (auto simp: walk_step [of k v d c] create_step [of k v d c] split: if_splits option.splits node.splits nat.splits
        intro: "2.IH" "2.IH"(4) [unfolded append_assoc])
qed

text \<open>What the directories made so far have not disturbed.\<close>

definition grown :: "vfs \<Rightarrow> string list \<Rightarrow> loc \<Rightarrow> vfs \<Rightarrow> bool" where
  "grown v cs rs u =
     (vfs_wf u \<and> real_loc u cs = real_loc v cs \<and> nodes u rs = Some DirN
      \<and> (\<forall>x. nodes u x \<noteq> nodes v x \<longrightarrow> nodes v x = None \<and> nodes u x = Some DirN \<and> prefix rs x)
      \<and> (\<forall>k ys l. walk k v [] ys = Inr l \<longrightarrow> walk k u [] ys = Inr l))"

lemma grown_mkdir:
  assumes g: "grown v cs rs u" and n: "normal cs" and pre: "prefix rs (real_loc v cs)"
    and mk: "os_mkdir u ds c = Inr u'" and cs: "cs = ds @ c # e"
  shows "grown v cs rs u'"
proof -
  have wf: "vfs_wf u" and root: "nodes u rs = Some DirN" using g by (simp_all add: grown_def)
  have c: "normal_comp c" "normal e" using n cs by simp_all
  from mk obtain d where d: "walk kernel_links u [] ds = Inr d" "nodes u d = Some DirN" "nodes u (d @ [c]) = None"
    "u' = set_node (d @ [c]) DirN u" by (rule os_mkdir_cases)
  have wd: "walk go_links u [] ds = Inr d" by (rule kernel_walk [OF d(1)])
  have nr: "\<not> resolves u (ds @ [c])"
    using walk_snoc_None [OF wd d(3,2) c(1), of "[]"] by (simp add: resolves_def)
  then have rl: "real_loc u cs = d @ c # e" using real_loc_unique [OF cs wd] by auto
  have "prefix rs d"
    by (rule root_below_resolved [OF wf root n cs wd]) (use nr rl pre g in \<open>auto simp: grown_def\<close>)
  then have below: "prefix rs (d @ [c])" by (rule prefix_prefix)
  have nodes': "nodes u' x = (if x = d @ [c] then Some DirN else nodes u x)" for x
    by (simp add: d(4) set_node_def)
  have wf': "vfs_wf u'" by (rule os_mkdir_wf [OF mk wf c(1)])
  have keep: "walk k u [] ys = Inr l \<Longrightarrow> walk k u' [] ys = Inr l" for k ys l
    unfolding d(4) by (rule walk_set_dir [OF _ d(3)])
  have wc: "walk go_links u' [] (ds @ [c]) = Inr (d @ [c])"
    by (rule walk_snoc_Some [OF keep [OF wd] _ c(1)]) (use d(2) in \<open>auto simp: nodes'\<close>)
  have rl': "real_loc u' cs = (d @ [c]) @ e"
  proof (rule real_loc_unique [OF _ wc])
    show "cs = (ds @ [c]) @ e" by (simp add: cs)
    fix t w assume e: "e = t # w"
    have "nodes u ((d @ [c]) @ [t]) = None" by (rule vfs_wf_below_None [OF wf d(3)])
    then have none: "nodes u' ((d @ [c]) @ [t]) = None" by (simp add: nodes')
    have "walk go_links u' [] ((ds @ [c]) @ t # []) = Inl ENOENT"
      by (rule walk_snoc_None [OF wc none]) (use e c in \<open>auto simp: nodes'\<close>)
    then show "\<not> resolves u' ((ds @ [c]) @ [t])" by (simp add: resolves_def)
  qed
  have vn: "nodes v (d @ [c]) = None"
    using g d(3) unfolding grown_def by (metis option.distinct(1))
  show ?thesis
    unfolding grown_def
  proof (intro conjI allI impI)
    show "real_loc u' cs = real_loc v cs" using rl rl' g by (simp add: grown_def)
    show "nodes u' rs = Some DirN" by (simp add: nodes' root)
    fix x assume "nodes u' x \<noteq> nodes v x"
    then show "nodes v x = None" "nodes u' x = Some DirN" "prefix rs x"
      using g below vn unfolding grown_def nodes' by (auto split: if_splits)
  next
    fix k ys l assume "walk k v [] ys = Inr l"
    then show "walk k u' [] ys = Inr l" using g keep unfolding grown_def by blast
  qed (rule wf')
qed

lemma grown_mkdir_all:
  assumes wf: "vfs_wf v" and root: "nodes v rs = Some DirN" and n: "normal (bs @ [c])"
    and pre: "prefix rs (real_loc v (bs @ [c]))" and mk: "os_mkdir_all v (rev bs) = (r, u)"
  shows "grown v (bs @ [c]) rs u"
proof (rule os_mkdir_all_induct [OF mk, of "grown v (bs @ [c]) rs"])
  show "grown v (bs @ [c]) rs v" using wf root by (simp add: grown_def)
  show "normal (rev bs)" using n by (simp add: list_all_iff)
  fix w w' ds x
  assume g: "grown v (bs @ [c]) rs w" and mk: "os_mkdir w ds x = Inr w'" and "\<exists>e. ds @ x # e = rev (rev bs)"
  then obtain e where "bs @ [c] = ds @ x # (e @ [c])" by auto
  then show "grown v (bs @ [c]) rs w'" by (rule grown_mkdir [OF g n pre mk])
qed

definition no_dangling_leaf :: "vfs \<Rightarrow> string list \<Rightarrow> string \<Rightarrow> bool" where
  "no_dangling_leaf v bs c =
     (\<forall>d t. walk go_links v [] bs = Inr d \<longrightarrow> nodes v (d @ [c]) = Some (LinkN t) \<longrightarrow> resolves v (bs @ [c]))"

lemma create_lands:
  assumes wf: "vfs_wf v" and g: "grown v (bs @ [c]) rs u" and n: "normal (bs @ [c])"
    and cr: "walk_create kernel_links u [] (bs @ [c]) = Inr l" and nd: "no_dangling_leaf v bs c"
  shows "l = real_loc v (bs @ [c])"
proof -
  let ?cs = "bs @ [c]"
  have wfu: "vfs_wf u" and rl: "real_loc u ?cs = real_loc v ?cs"
    and old: "\<And>x. nodes u x \<noteq> nodes v x \<Longrightarrow> nodes v x = None \<and> nodes u x = Some DirN"
    and keep: "\<And>k ys l. walk k v [] ys = Inr l \<Longrightarrow> walk k u [] ys = Inr l"
    using g unfolding grown_def by blast+
  have cr': "walk_create go_links u [] ?cs = Inr l" by (rule create_mono_fuel [OF cr]) simp
  show ?thesis
  proof (cases "resolves u ?cs")
    case True
    then obtain l2 where l2: "walk go_links u [] ?cs = Inr l2" by (auto simp: resolves_def)
    then have "l = l2" using create_existing [OF l2] cr' by simp
    with real_loc_resolved [OF l2] rl show ?thesis by simp
  next
    case False
    obtain pd where pd: "walk go_links u [] bs = Inr pd"
      using create_parent [OF cr] kernel_walk by blast
    have rpd: "real_loc u ?cs = pd @ [c]" using real_loc_unique [OF refl pd] False by auto
    show ?thesis
    proof (cases "nodes u (pd @ [c])")
      case None
      show ?thesis
      proof (cases "nodes u pd = Some DirN")
        case True
        then have "walk_create go_links u [] ?cs = Inr (pd @ [c])"
          using create_snoc_None [OF pd None] n by simp
        with cr' rpd rl show ?thesis by simp
      next
        case notdir: False
        then have "walk_create go_links u [] ?cs \<noteq> Inr l"
          using create_snoc_file [OF pd notdir wfu] wfu by simp
        with cr' show ?thesis by simp
      qed
    next
      case (Some nn)
      have dir: "nodes u pd = Some DirN" by (rule vfs_wf_parent [OF wfu Some])
      show ?thesis
      proof (cases "\<exists>t. nn = LinkN t")
        case True
        then obtain t where t: "nodes v (pd @ [c]) = Some (LinkN t)" using Some old by (metis node.distinct(5) option.inject)
        have dv: "nodes v pd = Some DirN" by (rule vfs_wf_parent [OF wf t])
        have "resolves v ?cs"
        proof (cases "resolves v bs")
          case True
          then obtain d where "walk go_links v [] bs = Inr d" by (auto simp: resolves_def)
          moreover from keep [OF this] pd have "d = pd" by simp
          ultimately show ?thesis using nd t unfolding no_dangling_leaf_def by blast
        next
          case nb: False
          obtain ps m s where s: "?cs = ps @ s" "walk go_links v [] ps = Inr m" "real_loc v ?cs = m @ s"
            "\<And>t u. s = t # u \<Longrightarrow> \<not> resolves v (ps @ [t])" by (rule real_loc_cases [of ?cs v]) blast
          have "s \<noteq> []" using nb s(1,2) resolves_prefix [of v bs "[c]"] by (auto simp: resolves_def)
          then obtain s' where s': "s = s' @ [c]" "bs = ps @ s'"
            using s(1) by (cases s rule: rev_cases) auto
          have "s' \<noteq> []" using nb s' s(2) by (auto simp: resolves_def)
          then obtain y ys where y: "s' = y # ys" by (cases s') auto
          have "pd = m @ s'" using rpd rl s(3) s'(1) by simp
          with dv y have dy: "nodes v (m @ y # ys) = Some DirN" by simp
          then have m: "nodes v m = Some DirN" using walk_dir_node [OF s(2) wf, of y ys] by simp
          have "nodes v (m @ [y]) = Some DirN"
            using dy vfs_wf_prefix [OF wf, of "m @ [y]" ys] by (cases "ys = []") auto
          moreover have "normal_comp y" using n s' y by simp
          ultimately have "walk go_links v [] (ps @ [y]) = Inr (m @ [y])"
            using walk_snoc_Some [OF s(2) m] by blast
          moreover have "\<not> resolves v (ps @ [y])" using s(4) s'(1) y by simp
          ultimately show ?thesis by (simp add: resolves_def)
        qed
        then have "resolves u ?cs" using keep unfolding resolves_def by blast
        with False show ?thesis by simp
      next
        case nolink: False
        have "walk go_links u [] ?cs = Inr (pd @ [c])"
          using walk_snoc_Some [OF pd dir _ Some] nolink n by simp
        with False show ?thesis by (simp add: resolves_def)
      qed
    qed
  qed
qed

section \<open>Confinement of the tools\<close>

text \<open>The paths the tools use are absolute and clean.\<close>

definition tool_path :: "string \<Rightarrow> string \<Rightarrow> string list" where
  "tool_path cwd p = clean_comps True (abs_in cwd p)"

lemma abs_in_path:
  assumes "is_abs cwd" and "p \<noteq> []"
  shows "abs_in cwd p = abs_path (tool_path cwd p)" and "normal (tool_path cwd p)"
proof -
  show "normal (tool_path cwd p)" by (simp add: tool_path_def clean_comps_normal)
  have a: "is_abs (abs_in cwd p)"
  proof (cases "is_abs p")
    case False
    have "is_abs (join_with ''/'' [cwd, p])" "cwd \<noteq> []"
      using assms(1) by (cases cwd; simp add: is_abs_def)+
    then show ?thesis using assms(2) False by (simp add: abs_in_def del: join_with.simps)
  qed (simp add: abs_in_def assms(2))
  have "path_clean (abs_in cwd p) = abs_in cwd p"
  proof (cases "is_abs p")
    case False
    have "is_abs (cwd @ ''/'' @ p)" "cwd \<noteq> []" using assms(1) by (cases cwd; simp add: is_abs_def)+
    then have j: "is_abs (path_join [cwd, p])" by simp
    with False show ?thesis by (simp add: abs_in_def assms(2) path_clean_idem_abs del: path_join.simps)
  qed (simp add: abs_in_def assms(2) path_clean_idem_abs)
  then show "abs_in cwd p = abs_path (tool_path cwd p)"
    using path_clean_abs [OF a] by (simp add: tool_path_def)
qed

text \<open>What a decision other than Deny says about a path.\<close>

lemma allowed_real_loc:
  assumes "d_behavior (evaluate (eval_symlinks v) dm e call ov) \<noteq> Deny" and "abs_path cs \<in> set (tc_paths call)"
    and "e_root e = abs_path rs" and "vfs_wf v" and "normal cs" and "nodes v rs = Some DirN"
  shows "prefix rs (real_loc v cs)"
proof -
  have w: "pathWithin (real_path (eval_symlinks v) (abs_path cs)) (abs_path rs)"
    using assms(1-3,5) by (auto simp: evaluate_behavior policy_spec_def hard_denied_def jail_escape_def split: if_splits)
  have n: "normal rs" by (rule vfs_wf_normal [OF assms(4,6)])
  obtain ps m s where "cs = ps @ s" "walk go_links v [] ps = Inr m" "real_loc v cs = m @ s"
    by (rule real_loc_cases [of cs v]) blast
  moreover from this have "normal m" using walk_normal [OF _ assms(4)] assms(4) by simp
  ultimately have "normal (real_loc v cs)" using assms(5) by simp
  then show ?thesis using w n pathWithin_abs_path real_path_abs [OF assms(4,5)] by simp
qed

lemma kloc_abs: "normal cs \<Longrightarrow> kloc v (abs_path cs) = walk kernel_links v [] cs"
  by (simp add: kloc_def walk_split_abs)

lemma create_split_abs: "normal cs \<Longrightarrow> walk_create k v d (split_char slash (abs_path cs)) = walk_create k v d cs"
  by (simp add: split_abs_path create_step skip_comp_def)


lemma write_stays:
  assumes "d_behavior (evaluate (eval_symlinks v) dm e call ov) \<noteq> Deny" and "wi_file_path i \<noteq> []" and "is_abs cwd"
    and "abs_in cwd (wi_file_path i) \<in> set (tc_paths call)"
    and "e_root e = abs_path rs" and "vfs_wf v" and "nodes v rs = Some DirN"
    and "\<And>bs c. tool_path cwd (wi_file_path i) = bs @ [c] \<Longrightarrow> no_dangling_leaf v bs c"
    and "write_tool sys cwd i v = (r, v')" and "nodes v' l \<noteq> nodes v l"
  shows "prefix rs l"
proof -
  let ?cs = "tool_path cwd (wi_file_path i)"
  have a: "abs_in cwd (wi_file_path i) = abs_path ?cs" "normal ?cs" using abs_in_path [OF assms(3,2)] by blast+
  have pre: "prefix rs (real_loc v ?cs)"
    using allowed_real_loc [OF assms(1) _ assms(5,6) a(2) assms(7)] assms(4) a(1) by simp
  show ?thesis
  proof (cases ?cs rule: rev_cases)
    case Nil
    have d: "path_dir (abs_path []) = abs_path []" by (simp add: abs_path_def)
    obtain x u where mk: "os_mkdir_all v [] = (x, u)" and u: "u = v"
      by (cases "os_stat v ''/''") (auto split: prod.splits)
    have wr: "os_write_file v (abs_path []) s = Inr u' \<longleftrightarrow> False" for s u'
      using assms(6) by (auto simp: os_write_file_def create_split_abs split: option.splits)
    have pc: "path_comps (abs_path []) = []" using clean_comps_abs_path [of "[]"] by (simp add: path_comps_def)
    have "v' = v"
      using assms(9) unfolding write_tool_def Let_def a(1) Nil d pc rev.simps mk u
      by (auto simp: wr split: if_splits option.splits sum.splits)
    with assms(10) show ?thesis by simp
  next
    case (snoc bs c)
    have n: "normal (bs @ [c])" using a(2) snoc by simp
    have d: "path_comps (path_dir (abs_path (bs @ [c]))) = bs"
      using path_dir_abs_path [OF n] n by (simp add: path_comps_def)
    obtain mr u where mk: "os_mkdir_all v (rev bs) = (mr, u)" by fastforce
    have g: "grown v (bs @ [c]) rs u"
      by (rule grown_mkdir_all [OF assms(6,7) n _ mk]) (use pre snoc in simp)
    then have gu: "nodes u x \<noteq> nodes v x \<Longrightarrow> prefix rs x" for x by (simp add: grown_def)
    have "v' = v \<or> v' = u \<or> os_write_file u (abs_path (bs @ [c])) (wi_content i) = Inr v'"
      using assms(9) unfolding write_tool_def Let_def a(1) snoc d mk
      by (auto split: if_splits option.splits sum.splits)
    then show ?thesis
    proof (elim disjE)
      assume w: "os_write_file u (abs_path (bs @ [c])) (wi_content i) = Inr v'"
      then obtain m where m: "walk_create kernel_links u [] (bs @ [c]) = Inr m" "v' = set_node m (FileN (wi_content i)) u"
        using create_split_abs [OF n] by (metis os_write_file_cases)
      have "m = real_loc v (bs @ [c])"
        by (rule create_lands [OF assms(6) g n m(1)]) (rule assms(8) [OF snoc])
      then show "prefix rs l" using m(2) assms(10) gu pre snoc by (auto simp: set_node_def split: if_splits)
    qed (use assms(10) gu in auto)
  qed
qed

text \<open>
  Confinement of writes: a permitted Write changes nothing outside the workspace root,
  neither the file nor the directories it makes on the way, and whether or not it
  succeeds; provided the last component is not a dangling link.
\<close>

theorem write_confined:
  assumes "d_behavior (evaluate (eval_symlinks v) dm e call ov) \<noteq> Deny" and "wi_file_path i \<noteq> []" and "is_abs cwd"
    and "abs_in cwd (wi_file_path i) \<in> set (tc_paths call)"
    and "e_root e = abs_path rs" and "vfs_wf v" and "nodes v rs = Some DirN"
    and "\<And>bs c. tool_path cwd (wi_file_path i) = bs @ [c] \<Longrightarrow> no_dangling_leaf v bs c"
    and "write_tool sys cwd i v = (r, v')" and "nodes v' l \<noteq> nodes v l"
  shows "prefix rs l"
  using assms by (rule write_stays)

lemma edit_stays:
  assumes "d_behavior (evaluate (eval_symlinks v) dm e call ov) \<noteq> Deny" and "ei_file_path i \<noteq> []" and "is_abs cwd"
    and "abs_in cwd (ei_file_path i) \<in> set (tc_paths call)"
    and "e_root e = abs_path rs" and "vfs_wf v" and "nodes v rs = Some DirN"
    and "edit_tool sys cwd i v = (r, v')" and "nodes v' l \<noteq> nodes v l"
  shows "prefix rs l"
proof -
  let ?cs = "tool_path cwd (ei_file_path i)"
  have a: "abs_in cwd (ei_file_path i) = abs_path ?cs" "normal ?cs" using abs_in_path [OF assms(3,2)] by blast+
  obtain content new where c: "os_read_file v (abs_path ?cs) = Inr content" "os_write_file v (abs_path ?cs) new = Inr v'"
    using assms(8,9) a(1) by (auto simp: edit_tool_def Let_def split: sum.splits os_err.splits)
  from c(1) obtain m where m: "walk kernel_links v [] ?cs = Inr m"
    by (auto simp: os_read_file_def kloc_abs [OF a(2)] split: option.splits sum.splits node.splits)
  obtain m' where m': "walk_create kernel_links v [] ?cs = Inr m'" "v' = set_node m' (FileN new) v"
    using c(2) create_split_abs [OF a(2)] by (metis os_write_file_cases)
  have "m' = m" using create_existing [OF m] m'(1) by simp
  moreover have "real_loc v ?cs = m" by (rule real_loc_resolved [OF kernel_walk [OF m]])
  moreover have "l = m'" using m'(2) assms(9) by (auto simp: set_node_def split: if_splits)
  ultimately show ?thesis
    using allowed_real_loc [OF assms(1) _ assms(5,6) a(2) assms(7)] assms(4) a(1) by simp
qed

text \<open>
  Confinement of edits: a permitted Edit changes nothing outside the workspace root.
\<close>

theorem edit_confined:
  assumes "d_behavior (evaluate (eval_symlinks v) dm e call ov) \<noteq> Deny" and "ei_file_path i \<noteq> []" and "is_abs cwd"
    and "abs_in cwd (ei_file_path i) \<in> set (tc_paths call)"
    and "e_root e = abs_path rs" and "vfs_wf v" and "nodes v rs = Some DirN"
    and "edit_tool sys cwd i v = (r, v')" and "nodes v' l \<noteq> nodes v l"
  shows "prefix rs l"
  using assms by (rule edit_stays)

section \<open>The exception: a dangling link as last component\<close>

lemma walk_real_app: "normal rs \<Longrightarrow> vfs_wf v \<Longrightarrow> nodes v (d @ rs) = Some DirN \<Longrightarrow> walk k v d (rs @ cs) = walk k v (d @ rs) cs"
proof (induction rs arbitrary: d)
  case (Cons r rs)
  have "nodes v (d @ [r]) = Some DirN"
    using Cons.prems vfs_wf_prefix [of v "d @ [r]" rs] by (cases "rs = []") auto
  with Cons walk_normal_comp [of r] show ?case by (simp add: walk_step)
qed simp

lemma create_real_app: "normal rs \<Longrightarrow> vfs_wf v \<Longrightarrow> nodes v (d @ rs) = Some DirN \<Longrightarrow>
    walk_create k v d (rs @ cs) = walk_create k v (d @ rs) cs"
proof (induction rs arbitrary: d)
  case (Cons r rs)
  have "nodes v (d @ [r]) = Some DirN"
    using Cons.prems vfs_wf_prefix [of v "d @ [r]" rs] by (cases "rs = []") auto
  with Cons walk_normal_comp [of r] show ?case by (simp add: create_step)
qed simp

text \<open>
  The jail does not hold for a dangling link as the last component: a link inside
  the root that points to a missing name in a directory anywhere passes the test, because
  \<^verbatim>\<open>realPath\<close> falls back to the link's own name, and Write then creates the file
  the link points to.
\<close>

theorem dangling_link_escape:
  assumes wf: "vfs_wf v" and nf: "faults v = (\<lambda>s p. None)" and root: "nodes v rs = Some DirN"
    and link: "nodes v (rs @ [n]) = Some (LinkN (abs_path (ds @ [x])))"
    and out: "nodes v ds = Some DirN" "nodes v (ds @ [x]) = None" "normal_comp x"
    and i: "wi_file_path i = abs_path (rs @ [n])"
  shows "pathWithin (real_path (eval_symlinks v) (abs_path (rs @ [n]))) (abs_path rs)
    \<and> (\<exists>v'. write_tool sys cwd i v = (ok_text (''File created successfully at: '' @ abs_path (rs @ [n])), v')
        \<and> nodes v' (ds @ [x]) = Some (FileN (wi_content i)))"
proof -
  have nr: "normal (rs @ [n])" by (rule vfs_wf_normal [OF wf link])
  have n: "normal rs" "normal_comp n" using nr by simp_all
  have nd: "normal ds" by (rule vfs_wf_normal [OF wf out(1)])
  have sk: "\<not> skip_comp n" "n \<noteq> ''..''" "\<not> skip_comp x" "x \<noteq> ''..''"
    using walk_normal_comp [OF n(2)] walk_normal_comp [OF out(3)] by blast+
  have w: "walk (Suc k) v [] (rs @ [n]) = Inl ENOENT" for k
    using walk_real_app [OF n(1) wf, of "[]"] walk_real_app [OF nd wf, of "[]"] root out link sk nd
    by (simp add: walk_step [of _ _ rs] walk_step [of _ _ ds] link_start_def walk_split_abs)
  have c: "walk_create (Suc k) v [] (rs @ [n]) = Inr (ds @ [x])" for k
    using create_real_app [OF n(1) wf, of "[]"] create_real_app [OF nd wf, of "[]"] root out link sk nd
    by (simp add: create_step [of _ _ rs] create_step [of _ _ ds] link_start_def create_split_abs)
  have "real_loc v (rs @ [n]) = rs @ [n]"
    by (rule real_loc_unique [OF refl real_dir [OF wf root]]) (use w [of 254] in \<open>auto simp: resolves_def\<close>)
  then have jail: "pathWithin (real_path (eval_symlinks v) (abs_path (rs @ [n]))) (abs_path rs)"
    using real_path_abs [OF wf nr] pathWithin_abs_path [OF nr n(1)] by simp
  have p: "abs_in cwd (wi_file_path i) = abs_path (rs @ [n])"
    using nr by (simp add: abs_in_def i)
  have st: "os_stat v (abs_path (rs @ [n])) = Inl ENOENT"
    using w [of 39] nf by (simp add: os_stat_def kloc_abs [OF nr])
  have d: "path_comps (path_dir (abs_path (rs @ [n]))) = rs"
    using path_dir_abs_path [OF nr] n by (simp add: path_comps_def)
  have sr: "os_stat v (abs_path rs) = Inr (rs, DirN)"
    using real_dir [OF wf root, of 40] nf root by (simp add: os_stat_def kloc_abs [OF n(1)])
  have mk: "os_mkdir_all v (rev rs) = (None, v)"
  proof (cases "rev rs")
    case Nil
    with sr show ?thesis by (simp add: abs_path_def)
  next
    case (Cons y ys)
    then have "rev (y # ys) = rs" by (metis rev_rev_ident)
    then have "os_stat v (abs_path (rev (y # ys))) = Inr (rs, DirN)" using sr by simp
    then show ?thesis unfolding Cons by simp
  qed
  have wr: "os_write_file v (abs_path (rs @ [n])) s = Inr (set_node (ds @ [x]) (FileN s) v)" for s
    using c [of 39] nf out(2) by (simp add: os_write_file_def create_split_abs [OF nr])
  have "write_tool sys cwd i v = (ok_text (''File created successfully at: '' @ abs_path (rs @ [n])),
      set_node (ds @ [x]) (FileN (wi_content i)) v)"
    by (simp only: write_tool_def Let_def p st d mk wr sum.case option.case prod.case if_False)
  with jail show ?thesis by (simp add: set_node_def)
qed

end
