(* ===== verification/Tunnel_Safety.thy ===== *)
theory Tunnel_Safety
  imports Tunnel Confinement
begin

text \<open>
  What the server guarantees under every interleaving: nothing runs without permission,
  every decided call leaves one audit entry, an approval covers the approved call, and
  permitted calls stay inside the workspace.
\<close>

section \<open>The operations' effects\<close>

lemma put_shell_inv:
  assumes "table_inv t" and "get_shell t i = Some s" and "shell_inv s'" and "sh_id s' = sh_id s"
  shows "table_inv (put_shell i s' t)"
proof -
  have "tb_counter (put_shell i s' t) = tb_counter t" by (simp add: put_shell_def)
  then show ?thesis using assms unfolding table_inv_def by (simp add: tbl.get_put) (metis option.distinct(1))
qed

lemma read_new_id: "read_new rc f s = (r, t) \<Longrightarrow> sh_id t = sh_id s \<and> (shell_inv s \<longrightarrow> shell_inv t)"
  using read_new_state [of rc f s r t] drain_inv [of s] by (auto simp: drain_def)

text \<open>A tool call changes at most the calling session of the manager, and never its identity.\<close>

definition only_session :: "addr \<Rightarrow> manager \<Rightarrow> manager \<Rightarrow> bool" where
  "only_session a m m' = (mg_index m' = mg_index m \<and> length (mg_heap m') = length (mg_heap m) \<and> mg_ttl m' = mg_ttl m
     \<and> mg_default_cwd m' = mg_default_cwd m
     \<and> (\<forall>b. b \<noteq> a \<longrightarrow> sess m' b = sess m b)
     \<and> ss_id (sess m' a) = ss_id (sess m a) \<and> ss_overlay (sess m' a) = ss_overlay (sess m a)
     \<and> (mgr_inv m \<longrightarrow> mgr_inv m'))"

lemma only_session_refl [simp]: "only_session a m m"
  by (simp add: only_session_def)

lemma only_session_set_shells:
  assumes "mgr_inv m \<Longrightarrow> a < length (mg_heap m) \<Longrightarrow> table_inv t"
  shows "only_session a m (set_shells t a m)"
proof (cases "a < length (mg_heap m)")
  case True
  with assms session_ops_inv(6) [of m t a] show ?thesis
    by (auto simp: only_session_def set_shells_def sess_on_session) (auto simp: on_session_def)
next
  case False
  then have "set_shells t a m = m" by (simp add: set_shells_def on_session_def list_update_beyond)
  then show ?thesis by simp
qed

lemma only_session_chdir: "only_session a m (chdir d a m)"
  using session_ops_inv(1) [of m d a]
  by (auto simp: only_session_def chdir_def sess_on_session) (auto simp: on_session_def)

lemma session_table: "mgr_inv m \<Longrightarrow> a < length (mg_heap m) \<Longrightarrow> table_inv (ss_shells (sess m a))"
  by (simp add: mgr_inv_def)

lemma bash_only_session: "bash_tool sys a i sb = (r, sb') \<Longrightarrow> only_session a (sb_mgr sb) (sb_mgr sb')"
proof -
  assume b: "bash_tool sys a i sb = (r, sb')"
  have st: "start_shell l c (ss_shells (sess (sb_mgr sb) a)) = (x, t) \<Longrightarrow> only_session a (sb_mgr sb) (set_shells t a (sb_mgr sb))" for l c x t
    using start_shell_inv session_table by (intro only_session_set_shells) (metis snd_conv)
  show ?thesis
    using b by (auto simp: bash_tool_def Let_def st only_session_chdir split: if_splits prod.splits sum.splits)
qed

lemma bash_output_only_session: "bash_output_tool sys a i sb = (r, sb') \<Longrightarrow> only_session a (sb_mgr sb) (sb_mgr sb')"
proof -
  assume b: "bash_output_tool sys a i sb = (r, sb')"
  have st: "only_session a (sb_mgr sb) (set_shells (put_shell k s' (ss_shells (sess (sb_mgr sb) a))) a (sb_mgr sb))"
    if "get_shell (ss_shells (sess (sb_mgr sb) a)) k = Some s" "read_new rc f s = (x, s')" for k s s' rc f x
  proof (rule only_session_set_shells)
    assume "mgr_inv (sb_mgr sb)" "a < length (mg_heap (sb_mgr sb))"
    then have t: "table_inv (ss_shells (sess (sb_mgr sb) a))" by (rule session_table)
    then have "shell_inv s" using that(1) by (simp add: table_inv_def)
    then show "table_inv (put_shell k s' (ss_shells (sess (sb_mgr sb) a)))"
      using put_shell_inv [OF t that(1)] read_new_id [OF that(2)] by blast
  qed
  show ?thesis
    using b by (auto simp: bash_output_tool_def Let_def st split: option.splits prod.splits)
qed

lemma kill_shell_only_session: "kill_shell_tool a i sb = (r, sb') \<Longrightarrow> only_session a (sb_mgr sb) (sb_mgr sb')"
proof -
  assume b: "kill_shell_tool a i sb = (r, sb')"
  have st: "table_kill k (ss_shells (sess (sb_mgr sb) a)) = (x, t) \<Longrightarrow> only_session a (sb_mgr sb) (set_shells t a (sb_mgr sb))" for k x t
    using table_kill_inv session_table by (intro only_session_set_shells) (metis snd_conv)
  show ?thesis
    using b by (auto simp: kill_shell_tool_def Let_def st split: if_splits option.splits prod.splits)
qed

lemma dispatch_only_session:
  assumes "dispatch sys a i sb = (r, sb')"
  shows "only_session a (sb_mgr sb) (sb_mgr sb')"
proof (cases i)
  case (BashIn x)
  with assms show ?thesis by (auto simp: dispatch_def Let_def dest: bash_only_session)
next
  case (BashOutputIn x)
  with assms show ?thesis by (auto simp: dispatch_def Let_def dest: bash_output_only_session split: prod.splits)
next
  case (KillShellIn x)
  with assms show ?thesis by (auto simp: dispatch_def Let_def dest: kill_shell_only_session split: prod.splits)
qed (use assms in \<open>auto simp: dispatch_def Let_def on_vfs_def\<close>)

section \<open>conclude, begin and answer\<close>

lemma sv_record_box [simp]: "sv_box (sv_record now fault en tool v el sv) = sv_box sv"
  by (simp add: sv_record_def)

lemma on_manager_box [simp]: "sb_vfs (sv_box (on_manager f sv)) = sb_vfs (sv_box sv)"
  "sb_mgr (sv_box (on_manager f sv)) = f (sb_mgr (sv_box sv))"
  "sv_log (on_manager f sv) = sv_log sv" "sv_metrics (on_manager f sv) = sv_metrics sv"
  by (simp_all add: on_manager_def)

lemma conclude_refused: "conclude out e now fault d pd sv = (ans, sv') \<Longrightarrow> d_behavior d \<noteq> Allow \<Longrightarrow>
    sv_box sv' = sv_box sv \<and> ans = refusal (pd_tool pd) d"
  by (auto simp: conclude_def Let_def)

lemma conclude_allowed:
  assumes "conclude out e now fault d pd sv = (ans, sv')" and "d_behavior d = Allow"
  shows "\<exists>r. dispatch (out_sys out) (pd_addr pd) (pd_input pd) (sv_box sv) = (r, sv_box sv')"
  using assms by (auto simp: conclude_def Let_def split: prod.splits sum.splits)

lemma conclude_only_session:
  assumes "conclude out e now fault d pd sv = (ans, sv')"
  shows "only_session (pd_addr pd) (sb_mgr (sv_box sv)) (sb_mgr (sv_box sv'))"
  using conclude_refused [OF assms] conclude_allowed [OF assms] dispatch_only_session
  by (cases "d_behavior d = Allow") fastforce+

lemma begin_cases:
  assumes "begin_invoke out e start now fault args sv = (b, sv')"
  obtains (rejected) ans where "b = Rejected ans" "sv' = sv"
  | (evaluated) typed a m pd d where
    "parse_input (ia_tool args) (Some (raw_json (ia_input args))) = Inr typed"
    "mgr_get start (ia_session args) (sb_mgr (sv_box sv)) = (a, m)"
    "pd_addr pd = a" "pd_tool pd = ia_tool args" "pd_input pd = typed" "pd_start pd = start"
    "pd_call pd = tool_call_for (out_sys out) (ia_tool args) typed (ss_cwd (sess m a))"
    "d = evaluate (eval_symlinks (sb_vfs (sv_box sv))) (sys_glob (out_sys out)) e (pd_call pd) (ss_overlay (sess m a))"
    "if d_behavior d = Ask then b = Waiting pd \<and> sv' = on_manager (\<lambda>_. m) sv
     else \<exists>ans. b = Decided pd d ans \<and> conclude out e now fault d pd (on_manager (\<lambda>_. m) sv) = (ans, sv')"
proof -
  let ?raw = "raw_json (ia_input args)" and ?m = "sb_mgr (sv_box sv)"
  consider (no) "\<exists>ans. b = Rejected ans" "sv' = sv"
    | (yes) txtin typed where "is_supported (ia_tool args)" "out_marshal out ?raw = Inr txtin"
        "parse_input (ia_tool args) (Some ?raw) = Inr typed"
    using assms by (cases "out_marshal out ?raw"; cases "parse_input (ia_tool args) (Some ?raw)")
      (auto simp: begin_invoke_def Let_def split: if_splits)
  then show thesis
  proof cases
    case no
    then show ?thesis using rejected by blast
  next
    case yes
    obtain a m where g: "mgr_get start (ia_session args) ?m = (a, m)" by (cases "mgr_get start (ia_session args) ?m")
    define call where "call = tool_call_for (out_sys out) (ia_tool args) typed (ss_cwd (sess m a))"
    define pd where "pd = \<lparr>pd_addr = a, pd_tool = ia_tool args, pd_input = typed, pd_raw = txtin,
      pd_call = call, pd_start = start, pd_asked = now\<rparr>"
    define d where "d = evaluate (eval_symlinks (sb_vfs (sv_box sv))) (sys_glob (out_sys out)) e call (ss_overlay (sess m a))"
    have "(if d_behavior d = Ask then (Waiting pd, on_manager (\<lambda>_. m) sv)
        else (case conclude out e now fault d pd (on_manager (\<lambda>_. m) sv) of (ans, sv2) \<Rightarrow> (Decided pd d ans, sv2))) = begin_invoke out e start now fault args sv"
      by (simp add: begin_invoke_def Let_def call_def pd_def d_def yes g)
    also note assms
    finally have "(if d_behavior d = Ask then (Waiting pd, on_manager (\<lambda>_. m) sv)
        else (case conclude out e now fault d pd (on_manager (\<lambda>_. m) sv) of (ans, sv2) \<Rightarrow> (Decided pd d ans, sv2))) = (b, sv')" .
    then show ?thesis
      by (intro evaluated [OF yes(3) g, of pd d]) (auto simp: pd_def call_def d_def split: prod.splits)
  qed
qed


section \<open>Invariants\<close>

definition waiting_ok :: "tunnel \<Rightarrow> bool" where
  "waiting_ok t = (\<forall>k pd. fmlookup (tn_waiting t) k = Some pd \<longrightarrow>
     pd_addr pd < length (mg_heap (sb_mgr (sv_box (tn_server t)))) \<and> tool_of (pd_input pd) = pd_tool pd
     \<and> tc_tool (pd_call pd) = pd_tool pd)"

definition tunnel_inv :: "tunnel \<Rightarrow> bool" where
  "tunnel_inv t = (mgr_inv (sb_mgr (sv_box (tn_server t))) \<and> waiting_ok t)"

text \<open>The heap of sessions keeps its invariant, and no session loses a grant.\<close>

definition heap_grows :: "manager \<Rightarrow> manager \<Rightarrow> bool" where
  "heap_grows m m' = ((mgr_inv m \<longrightarrow> mgr_inv m') \<and> length (mg_heap m) \<le> length (mg_heap m')
     \<and> (\<forall>a < length (mg_heap m). set (ss_overlay (sess m a)) \<subseteq> set (ss_overlay (sess m' a))))"

lemma heap_growsI: "(mgr_inv m \<Longrightarrow> mgr_inv m') \<Longrightarrow> length (mg_heap m) \<le> length (mg_heap m') \<Longrightarrow>
    (\<And>a. a < length (mg_heap m) \<Longrightarrow> set (ss_overlay (sess m a)) \<subseteq> set (ss_overlay (sess m' a))) \<Longrightarrow> heap_grows m m'"
  by (simp add: heap_grows_def)

lemma heap_grows_refl [simp]: "heap_grows m m"
  by (simp add: heap_grows_def)

lemma heap_grows_trans: "heap_grows m m' \<Longrightarrow> heap_grows m' m'' \<Longrightarrow> heap_grows m m''"
  unfolding heap_grows_def by (meson order_less_le_trans order_trans)

lemma only_session_grows: "only_session a m m' \<Longrightarrow> heap_grows m m'"
  unfolding only_session_def heap_grows_def by (metis order_refl)

lemma on_session_grows:
  assumes "\<And>s. ss_id (f s) = ss_id s" and "\<And>s. table_inv (ss_shells s) \<Longrightarrow> table_inv (ss_shells (f s))"
    and "\<And>s. set (ss_overlay s) \<subseteq> set (ss_overlay (f s))"
  shows "heap_grows m (on_session f a m)"
  using on_session_inv [of m f a] assms by (intro heap_growsI) (auto simp: sess_on_session)

lemma touch_grows: "heap_grows m (touch now a m)"
  unfolding touch_def by (rule on_session_grows) simp_all

lemma kill_session_grows: "heap_grows m (kill_session a m)"
  unfolding kill_session_def by (rule on_session_grows) (simp_all add: kill_all_inv)

lemma grant_grows: "heap_grows m (grant tool spec a m)"
  unfolding grant_def by (rule on_session_grows) (auto simp: add_allow_def)

lemma install_grows: "heap_grows m (snd (install now i m))"
  using install_inv [of m now i] by (intro heap_growsI) (simp_all add: install_sess, simp add: install_def put_addr_def)

lemma mgr_get_grows: "mgr_get now i m = (a, m') \<Longrightarrow> heap_grows m m'"
  using install_grows [of m now "session_key i"] touch_grows
  by (auto simp: mgr_get_def Let_def split: option.splits prod.splits intro: heap_grows_trans)

lemma mgr_reset_grows: "mgr_reset now i m = (a, m') \<Longrightarrow> heap_grows m m'"
proof -
  let ?m = "case get_addr m (session_key i) of Some a \<Rightarrow> kill_session a m | None \<Rightarrow> m"
  have "heap_grows m ?m" by (simp add: kill_session_grows split: option.split)
  moreover assume "mgr_reset now i m = (a, m')"
  then have "m' = snd (install now (session_key i) ?m)" by (simp add: mgr_reset_def Let_def)
  ultimately show ?thesis using install_grows heap_grows_trans by metis
qed

lemma del_addr_grows: "heap_grows m (del_addr i m)"
  using del_addr_inv [of m i] by (simp add: heap_grows_def)

lemma gc_once_grows: "heap_grows m (gc_once now m)"
proof -
  have g: "heap_grows u (gc_session now i u)" for i u
    using heap_grows_trans [OF kill_session_grows del_addr_grows]
    by (simp add: gc_session_def split: option.split)
  have "heap_grows u (fold (gc_session now) ks u)" for ks u
    by (induction ks arbitrary: u) (auto intro: heap_grows_trans [OF g])
  then show ?thesis by (simp add: gc_once_def)
qed

lemma gc_tick_grows: "heap_grows m (gc_tick now m)"
  by (simp add: gc_tick_def gc_once_grows)

lemma gc_tick_inv: "mgr_inv m \<Longrightarrow> mgr_inv (gc_tick now m)"
  using gc_tick_grows by (simp add: heap_grows_def)

lemma mgr_get_addr: "mgr_inv m \<Longrightarrow> mgr_get now i m = (a, m') \<Longrightarrow> a < length (mg_heap m')"
  by (auto simp: mgr_get_def install_def put_addr_def touch_def Let_def dest: mgr_inv_addr split: option.splits)

lemma begin_grows:
  assumes "begin_invoke out e start now fault args sv = (b, sv')"
  shows "heap_grows (sb_mgr (sv_box sv)) (sb_mgr (sv_box sv'))"
  using assms
proof (cases rule: begin_cases)
  case (evaluated typed a m pd d)
  note g = mgr_get_grows [OF evaluated(2)]
  show ?thesis
  proof (cases "d_behavior d = Ask")
    case True
    with evaluated(9) g show ?thesis by simp
  next
    case False
    with evaluated(9) obtain ans where "conclude out e now fault d pd (on_manager (\<lambda>_. m) sv) = (ans, sv')" by auto
    then have "heap_grows m (sb_mgr (sv_box sv'))" using conclude_only_session only_session_grows by fastforce
    with g show ?thesis by (rule heap_grows_trans)
  qed
qed simp

lemma ask_user_grows: "ask_user a call el m = (v, m') \<Longrightarrow> heap_grows m m'"
  by (auto simp: ask_user_def grant_grows split: elicit.splits if_splits)

lemma answer_grows:
  assumes "answer_invoke out e answered now fault el pd sv = (ans, sv')"
  shows "heap_grows (sb_mgr (sv_box sv)) (sb_mgr (sv_box sv'))"
proof -
  obtain v m where a: "ask_user (pd_addr pd) (pd_call pd) el (sb_mgr (sv_box sv)) = (v, m)"
    by (cases "ask_user (pd_addr pd) (pd_call pd) el (sb_mgr (sv_box sv))")
  with assms have "heap_grows m (sb_mgr (sv_box sv'))"
    using conclude_only_session [THEN only_session_grows] by (fastforce simp: answer_invoke_def on_manager_def)
  with ask_user_grows [OF a] show ?thesis by (rule heap_grows_trans)
qed

lemma session_tool_grows:
  "session_tool out now action sid sv = (ans, sv') \<Longrightarrow> heap_grows (sb_mgr (sv_box sv)) (sb_mgr (sv_box sv'))"
  using mgr_get_grows mgr_reset_grows
  by (auto simp: session_tool_def Let_def split: if_splits prod.splits)

lemma shell_step_id: "shell_step rc s ev t \<Longrightarrow> sh_id t = sh_id s"
  by (erule shell_stepE) (auto simp: write_out_def write_err_def kill_shell_def shell_exited_def dest!: read_new_id)

lemma shell_event_grows:
  assumes "get_shell (ss_shells (sess m a)) i = Some sh" and "shell_step rc sh ev sh'"
  shows "heap_grows m (set_shells (put_shell i sh' (ss_shells (sess m a))) a m)"
proof -
  have "table_inv (put_shell i sh' (ss_shells (sess m a)))" if t: "table_inv (ss_shells (sess m a))"
  proof -
    have "shell_inv sh" using t assms(1) unfolding table_inv_def by blast
    then show ?thesis
      by (rule put_shell_inv [OF t assms(1) shell_step_inv [OF _ assms(2)] shell_step_id [OF assms(2)]])
  qed
  then show ?thesis using only_session_grows [OF only_session_set_shells] session_table by blast
qed

lemma tunnel_step_grows:
  assumes "tunnel_step out e t ev u"
  shows "heap_grows (sb_mgr (sv_box (tn_server t))) (sb_mgr (sv_box (tn_server u)))"
  using assms
proof (cases rule: tunnel_step.cases)
  case step_rejected
  then show ?thesis using begin_grows by simp
next
  case step_decided
  then show ?thesis using begin_grows by simp
next
  case step_waits
  then show ?thesis using begin_grows by simp
next
  case step_answered
  then show ?thesis using answer_grows by simp
next
  case step_session
  then show ?thesis using session_tool_grows by simp
next
  case step_shell
  then show ?thesis using shell_event_grows by simp
qed (simp_all add: gc_tick_grows)

lemma pending_ok:
  assumes "begin_invoke out e start now fault args sv = (Waiting pd, sv')" and "mgr_inv (sb_mgr (sv_box sv))"
  shows "pd_addr pd < length (mg_heap (sb_mgr (sv_box sv'))) \<and> tool_of (pd_input pd) = pd_tool pd \<and> tc_tool (pd_call pd) = pd_tool pd"
  using assms(1)
proof (cases rule: begin_cases)
  case (evaluated typed a m pd' d)
  then have "pd' = pd" "sv' = on_manager (\<lambda>_. m) sv" by (auto split: if_splits)
  moreover have "tc_tool (tool_call_for sys tool i cwd) = tool" for sys tool i cwd
    by (cases i) (simp_all add: tool_call_for_def)
  ultimately show ?thesis
    using evaluated mgr_get_addr [OF assms(2) evaluated(2)] parse_input_tool [OF evaluated(1)] by simp
qed simp

lemma tunnel_step_inv:
  assumes "tunnel_inv t" and "tunnel_step out e t ev u"
  shows "tunnel_inv u"
proof -
  note g = tunnel_step_grows [OF assms(2)]
  have old: "fmlookup (tn_waiting u) k = Some pd \<Longrightarrow>
      fmlookup (tn_waiting t) k = Some pd \<or>
      pd_addr pd < length (mg_heap (sb_mgr (sv_box (tn_server u)))) \<and> tool_of (pd_input pd) = pd_tool pd \<and> tc_tool (pd_call pd) = pd_tool pd" for k pd
    using assms by (elim tunnel_stepE) (auto simp: tunnel_inv_def dest: pending_ok split: if_splits)
  have "waiting_ok u"
    unfolding waiting_ok_def
  proof (intro allI impI)
    fix k pd assume "fmlookup (tn_waiting u) k = Some pd"
    from old [OF this] g assms(1) show "pd_addr pd < length (mg_heap (sb_mgr (sv_box (tn_server u))))
        \<and> tool_of (pd_input pd) = pd_tool pd \<and> tc_tool (pd_call pd) = pd_tool pd"
      unfolding tunnel_inv_def waiting_ok_def heap_grows_def by fastforce
  qed
  with g assms(1) show ?thesis by (simp add: tunnel_inv_def heap_grows_def)
qed

definition fresh_tunnel :: "tunnel \<Rightarrow> bool" where
  "fresh_tunnel t = (mgr_inv (sb_mgr (sv_box (tn_server t))) \<and> tn_waiting t = fmempty)"

lemma fresh_tunnel_inv: "fresh_tunnel t \<Longrightarrow> tunnel_inv t"
  by (simp add: fresh_tunnel_def tunnel_inv_def waiting_ok_def)

interpretation tn: invariant_system fresh_tunnel "tunnel_step out e" tunnel_inv for out e
  by unfold_locales (erule fresh_tunnel_inv, erule (1) tunnel_step_inv)

section \<open>The audit trail\<close>

fun logged :: "log_fault \<Rightarrow> bool" where
  "logged (MarshalFails m) = False"
| "logged (WriteFails m) = False"
| "logged _ = True"

definition log_open :: "server \<Rightarrow> bool" where
  "log_open sv = (\<exists>l. sv_log sv = Some l \<and> lg_file l \<noteq> None)"

definition log_lines :: "server \<Rightarrow> (string \<times> string) list" where
  "log_lines sv = (case sv_log sv of None \<Rightarrow> []
     | Some l \<Rightarrow> (case lg_file l of None \<Rightarrow> [] | Some es \<Rightarrow> map (\<lambda>en. (en_tool en, en_decision en)) es))"

definition approves :: "elicit \<Rightarrow> bool" where
  "approves el = (case el of ElicitFails err \<Rightarrow> False
     | Elicited action content \<Rightarrow> action = ''accept'' \<and> answer_text content \<in> {''allow_once'', ''allow_always''})"

fun audit_line :: "tunnel_event \<Rightarrow> (string \<times> string) list" where
  "audit_line (CallDecided args pd d fault ans) =
     (if logged fault then [(ia_tool args, behavior_string (d_behavior d))] else [])"
| "audit_line (UserAnswered k pd el fault ans) =
     (if logged fault then [(pd_tool pd, behavior_string (if approves el then Allow else Deny))] else [])"
| "audit_line _ = []"

lemma record_lines:
  assumes "log_open sv"
  shows "log_open (sv_record now fault en tool v el sv) \<and>
    log_lines (sv_record now fault en tool v el sv) =
      log_lines sv @ (if logged fault then [(en_tool en, en_decision en)] else [])"
  using assms by (cases fault) (auto simp: log_open_def log_lines_def sv_record_def record_entry_def Let_def split: option.splits)

lemma log_box [simp]: "log_open (sv\<lparr>sv_box := sb\<rparr>) = log_open sv" "log_lines (sv\<lparr>sv_box := sb\<rparr>) = log_lines sv"
  "log_open (sv\<lparr>sv_metrics := x\<rparr>) = log_open sv" "log_lines (sv\<lparr>sv_metrics := x\<rparr>) = log_lines sv"
  "log_open (on_manager f sv) = log_open sv" "log_lines (on_manager f sv) = log_lines sv"
  by (simp_all add: log_open_def log_lines_def)

lemma conclude_lines:
  assumes "conclude out e now fault d pd sv = (ans, sv')" and "log_open sv"
  shows "log_open sv' \<and> log_lines sv' = log_lines sv @
    (if logged fault then [(pd_tool pd, behavior_string (d_behavior d))] else [])"
  using assms by (auto simp: conclude_def Let_def record_lines entry_for_def split: if_splits prod.splits sum.splits)

lemma ask_user_verdict: "ask_user a call el m = (v, m') \<Longrightarrow> fst v = approves el \<and> (\<not> approves el \<longrightarrow> m' = m)"
  by (auto simp: ask_user_def approves_def split: elicit.splits if_splits)

lemma user_decision_behavior [simp]: "d_behavior (user_decision v) = (if fst v then Allow else Deny)"
  by (simp add: user_decision_def)

lemma answer_conclude:
  assumes "answer_invoke out e answered now fault el pd sv = (ans, sv')"
  obtains v m where "ask_user (pd_addr pd) (pd_call pd) el (sb_mgr (sv_box sv)) = (v, m)" and "fst v = approves el"
    and "conclude out e now fault (user_decision v) pd
      ((on_manager (\<lambda>_. m) sv)\<lparr>sv_metrics := map_option (observe_elicitation (answered - pd_asked pd)) (sv_metrics sv)\<rparr>) = (ans, sv')"
proof -
  obtain v m where a: "ask_user (pd_addr pd) (pd_call pd) el (sb_mgr (sv_box sv)) = (v, m)"
    by (cases "ask_user (pd_addr pd) (pd_call pd) el (sb_mgr (sv_box sv))")
  with assms ask_user_verdict [OF a] show ?thesis
    by (intro that [OF a]) (simp_all add: answer_invoke_def)
qed

lemma begin_lines:
  assumes "begin_invoke out e start now fault args sv = (b, sv')" and "log_open sv"
  shows "log_open sv' \<and> log_lines sv' = log_lines sv @
    (case b of Decided pd d ans \<Rightarrow> audit_line (CallDecided args pd d fault ans) | _ \<Rightarrow> [])"
  using assms(1)
proof (cases rule: begin_cases)
  case (rejected ans)
  then show ?thesis using assms(2) by simp
next
  case (evaluated typed a m pd d)
  show ?thesis
  proof (cases "d_behavior d = Ask")
    case True
    with evaluated(9) assms(2) show ?thesis by simp
  next
    case False
    with evaluated(9) obtain ans where b: "b = Decided pd d ans"
      and c: "conclude out e now fault d pd (on_manager (\<lambda>_. m) sv) = (ans, sv')" by auto
    from conclude_lines [OF c] assms(2) evaluated(4) b show ?thesis by simp
  qed
qed

lemma answer_lines:
  assumes "answer_invoke out e answered now fault el pd sv = (ans, sv')" and "log_open sv"
  shows "log_open sv' \<and> log_lines sv' = log_lines sv @ audit_line (UserAnswered k pd el fault ans)"
proof -
  obtain v m where "fst v = approves el" and c: "conclude out e now fault (user_decision v) pd
      ((on_manager (\<lambda>_. m) sv)\<lparr>sv_metrics := map_option (observe_elicitation (answered - pd_asked pd)) (sv_metrics sv)\<rparr>) = (ans, sv')"
    using assms(1) by (rule answer_conclude)
  with conclude_lines [OF c] assms(2) show ?thesis by simp
qed

lemma step_lines:
  assumes "tunnel_step out e t ev u" and "log_open (tn_server t)"
  shows "log_open (tn_server u) \<and> log_lines (tn_server u) = log_lines (tn_server t) @ audit_line ev"
  using assms(1)
proof (cases rule: tunnel_step.cases)
  case (step_rejected start now fault args ans sv)
  from begin_lines [OF step_rejected(3) assms(2)] step_rejected(1,2) show ?thesis by simp
next
  case (step_decided start now fault args pd d ans sv)
  from begin_lines [OF step_decided(3) assms(2)] step_decided(1,2) show ?thesis by simp
next
  case (step_waits start now fault args pd sv k)
  from begin_lines [OF step_waits(3) assms(2)] step_waits(1,2) show ?thesis by simp
next
  case (step_answered k pd answered now fault el ans sv)
  from answer_lines [OF step_answered(4) assms(2)] step_answered(1,2) show ?thesis by simp
next
  case (step_session now action sid ans sv)
  then have "sv_log sv = sv_log (tn_server t)" by (auto simp: session_tool_def Let_def split: if_splits prod.splits)
  with step_session(1,2) assms(2) show ?thesis by (simp add: log_open_def log_lines_def)
qed (use assms(2) in simp_all)


section \<open>No tool runs without permission\<close>

definition executes :: "tunnel_event \<Rightarrow> bool" where
  "executes ev = (case ev of CallDecided args pd d fault ans \<Rightarrow> d_behavior d = Allow
     | UserAnswered k pd el fault ans \<Rightarrow> approves el | _ \<Rightarrow> False)"

definition client_event :: "tunnel_event \<Rightarrow> bool" where
  "client_event ev = (case ev of CallRejected args ans \<Rightarrow> True | CallDecided args pd d fault ans \<Rightarrow> True
     | CallWaits k args pd \<Rightarrow> True | UserAnswered k pd el fault ans \<Rightarrow> True
     | SessionCalled action sid ans \<Rightarrow> action \<noteq> ''reset'' | _ \<Rightarrow> False)"

text \<open>Every session there was is as it was, but for the time of its last use.\<close>

definition only_touched :: "sandbox \<Rightarrow> sandbox \<Rightarrow> bool" where
  "only_touched sb sb' = (sb_vfs sb' = sb_vfs sb
     \<and> length (mg_heap (sb_mgr sb)) \<le> length (mg_heap (sb_mgr sb'))
     \<and> (\<forall>a < length (mg_heap (sb_mgr sb)).
          ss_shells (sess (sb_mgr sb') a) = ss_shells (sess (sb_mgr sb) a)
          \<and> ss_overlay (sess (sb_mgr sb') a) = ss_overlay (sess (sb_mgr sb) a)
          \<and> ss_cwd (sess (sb_mgr sb') a) = ss_cwd (sess (sb_mgr sb) a)
          \<and> ss_env (sess (sb_mgr sb') a) = ss_env (sess (sb_mgr sb) a)))"

lemma only_touched_refl [simp]: "only_touched sb sb"
  by (simp add: only_touched_def)

lemma only_touched_trans: "only_touched a b \<Longrightarrow> only_touched b c \<Longrightarrow> only_touched a c"
  unfolding only_touched_def by (auto dest: order_less_le_trans)

lemma mgr_get_touched:
  assumes "mgr_get now i m = (a, m')"
  shows "only_touched \<lparr>sb_mgr = m, sb_vfs = v\<rparr> \<lparr>sb_mgr = m', sb_vfs = v\<rparr>"
proof (cases "get_addr m (session_key i)")
  case None
  then have "m' = touch now a (snd (install now (session_key i) m))"
    using assms by (auto simp: mgr_get_def Let_def split: prod.splits)
  then show ?thesis
    by (auto simp: only_touched_def touch_def sess_on_session install_sess) (simp add: install_def put_addr_def)
next
  case (Some b)
  then show ?thesis using assms by (auto simp: mgr_get_def only_touched_def touch_def sess_on_session)
qed

lemma get_on_manager: "mgr_get now i (sb_mgr (sv_box sv)) = (a, m) \<Longrightarrow> only_touched (sv_box sv) (sv_box (on_manager (\<lambda>_. m) sv))"
  using mgr_get_touched [of now i "sb_mgr (sv_box sv)" a m "sb_vfs (sv_box sv)"] by (simp add: on_manager_def only_touched_def)

lemma begin_touched:
  assumes "begin_invoke out e start now fault args sv = (b, sv')"
    and "\<And>pd d ans. b = Decided pd d ans \<Longrightarrow> d_behavior d \<noteq> Allow"
  shows "only_touched (sv_box sv) (sv_box sv')"
  using assms(1)
proof (cases rule: begin_cases)
  case (evaluated typed a m pd d)
  note g = get_on_manager [OF evaluated(2)]
  show ?thesis
  proof (cases "d_behavior d = Ask")
    case True
    with evaluated(9) g show ?thesis by simp
  next
    case False
    with evaluated(9) obtain ans where b: "b = Decided pd d ans"
      and c: "conclude out e now fault d pd (on_manager (\<lambda>_. m) sv) = (ans, sv')" by auto
    from conclude_refused [OF c assms(2) [OF b]] g show ?thesis by simp
  qed
qed simp

lemma answer_touched:
  assumes "answer_invoke out e answered now fault el pd sv = (ans, sv')" and "\<not> approves el"
  shows "sv_box sv' = sv_box sv"
proof -
  obtain v m where "fst v = approves el" and a: "ask_user (pd_addr pd) (pd_call pd) el (sb_mgr (sv_box sv)) = (v, m)"
    and c: "conclude out e now fault (user_decision v) pd
      ((on_manager (\<lambda>_. m) sv)\<lparr>sv_metrics := map_option (observe_elicitation (answered - pd_asked pd)) (sv_metrics sv)\<rparr>) = (ans, sv')"
    using assms(1) by (rule answer_conclude)
  moreover have "m = sb_mgr (sv_box sv)" using ask_user_verdict [OF a] assms(2) by simp
  ultimately show ?thesis using conclude_refused [OF c] assms(2) by (simp add: on_manager_def)
qed

lemma step_touched:
  assumes "tunnel_step out e t ev u" and "client_event ev" and "\<not> executes ev"
  shows "only_touched (sv_box (tn_server t)) (sv_box (tn_server u))"
  using assms(1)
proof (cases rule: tunnel_step.cases)
  case (step_rejected start now fault args ans sv)
  from begin_touched [OF step_rejected(3)] step_rejected(1,2) show ?thesis by simp
next
  case (step_decided start now fault args pd d ans sv)
  from begin_touched [OF step_decided(3)] step_decided(1,2) assms(3) show ?thesis by (simp add: executes_def)
next
  case (step_waits start now fault args pd sv k)
  from begin_touched [OF step_waits(3)] step_waits(1,2) show ?thesis by simp
next
  case (step_answered k pd answered now fault el ans sv)
  from answer_touched [OF step_answered(4)] step_answered(1,2) assms(3) show ?thesis by (simp add: executes_def)
next
  case (step_session now action sid ans sv)
  then show ?thesis using assms(2) get_on_manager
    by (auto simp: client_event_def session_tool_def Let_def split: if_splits prod.splits)
qed (use assms(2) in \<open>simp_all add: client_event_def\<close>)


section \<open>Approvals\<close>

lemma step_keeps_grants:
  assumes "run (tunnel_step out e) t es u"
  shows "heap_grows (sb_mgr (sv_box (tn_server t))) (sb_mgr (sv_box (tn_server u)))"
  using assms by (induction rule: run.induct) (auto intro: heap_grows_trans tunnel_step_grows)

lemma answered_grant:
  assumes "answer_invoke out e answered now fault (Elicited ''accept'' content) pd sv = (ans, sv')"
    and "answer_text content = ''allow_always''" and "pd_addr pd < length (mg_heap (sb_mgr (sv_box sv)))"
  shows "set (add_allow (tc_tool (pd_call pd)) (specifier_for (pd_call pd)) [])
    \<subseteq> set (ss_overlay (sess (sb_mgr (sv_box sv')) (pd_addr pd)))"
proof -
  let ?g = "grant (tc_tool (pd_call pd)) (specifier_for (pd_call pd)) (pd_addr pd) (sb_mgr (sv_box sv))"
  obtain v m where "ask_user (pd_addr pd) (pd_call pd) (Elicited ''accept'' content) (sb_mgr (sv_box sv)) = (v, m)"
    and c: "conclude out e now fault (user_decision v) pd
      ((on_manager (\<lambda>_. m) sv)\<lparr>sv_metrics := map_option (observe_elicitation (answered - pd_asked pd)) (sv_metrics sv)\<rparr>) = (ans, sv')"
    using assms(1) by (rule answer_conclude)
  then have "m = ?g" using assms(2) by (simp add: ask_user_def)
  moreover have "set (add_allow (tc_tool (pd_call pd)) (specifier_for (pd_call pd)) []) \<subseteq> set (ss_overlay (sess ?g (pd_addr pd)))"
    using assms(3) by (auto simp: grant_def sess_on_session add_allow_def)
  moreover have "ss_overlay (sess (sb_mgr (sv_box sv')) (pd_addr pd)) = ss_overlay (sess m (pd_addr pd))"
    using conclude_only_session [OF c] by (simp add: only_session_def)
  ultimately show ?thesis by simp
qed

text \<open>
  C8. \<^verbatim>\<open>allow_always\<close> lasts: once the user has given it for a call, no later call of
  the same session that the grant covers (the same command, the same path) waits for the
  user again, whatever happened in between, unless a configured ask rule demands it.
\<close>

theorem approval_lasts:
  assumes "tunnel_inv t" and "tunnel_step out e t (UserAnswered k pd (Elicited ''accept'' content) fault ans) t'"
    and "answer_text content = ''allow_always''"
    and "run (tunnel_step out e) t' es u" and "tunnel_step out e u (CallWaits k' args pd') w"
    and "pd_addr pd' = pd_addr pd"
    and "covers (sys_glob (out_sys out)) e (add_allow (tc_tool (pd_call pd)) (specifier_for (pd_call pd)) []) (pd_call pd')"
  shows "covers (sys_glob (out_sys out)) e (e_ask e) (pd_call pd')"
proof -
  let ?dm = "sys_glob (out_sys out)" and ?rs = "set (add_allow (tc_tool (pd_call pd)) (specifier_for (pd_call pd)) [])"
  let ?ov = "\<lambda>sv. ss_overlay (sess (sb_mgr (sv_box sv)) (pd_addr pd))"
  from assms(2) obtain answered now where a: "answer_invoke out e answered now fault (Elicited ''accept'' content) pd (tn_server t) = (ans, tn_server t')"
    and l: "pd_addr pd < length (mg_heap (sb_mgr (sv_box (tn_server t))))"
    using assms(1) by (elim tunnel_stepE) (auto simp: tunnel_inv_def waiting_ok_def)
  have "?rs \<subseteq> set (?ov (tn_server t'))" by (rule answered_grant [OF a assms(3) l])
  moreover have "set (?ov (tn_server t')) \<subseteq> set (?ov (tn_server u))"
    using step_keeps_grants [OF assms(4)] answer_grows [OF a] l by (simp add: heap_grows_def)
  ultimately have g: "?rs \<subseteq> set (?ov (tn_server u))" by blast
  have len: "pd_addr pd < length (mg_heap (sb_mgr (sv_box (tn_server u))))"
    using step_keeps_grants [OF assms(4)] answer_grows [OF a] l by (simp add: heap_grows_def)
  from assms(5) obtain start fin f sv' where b: "begin_invoke out e start fin f args (tn_server u) = (Waiting pd', sv')"
    by (elim tunnel_stepE) auto
  then show ?thesis
  proof (cases rule: begin_cases)
    case (evaluated typed a m pd'' d)
    then have pd: "pd'' = pd'" and ask: "d_behavior d = Ask" by (auto split: if_splits)
    then have a: "a = pd_addr pd" using evaluated(3) assms(6) by simp
    have "set (?ov (tn_server u)) \<subseteq> set (ss_overlay (sess m a))"
      using mgr_get_grows [OF evaluated(2)] len a by (simp add: heap_grows_def)
    with g have "covers ?dm e (ss_overlay (sess m a)) (pd_call pd')"
      using assms(7) by (auto simp: covers_def)
    then show ?thesis
      using ask evaluated(8) by (auto simp: evaluate_behavior policy_spec_def covers_append pd split: if_splits)
  qed simp
qed

section \<open>Confinement of the whole call\<close>

lemma dispatch_files:
  assumes "dispatch sys a i sb = (r, sb')"
  shows "i = WriteIn w \<Longrightarrow> sb_vfs sb' = snd (write_tool sys (ss_cwd (sess (sb_mgr sb) a)) w (sb_vfs sb))"
    and "i = EditIn x \<Longrightarrow> sb_vfs sb' = snd (edit_tool sys (ss_cwd (sess (sb_mgr sb) a)) x (sb_vfs sb))"
    and "(\<And>w. i \<noteq> WriteIn w) \<Longrightarrow> (\<And>x. i \<noteq> EditIn x) \<Longrightarrow> (\<And>y. i \<noteq> BashIn y) \<Longrightarrow> sb_vfs sb' = sb_vfs sb"
  using assms by (cases i; auto simp: dispatch_def Let_def on_vfs_def bash_output_tool_def kill_shell_tool_def
      split: prod.splits option.splits if_splits)+

text \<open>
  C2. A call that runs at once, by any tool but Bash, changes the file system only inside
  the workspace root: from the envelope to the disk. A Write whose last component is a
  dangling link is the exception.
\<close>

theorem invoke_confined:
  assumes "begin_invoke out e start now fault args sv = (Decided pd d ans, sv')"
    and "\<And>x. pd_input pd \<noteq> BashIn x"
    and "is_abs (ss_cwd (sess (snd (mgr_get start (ia_session args) (sb_mgr (sv_box sv)))) (pd_addr pd)))"
    and "e_root e = abs_path rs" and "vfs_wf (sb_vfs (sv_box sv))" and "nodes (sb_vfs (sv_box sv)) rs = Some DirN"
    and "\<And>w bs c. pd_input pd = WriteIn w \<Longrightarrow>
      tool_path (ss_cwd (sess (snd (mgr_get start (ia_session args) (sb_mgr (sv_box sv)))) (pd_addr pd))) (wi_file_path w) = bs @ [c] \<Longrightarrow>
      no_dangling_leaf (sb_vfs (sv_box sv)) bs c"
    and "nodes (sb_vfs (sv_box sv')) l \<noteq> nodes (sb_vfs (sv_box sv)) l"
  shows "prefix rs l"
  using assms(1)
proof (cases rule: begin_cases)
  case (evaluated typed a m pd' d')
  let ?v = "sb_vfs (sv_box sv)" and ?cwd = "ss_cwd (sess m a)"
  have ask: "d_behavior d' \<noteq> Ask" using evaluated(9) by (auto split: if_splits)
  with evaluated(9) have eq: "pd' = pd" "d' = d" and c: "conclude out e now fault d pd (on_manager (\<lambda>_. m) sv) = (ans, sv')"
    by auto
  have m: "snd (mgr_get start (ia_session args) (sb_mgr (sv_box sv))) = m" "pd_addr pd = a"
    using evaluated(2,3) eq by simp_all
  have ok: "input_ok typed" by (rule parse_input_wf [OF evaluated(1)])
  have "d_behavior d = Allow" using conclude_refused [OF c] assms(8) by (cases "d_behavior d = Allow") auto
  then have nd: "d_behavior (evaluate (eval_symlinks ?v) (sys_glob (out_sys out)) e (pd_call pd) (ss_overlay (sess m a))) \<noteq> Deny"
    using evaluated(8) eq by simp
  obtain r where r: "dispatch (out_sys out) a typed (sv_box (on_manager (\<lambda>_. m) sv)) = (r, sv_box sv')"
    using conclude_allowed [OF c \<open>d_behavior d = Allow\<close>] evaluated(5) eq m by auto
  note call = evaluated(7) [unfolded eq]
  show ?thesis
  proof (cases typed)
    case (WriteIn w)
    obtain x v' where w: "write_tool (out_sys out) ?cwd w ?v = (x, v')" by (cases "write_tool (out_sys out) ?cwd w ?v")
    have v': "sb_vfs (sv_box sv') = v'"
      using dispatch_files(1) [OF r WriteIn] w by simp
    show ?thesis
    proof (rule write_stays [OF nd _ _ _ assms(4-6) _ w])
      show "wi_file_path w \<noteq> []" using ok WriteIn by simp
      show "is_abs ?cwd" using assms(3) m by simp
      show "abs_in ?cwd (wi_file_path w) \<in> set (tc_paths (pd_call pd))" using call WriteIn by (simp add: tool_call_for_def)
      show "no_dangling_leaf ?v bs c" if "tool_path ?cwd (wi_file_path w) = bs @ [c]" for bs c
        using assms(7) [of w bs c] that evaluated(5) eq WriteIn m by simp
      show "nodes v' l \<noteq> nodes ?v l" using assms(8) v' by simp
    qed
  next
    case (EditIn x)
    obtain y v' where w: "edit_tool (out_sys out) ?cwd x ?v = (y, v')" by (cases "edit_tool (out_sys out) ?cwd x ?v")
    have v': "sb_vfs (sv_box sv') = v'"
      using dispatch_files(2) [OF r EditIn] w by simp
    show ?thesis
    proof (rule edit_stays [OF nd _ _ _ assms(4-6) w])
      show "ei_file_path x \<noteq> []" using ok EditIn by simp
      show "is_abs ?cwd" using assms(3) m by simp
      show "abs_in ?cwd (ei_file_path x) \<in> set (tc_paths (pd_call pd))" using call EditIn by (simp add: tool_call_for_def)
      show "nodes v' l \<noteq> nodes ?v l" using assms(8) v' by simp
    qed
  next
    case (BashIn x)
    then show ?thesis using assms(2) evaluated(5) eq by simp
  qed (use dispatch_files(3) [OF r] assms(8) in simp_all)
qed (use assms(8) in simp_all)

section \<open>Sessions that are no longer listed\<close>

datatype manager_op = GetOp time string | ResetOp time string | TickOp time

fun apply_op :: "manager_op \<Rightarrow> manager \<Rightarrow> manager" where
  "apply_op (GetOp now i) m = snd (mgr_get now i m)"
| "apply_op (ResetOp now i) m = snd (mgr_reset now i m)"
| "apply_op (TickOp now) m = gc_tick now m"

definition orphaned :: "addr \<Rightarrow> manager \<Rightarrow> bool" where
  "orphaned a m = (a < length (mg_heap m) \<and> (\<forall>i. get_addr m i \<noteq> Some a))"

lemma orphan_get:
  assumes "mgr_inv m" and "orphaned a m"
  shows "orphaned a (snd (mgr_get now i m)) \<and> sess (snd (mgr_get now i m)) a = sess m a"
proof -
  obtain b m' where g: "mgr_get now i m = (b, m')" by (cases "mgr_get now i m")
  note p = get_session_parts [OF assms(1) g]
  have "b \<noteq> a" using p(3,4) assms(2) by (cases "get_addr m (session_key i)") (auto simp: orphaned_def)
  then show ?thesis
    using p(1) p(5) [of a] mgr_get_grows [OF g] assms(2) by (auto simp: g orphaned_def heap_grows_def split: if_splits)
qed

lemma orphan_reset:
  assumes "mgr_inv m" and "orphaned a m"
  shows "orphaned a (snd (mgr_reset now i m)) \<and> sess (snd (mgr_reset now i m)) a = sess m a"
proof -
  let ?m = "case get_addr m (session_key i) of Some a \<Rightarrow> kill_session a m | None \<Rightarrow> m"
  have k: "get_addr ?m = get_addr m" "sess ?m a = sess m a" "length (mg_heap ?m) = length (mg_heap m)"
    using assms(2) by (auto simp: kill_session_def sess_on_session orphaned_def split: option.splits)
  have "snd (mgr_reset now i m) = snd (install now (session_key i) ?m)" by (simp add: mgr_reset_def Let_def)
  then show ?thesis
    using k assms(2) install_addr [of now "session_key i" ?m] install_sess(3) [of a ?m now "session_key i"]
      install_sess(1) [of now "session_key i" ?m]
    by (auto simp: orphaned_def) (simp add: install_def put_addr_def)
qed

lemma orphan_tick:
  assumes "mgr_inv m" and "orphaned a m"
  shows "orphaned a (gc_tick now m) \<and> sess (gc_tick now m) a = sess m a"
proof -
  note p = gc_exact_parts [OF assms(1), where now = now]
  have "sess (gc_once now m) a = sess m a" using p(3) [of a] assms(2) by (auto simp: orphaned_def)
  moreover have "get_addr (gc_once now m) i \<noteq> Some a" for i
    using p(1) [of i] assms(2) by (auto simp: orphaned_def split: option.splits)
  moreover have "length (mg_heap m) \<le> length (mg_heap (gc_once now m))"
    using gc_once_grows by (simp add: heap_grows_def)
  ultimately show ?thesis using assms(2) by (simp add: gc_tick_def orphaned_def)
qed

lemma orphan_op:
  "mgr_inv m \<Longrightarrow> orphaned a m \<Longrightarrow>
    mgr_inv (apply_op op m) \<and> orphaned a (apply_op op m) \<and> sess (apply_op op m) a = sess m a"
  by (cases op) (simp_all add: orphan_get orphan_reset orphan_tick mgr_get_inv mgr_reset_inv gc_tick_inv)

lemma orphan_ops:
  "mgr_inv m \<Longrightarrow> orphaned a m \<Longrightarrow> orphaned a (fold apply_op ops m) \<and> sess (fold apply_op ops m) a = sess m a"
  by (induction ops arbitrary: m) (simp_all add: orphan_op)

lemma started_running: "0 < active_count (snd (start_shell None cmd t))"
proof -
  have "get_shell (snd (start_shell None cmd t)) (shell_id (Suc (tb_counter t))) =
      Some (new_shell (shell_id (Suc (tb_counter t))) cmd)"
    by (simp add: start_shell_def Let_def tbl.get_put)
  then have "active_count (snd (start_shell None cmd t)) \<noteq> 0"
    unfolding active_count_0 by (force simp: new_shell_def)
  then show ?thesis by simp
qed

lemma background_started:
  assumes "bi_background i" and "\<And>c d env. sys_launch sys c d env = None" and "dispatch sys a (BashIn i) sb = (r, sb')"
  shows "sb_mgr sb' = set_shells (snd (start_shell None (bi_command i) (ss_shells (sess (sb_mgr sb) a)))) a (sb_mgr sb)"
proof -
  have "sb' = snd (dispatch sys a (BashIn i) sb)" by (simp add: assms(3))
  then show ?thesis using assms(1,2) by (simp add: dispatch_def bash_tool_def Let_def start_shell_def)
qed

text \<open>
  A call that waited for the user while its session was reset or collected runs in
  the session object it kept. A background shell it starts there is running, and no
  later \<^verbatim>\<open>Get\<close>, \<^verbatim>\<open>Reset\<close> or collection ever reaches it: it is not counted, not listed
  and never killed.
\<close>

theorem orphan_shell_untracked:
  assumes "mgr_inv (sb_mgr (sv_box sv))" and "orphaned (pd_addr pd) (sb_mgr (sv_box sv))"
    and "approves el" and "pd_input pd = BashIn i" and "bi_background i"
    and "\<And>c d env. sys_launch (out_sys out) c d env = None"
    and "answer_invoke out e answered now fault el pd sv = (ans, sv')"
  shows "orphaned (pd_addr pd) (fold apply_op ops (sb_mgr (sv_box sv'))) \<and>
    0 < active_count (ss_shells (sess (fold apply_op ops (sb_mgr (sv_box sv'))) (pd_addr pd)))"
proof -
  let ?a = "pd_addr pd" and ?m' = "sb_mgr (sv_box sv')"
  obtain v m where a: "ask_user ?a (pd_call pd) el (sb_mgr (sv_box sv)) = (v, m)" "fst v = approves el"
    and c: "conclude out e now fault (user_decision v) pd
      ((on_manager (\<lambda>_. m) sv)\<lparr>sv_metrics := map_option (observe_elicitation (answered - pd_asked pd)) (sv_metrics sv)\<rparr>) = (ans, sv')"
    using assms(7) by (rule answer_conclude)
  have m: "mgr_inv m" "orphaned ?a m"
    using a(1) assms(1,2) session_ops_inv(4) [OF assms(1)]
    by (auto simp: ask_user_def orphaned_def grant_def split: elicit.splits if_splits)
  obtain r where "dispatch (out_sys out) ?a (BashIn i) ((sv_box sv)\<lparr>sb_mgr := m\<rparr>) = (r, sv_box sv')"
    using conclude_allowed [OF c] a(2) assms(3,4) by (auto simp: on_manager_def)
  then have "?m' = set_shells (snd (start_shell None (bi_command i) (ss_shells (sess m ?a)))) ?a m"
    using background_started [OF assms(5,6)] by simp
  then have "0 < active_count (ss_shells (sess ?m' ?a))" "orphaned ?a ?m'"
    using m(2) by (simp_all add: set_shells_def sess_on_session orphaned_def started_running)
  moreover have "mgr_inv ?m'" using answer_grows [OF assms(7)] assms(1) by (simp add: heap_grows_def)
  ultimately show ?thesis using orphan_ops by metis
qed

end
