(* ===== verification/Tunnel_Metrics.thy ===== *)
theory Tunnel_Metrics
  imports Tunnel_Safety
begin

text \<open>
  The metrics against the calls: whatever interleaves, the counters count every decided call
  once, by tool and outcome, every one of them has one duration, and every question put to
  the user one waiting time. Unlike the audit log they lose nothing when a write fails.
\<close>

fun has_failed :: "answer \<Rightarrow> bool" where
  "has_failed (Failed err) = True"
| "has_failed (Replied c b) = False"

fun outcome :: "tunnel_event \<Rightarrow> (string \<times> string) list" where
  "outcome (CallDecided args pd d fault ans) =
     [(pd_tool pd, if has_failed ans then ''error'' else behavior_string (d_behavior d))]"
| "outcome (UserAnswered k pd el fault ans) =
     [(pd_tool pd, if has_failed ans then ''error'' else behavior_string (if approves el then Allow else Deny))]"
| "outcome _ = []"

fun asked :: "tunnel_event \<Rightarrow> nat" where
  "asked (UserAnswered k pd el fault ans) = 1"
| "asked _ = 0"

text \<open>\<open>m'\<close> is \<open>m\<close> after the outcomes \<open>os\<close> and \<open>n\<close> questions.\<close>

definition counted :: "(string \<times> string) list \<Rightarrow> nat \<Rightarrow> metrics \<Rightarrow> metrics \<Rightarrow> bool" where
  "counted os n m m' \<longleftrightarrow>
     (\<forall>l. mt_invocations m' l = mt_invocations m l + count_list os l)
     \<and> (\<forall>t. length (mt_durations m' t) = length (mt_durations m t) + count_list (map fst os) t)
     \<and> length (mt_elicitations m') = length (mt_elicitations m) + n"

lemma counted_refl [simp]: "counted [] 0 m m"
  by (simp add: counted_def)

lemma counted_trans: "counted os n m m' \<Longrightarrow> counted os' n' m' m'' \<Longrightarrow> counted (os @ os') (n + n') m m''"
  by (simp add: counted_def)

lemma counted_invocation: "counted [(t, v)] 0 m (observe_invocation t v d m)"
  by (simp add: counted_def observe_invocation_def)

lemma counted_elicitation: "counted [] 1 m (observe_elicitation d m)"
  by (simp add: counted_def observe_elicitation_def)

lemma conclude_counted:
  assumes "conclude out e now fault d pd sv = (ans, sv')" and "sv_metrics sv = Some m"
  shows "\<exists>m'. sv_metrics sv' = Some m'
    \<and> counted [(pd_tool pd, if has_failed ans then ''error'' else behavior_string (d_behavior d))] 0 m m'"
  using assms counted_invocation
  by (auto simp: conclude_def Let_def sv_record_def refusal_def json_result_def text_result_def
      split: if_splits prod.splits sum.splits)

lemma begin_counted:
  assumes "begin_invoke out e start now fault args sv = (b, sv')" and "sv_metrics sv = Some m"
  shows "\<exists>m'. sv_metrics sv' = Some m'
    \<and> counted (case b of Decided pd d ans \<Rightarrow> outcome (CallDecided args pd d fault ans) | _ \<Rightarrow> []) 0 m m'"
  using assms(1)
proof (cases rule: begin_cases)
  case (rejected ans)
  with assms(2) show ?thesis by simp
next
  case (evaluated typed a mgr pd d)
  show ?thesis
  proof (cases "d_behavior d = Ask")
    case True
    with evaluated(9) assms(2) show ?thesis by simp
  next
    case False
    with evaluated(9) obtain ans where b: "b = Decided pd d ans"
      and c: "conclude out e now fault d pd (on_manager (\<lambda>_. mgr) sv) = (ans, sv')" by auto
    from conclude_counted [OF c] assms(2) b show ?thesis by simp
  qed
qed

lemma answer_counted:
  assumes "answer_invoke out e answered now fault el pd sv = (ans, sv')" and "sv_metrics sv = Some m"
  shows "\<exists>m'. sv_metrics sv' = Some m' \<and> counted (outcome (UserAnswered k pd el fault ans)) 1 m m'"
proof -
  let ?m = "observe_elicitation (answered - pd_asked pd) m"
  obtain v mgr where v: "fst v = approves el" and c: "conclude out e now fault (user_decision v) pd
      ((on_manager (\<lambda>_. mgr) sv)\<lparr>sv_metrics := map_option (observe_elicitation (answered - pd_asked pd)) (sv_metrics sv)\<rparr>) = (ans, sv')"
    using assms(1) by (rule answer_conclude)
  from conclude_counted [OF c, of ?m, unfolded user_decision_behavior v] assms(2) obtain m' where "sv_metrics sv' = Some m'"
    and "counted (outcome (UserAnswered k pd el fault ans)) 0 ?m m'" by auto
  with counted_trans [OF counted_elicitation this(2)] show ?thesis by simp
qed

lemma step_counted:
  assumes "tunnel_step out e t ev u" and "sv_metrics (tn_server t) = Some m"
  shows "\<exists>m'. sv_metrics (tn_server u) = Some m' \<and> counted (outcome ev) (asked ev) m m'"
  using assms(1)
proof (cases rule: tunnel_step.cases)
  case (step_rejected start now fault args ans sv)
  from begin_counted [OF step_rejected(3) assms(2)] step_rejected(1,2) show ?thesis by simp
next
  case (step_decided start now fault args pd d ans sv)
  from begin_counted [OF step_decided(3) assms(2)] step_decided(1,2) show ?thesis by simp
next
  case (step_waits start now fault args pd sv k)
  from begin_counted [OF step_waits(3) assms(2)] step_waits(1,2) show ?thesis by simp
next
  case (step_answered k pd answered now fault el ans sv)
  from answer_counted [OF step_answered(4) assms(2)] step_answered(1,2) show ?thesis by simp
next
  case (step_session now action sid ans sv)
  then have "sv_metrics sv = sv_metrics (tn_server t)" by (auto simp: session_tool_def Let_def split: if_splits prod.splits)
  with step_session(1,2) assms(2) show ?thesis by simp
qed (use assms(2) in simp_all)

text \<open>
  C4. The metrics are exact under every interleaving: each counter has grown by the number of
  decided calls of its tool and outcome (the verdict, or error when the tool failed), each
  tool has one more duration per decided call, and there is one waiting time per answer.
\<close>

theorem metrics_exact:
  assumes "run (tunnel_step out e) t es u" and "sv_metrics (tn_server t) = Some m"
  shows "\<exists>m'. sv_metrics (tn_server u) = Some m' \<and> counted (concat (map outcome es)) (sum_list (map asked es)) m m'"
  using assms
proof (induction rule: run.induct)
  case (run_snoc s es t ev u)
  then obtain m' where "sv_metrics (tn_server t) = Some m'" "counted (concat (map outcome es)) (sum_list (map asked es)) m m'"
    by blast
  with step_counted [OF run_snoc.hyps(2)] counted_trans show ?case by fastforce
qed simp

end
