(* ===== verification/Harness_Examples.thy ===== *)
theory Harness_Examples
  imports Confinement File_Tools Policy_Examples
begin

text \<open>
  A small file system with a workspace, a directory outside it and two links, on which
  the theorems about the file tools are applied.
\<close>

definition demo_node :: "loc \<Rightarrow> node option" where
  "demo_node l =
     (if l \<in> {[], [''work''], [''etc'']} then Some DirN
      else if l = [''work'', ''f''] then Some (FileN (''one'' @ [nl] @ ''two''))
      else if l = [''work'', ''in''] then Some (LinkN ''/work/f'')
      else if l = [''work'', ''out''] then Some (LinkN ''/etc/new'')
      else None)"

definition demo_vfs :: vfs where
  "demo_vfs = \<lparr>nodes = demo_node, mtimes = (\<lambda>l. 0), faults = (\<lambda>s p. None)\<rparr>"

definition demo_system :: system where
  "demo_system = \<lparr>sys_environ = [], sys_tmp = Inr ''/tmp/x'',
     sys_run = (\<lambda>v s d env t. (\<lparr>fp_start_err = None, fp_end = Exited None, fp_stdout = [], fp_stderr = [],
        fp_exit_code = 0, fp_tmp_content = None\<rparr>, v)),
     sys_launch = (\<lambda>c d env. None), sys_regexp = (\<lambda>r. None), sys_regexp_err = (\<lambda>r. []), sys_glob = demo_dm,
     sys_split = (\<lambda>p. (p, [])), sys_tree = (\<lambda>v p. DUnreadable), sys_readdir = (\<lambda>v p. None),
     sys_fold = (\<lambda>a b. a = b), sys_err = (\<lambda>op p e. op), sys_rg = None, sys_mtime = (\<lambda>v p. None)\<rparr>"

lemma demo_nodes [simp]: "nodes demo_vfs = demo_node" "faults demo_vfs = (\<lambda>s p. None)"
  by (simp_all add: demo_vfs_def)

lemma demo_wf: "vfs_wf demo_vfs"
  unfolding vfs_wf_def
proof (intro conjI allI impI)
  show "nodes demo_vfs [] = Some DirN" by (simp add: demo_node_def)
  fix d c assume "nodes demo_vfs (d @ [c]) \<noteq> None"
  then have "d @ [c] \<in> {[''work''], [''etc''], [''work'', ''f''], [''work'', ''in''], [''work'', ''out'']}"
    by (auto simp: demo_node_def split: if_splits)
  then have "d \<in> {[], [''work'']}" by (auto simp: append_eq_Cons_conv)
  then show "nodes demo_vfs d = Some DirN" by (auto simp: demo_node_def)
next
  fix l assume "nodes demo_vfs l \<noteq> None"
  then have "l \<in> {[], [''work''], [''etc''], [''work'', ''f''], [''work'', ''in''], [''work'', ''out'']}"
    by (auto simp: demo_node_def split: if_splits)
  then show "normal l" by (auto simp: normal_comp_def)
qed

text \<open>In \<^verbatim>\<open>bypassPermissions\<close> mode with no rules, the jail is what decides.\<close>

definition bypass_engine :: engine where
  "bypass_engine = demo_engine\<lparr>e_mode := ModeBypassPermissions, e_deny := [], e_cred := []\<rparr>"

lemma bypass_allows:
  assumes "pathWithin (real_path (eval_symlinks v) (path_clean p)) ''/work''"
    and "\<not> str_contains (path_clean p) ''/.ssh/''" and "\<not> str_contains (real_path (eval_symlinks v) (path_clean p)) ''/.ssh/''"
  shows "d_behavior (evaluate (eval_symlinks v) demo_dm bypass_engine (read_call p) ov) \<noteq> Deny"
  using assms
  by (simp add: evaluate_behavior policy_spec_def hard_denied_def jail_escape_def credential_hit_def Let_def
      read_call_def bypass_engine_def demo_engine_def is_credential_path_def covers_def mode_allows_def)

lemma demo_walk_f: "walk (Suc k) demo_vfs [] [''work'', ''f''] = Inr [''work'', ''f'']"
  by (simp add: walk_step demo_node_def skip_comp_def)

lemma demo_walk_new: "walk (Suc k) demo_vfs [] [''work'', ''new''] = Inl ENOENT"
  by (simp add: walk_step demo_node_def skip_comp_def)

lemma demo_abs: "abs_in ''/work'' ''f'' = ''/work/f''" "abs_in ''/work'' ''new'' = ''/work/new''" "is_abs ''/work''"
  "clean_comps True ''/work/f'' = [''work'', ''f'']" "clean_comps True ''/work/new'' = [''work'', ''new'']"
  "abs_path [''work'', ''f''] = ''/work/f''" "abs_path [''work'', ''new''] = ''/work/new''"
  by code_simp+

lemma demo_clean: "path_clean ''/work/f'' = ''/work/f''" "path_clean ''/work/new'' = ''/work/new''"
  using path_clean_abs_path [of "[''work'', ''f'']"] path_clean_abs_path [of "[''work'', ''new'']"]
  by (simp_all add: demo_abs normal_comp_def)

lemma demo_real: "real_path (eval_symlinks demo_vfs) ''/work/f'' = ''/work/f''"
  "real_path (eval_symlinks demo_vfs) ''/work/new'' = ''/work/new''"
proof -
  have "real_loc demo_vfs [''work'', ''f''] = [''work'', ''f'']"
    using real_loc_resolved demo_walk_f [of 254] by simp
  then show "real_path (eval_symlinks demo_vfs) ''/work/f'' = ''/work/f''"
    using real_path_abs [OF demo_wf, of "[''work'', ''f'']"] by (simp add: demo_abs normal_comp_def)
  have "walk go_links demo_vfs [] [''work''] = Inr [''work'']"
    by (simp add: walk_step demo_node_def skip_comp_def)
  then have "real_loc demo_vfs [''work'', ''new''] = [''work''] @ [''new'']"
    by (rule real_loc_unique [rotated]) (use demo_walk_new [of 254] in \<open>auto simp: resolves_def\<close>)
  then show "real_path (eval_symlinks demo_vfs) ''/work/new'' = ''/work/new''"
    using real_path_abs [OF demo_wf, of "[''work'', ''new'']"] by (simp add: demo_abs normal_comp_def)
qed

lemma demo_allowed:
  "d_behavior (evaluate (eval_symlinks demo_vfs) demo_dm bypass_engine (read_call ''/work/f'') []) \<noteq> Deny"
  "d_behavior (evaluate (eval_symlinks demo_vfs) demo_dm bypass_engine (read_call ''/work/new'') []) \<noteq> Deny"
proof -
  have c: "pathWithin ''/work/f'' ''/work''" "pathWithin ''/work/new'' ''/work''"
    "\<not> str_contains ''/work/f'' ''/.ssh/''" "\<not> str_contains ''/work/new'' ''/.ssh/''" by code_simp+
  show "d_behavior (evaluate (eval_symlinks demo_vfs) demo_dm bypass_engine (read_call ''/work/f'') []) \<noteq> Deny"
    "d_behavior (evaluate (eval_symlinks demo_vfs) demo_dm bypass_engine (read_call ''/work/new'') []) \<noteq> Deny"
    by (rule bypass_allows; simp add: demo_clean demo_real c)+
qed

lemma demo_root: "e_root bypass_engine = abs_path [''work'']" "nodes demo_vfs [''work''] = Some DirN"
  by (simp_all add: bypass_engine_def demo_engine_def abs_path_def demo_node_def)

lemma demo_call: "tc_paths (read_call p) = [p]"
  by (simp add: read_call_def)

lemma demo_kloc: "kloc demo_vfs ''/work/f'' = Inr [''work'', ''f'']"
  using kloc_abs [of "[''work'', ''f'']" demo_vfs] demo_walk_f [of 39] by (simp add: demo_abs normal_comp_def)

lemma demo_read: "os_read_file demo_vfs ''/work/f'' = Inr (''one'' @ [nl] @ ''two'')"
  "os_stat demo_vfs ''/work/f'' = Inr ([''work'', ''f''], FileN (''one'' @ [nl] @ ''two''))"
  by (simp_all add: os_read_file_def os_stat_def demo_kloc demo_node_def)


lemma demo_write: "\<exists>r v'. write_tool demo_system ''/work'' \<lparr>wi_file_path = ''new'', wi_content = ''x''\<rparr> demo_vfs = (r, v')
   \<and> nodes v' [''work'', ''new''] \<noteq> nodes demo_vfs [''work'', ''new'']"
proof -
  have n: "normal [''work'', ''new'']" "normal [''work'']" by (simp_all add: normal_comp_def)
  have w: "walk kernel_links demo_vfs [] [''work''] = Inr [''work'']" by (simp add: walk_step demo_node_def skip_comp_def)
  have s1: "os_stat demo_vfs ''/work/new'' = Inl ENOENT"
    using demo_walk_new [of 39] kloc_abs [OF n(1), of demo_vfs] by (simp add: os_stat_def demo_abs)
  have s2: "os_stat demo_vfs (abs_path [''work'']) = Inr ([''work''], DirN)"
    using w kloc_abs [OF n(2), of demo_vfs] by (simp add: os_stat_def demo_node_def)
  have d: "path_comps (path_dir ''/work/new'') = [''work'']"
    using path_dir_abs_path [of "[''work'']" "''new''"] n by (simp add: path_comps_def demo_abs)
  have "walk_create kernel_links demo_vfs [] [''work'', ''new''] = Inr [''work'', ''new'']"
    by (simp add: create_step demo_node_def skip_comp_def)
  then have wr: "os_write_file demo_vfs ''/work/new'' s = Inr (set_node [''work'', ''new''] (FileN s) demo_vfs)" for s
    using create_split_abs [OF n(1), of kernel_links demo_vfs "[]"] by (simp add: os_write_file_def demo_abs demo_node_def)
  show ?thesis
    by (simp add: write_tool_def demo_abs s1 d s2 wr demo_node_def) (simp add: set_node_def)
qed

lemma demo_leaf: "no_dangling_leaf demo_vfs [''work''] ''new''"
proof -
  have "walk go_links demo_vfs [] [''work''] = Inr [''work'']" by (simp add: walk_step demo_node_def skip_comp_def)
  then show ?thesis by (simp add: no_dangling_leaf_def) (simp add: demo_node_def)
qed

lemma write_confined_witness:
  "prefix [''work''] [''work'', ''new''] \<and>
   (\<exists>r v'. write_tool demo_system ''/work'' \<lparr>wi_file_path = ''new'', wi_content = ''x''\<rparr> demo_vfs = (r, v')
     \<and> nodes v' [''work'', ''new''] \<noteq> nodes demo_vfs [''work'', ''new''])"
proof
  obtain r v' where w: "write_tool demo_system ''/work'' \<lparr>wi_file_path = ''new'', wi_content = ''x''\<rparr> demo_vfs = (r, v')"
    "nodes v' [''work'', ''new''] \<noteq> nodes demo_vfs [''work'', ''new'']" using demo_write by blast
  have t: "tool_path ''/work'' ''new'' = [''work''] @ [''new'']" by (simp add: tool_path_def demo_abs)
  note nd = demo_leaf
  show "prefix [''work''] [''work'', ''new'']"
    by (rule write_confined [OF demo_allowed(2) _ demo_abs(3) _ demo_root(1) demo_wf demo_root(2) _ w])
      (use nd in \<open>simp_all add: demo_abs demo_call t\<close>)
qed (rule demo_write)

section \<open>Read and Edit\<close>

abbreviation demo_data :: string where "demo_data \<equiv> ''one'' @ [nl] @ ''two''"

definition demo_edit :: edit_input where
  "demo_edit = \<lparr>ei_file_path = ''f'', ei_old_string = ''two'', ei_new_string = ''three'', ei_replace_all = False\<rparr>"

definition demo_page :: "int \<Rightarrow> read_input" where
  "demo_page lim = \<lparr>ri_file_path = ''f'', ri_offset = 2, ri_limit = lim\<rparr>"

lemma demo_lines: "split_file_lines demo_data = [''one'', ''two'']" "CHR 0x00 \<notin> set (take 8192 demo_data)"
  by code_simp+

lemma demo_applied: "edit_apply demo_edit demo_data = Inr (''one'' @ [nl] @ ''three'')"
  "edit_window demo_edit demo_data (''one'' @ [nl] @ ''three'') = (1, 2)"
  by code_simp+

lemma demo_edit_fields [simp]: "ei_file_path demo_edit = ''f''"
  "ei_old_string demo_edit = ''two''" "ei_new_string demo_edit = ''three''" "\<not> ei_replace_all demo_edit" "ri_file_path (demo_page k) = ''f''"
  "ri_offset (demo_page k) = 2" "ri_limit (demo_page k) = k"
  by (simp_all add: demo_edit_def demo_page_def)

lemma demo_write_f: "os_write_file demo_vfs ''/work/f'' s = Inr (set_node [''work'', ''f''] (FileN s) demo_vfs)"
proof -
  have n: "normal [''work'', ''f'']" by (simp add: normal_comp_def)
  have "walk_create kernel_links demo_vfs [] [''work'', ''f''] = Inr [''work'', ''f'']"
    by (simp add: create_step demo_node_def skip_comp_def)
  then show ?thesis
    using create_split_abs [OF n, of kernel_links demo_vfs "[]"] by (simp add: os_write_file_def demo_abs demo_node_def)
qed

lemma demo_edited: "\<exists>r. edit_tool demo_system ''/work'' demo_edit demo_vfs =
    (r, set_node [''work'', ''f''] (FileN (''one'' @ [nl] @ ''three'')) demo_vfs) \<and> \<not> tr_error r"
  by (simp only: edit_tool_def Let_def demo_edit_fields demo_abs demo_read demo_applied demo_write_f sum.case)
    (simp add: ok_text_def)


lemma read_limit_overflow_witness:
  "read_content (demo_page 9223372036854775807) ''/work/f'' demo_data = ok_text []"
  by (rule read_limit_overflow) (simp_all only: demo_lines demo_edit_fields; simp add: max_int_def)+


lemma edit_snippet_in_range_witness: "(1::int) \<le> 1 \<and> (1::int) \<le> 2 \<and> 2 \<le> int (length (split_file_lines (''one'' @ [nl] @ ''three'')))"
  by (rule edit_snippet_in_range [OF _ demo_applied]) simp

lemma edit_confined_witness:
  "\<exists>r v'. edit_tool demo_system ''/work'' demo_edit demo_vfs = (r, v') \<and>
     nodes v' [''work'', ''f''] \<noteq> nodes demo_vfs [''work'', ''f''] \<and> prefix [''work''] [''work'', ''f'']"
proof -
  obtain r v' where e: "edit_tool demo_system ''/work'' demo_edit demo_vfs = (r, v')"
    and v': "v' = set_node [''work'', ''f''] (FileN (''one'' @ [nl] @ ''three'')) demo_vfs" using demo_edited by blast
  have c: "nodes v' [''work'', ''f''] \<noteq> nodes demo_vfs [''work'', ''f'']"
    by (simp add: v' set_node_def demo_node_def)
  have "prefix [''work''] [''work'', ''f'']"
    by (rule edit_confined [OF demo_allowed(1) _ demo_abs(3) _ demo_root(1) demo_wf demo_root(2) e c])
      (simp_all add: demo_abs demo_call)
  with e c show ?thesis by blast
qed

lemma dangling_link_escape_witness:
  "\<exists>v'. write_tool demo_system ''/work'' \<lparr>wi_file_path = ''/work/out'', wi_content = ''x''\<rparr> demo_vfs =
     (ok_text (''File created successfully at: /work/out''), v') \<and> nodes v' [''etc'', ''new''] = Some (FileN ''x'')"
proof -
  have a: "abs_path ([''work''] @ [''out'']) = ''/work/out''" "abs_path ([''etc''] @ [''new'']) = ''/etc/new''"
    by code_simp+
  have "\<exists>v'. write_tool demo_system ''/work'' \<lparr>wi_file_path = ''/work/out'', wi_content = ''x''\<rparr> demo_vfs =
     (ok_text (''File created successfully at: '' @ abs_path ([''work''] @ [''out''])), v') \<and>
      nodes v' ([''etc''] @ [''new'']) = Some (FileN (wi_content \<lparr>wi_file_path = ''/work/out'', wi_content = ''x''\<rparr>))"
    by (rule dangling_link_escape [THEN conjunct2, OF demo_wf])
      (simp_all add: abs_path_def demo_node_def normal_comp_def)
  then show ?thesis unfolding a by simp
qed

end
