(* ===== verification/Tunnel_Examples.thy ===== *)
theory Tunnel_Examples
  imports Tunnel_Metrics Harness_Examples
begin

text \<open>The theorems about the server, applied to small traces.\<close>

definition demo_out :: outside where
  "demo_out = \<lparr>out_sys = demo_system, out_sha = (\<lambda>s. s), out_marshal = (\<lambda>j. Inr []), out_quote = (\<lambda>s. s),
     out_time = (\<lambda>t. []), out_cause = (\<lambda>e. []), out_hostname = [], out_os = [],
     out_arch = [], out_version = []\<rparr>"

definition demo_server :: server where
  "demo_server = \<lparr>sv_box = \<lparr>sb_mgr = new_manager ''/work'' 60, sb_vfs = demo_vfs\<rparr>,
     sv_log = Some \<lparr>lg_file = Some []\<rparr>, sv_metrics = Some new_metrics\<rparr>"

definition demo_tunnel :: tunnel where
  "demo_tunnel = \<lparr>tn_server = demo_server, tn_waiting = fmempty\<rparr>"

definition demo_args :: "tool_input \<Rightarrow> invoke_args" where
  "demo_args i = \<lparr>ia_tool = tool_of i, ia_input = Some (encode_input i), ia_session = []\<rparr>"

definition poll :: tool_input where
  "poll = BashOutputIn \<lparr>bo_bash_id = ''bash_1'', bo_filter = []\<rparr>"

definition list_files :: tool_input where
  "list_files = BashIn \<lparr>bi_command = ''ls'', bi_timeout = 0, bi_description = [], bi_background = True\<rparr>"

definition new_file :: tool_input where
  "new_file = WriteIn \<lparr>wi_file_path = ''new'', wi_content = ''x''\<rparr>"

definition asking_engine :: engine where
  "asking_engine = bypass_engine\<lparr>e_ask := [demo_rule ''Bash'' ''ls'' Ask]\<rparr>"

lemma demo_parse:
  "parse_input ''BashOutput'' (Some (JObj (encode_input poll))) = Inr poll"
  "parse_input ''Bash'' (Some (JObj (encode_input list_files))) = Inr list_files"
  "parse_input ''Write'' (Some (JObj (encode_input new_file))) = Inr new_file"
  unfolding poll_def list_files_def new_file_def
  by (rule parse_encode_small parse_encode_bash; simp)+

lemma demo_tools: "tool_of poll = ''BashOutput''" "tool_of list_files = ''Bash''" "tool_of new_file = ''Write''"
  by (simp_all add: poll_def list_files_def new_file_def)

lemma begin_verdict:
  assumes "is_supported (tool_of i)" and "parse_input (tool_of i) (Some (JObj (encode_input i))) = Inr i"
    and "mgr_get 0 [] (sb_mgr (sv_box sv)) = (a, m)"
    and "d = evaluate (eval_symlinks (sb_vfs (sv_box sv))) demo_dm e
      (tool_call_for demo_system (tool_of i) i (ss_cwd (sess m a))) (ss_overlay (sess m a))"
  obtains (decided) pd ans sv' where "d_behavior d \<noteq> Ask"
    "begin_invoke demo_out e 0 0 LogFine (demo_args i) sv = (Decided pd d ans, sv')" "pd_input pd = i" "pd_addr pd = a"
  | (asked) pd where "d_behavior d = Ask"
    "begin_invoke demo_out e 0 0 LogFine (demo_args i) sv = (Waiting pd, on_manager (\<lambda>_. m) sv)" "pd_input pd = i" "pd_addr pd = a"
    "pd_call pd = tool_call_for demo_system (tool_of i) i (ss_cwd (sess m a))"
proof -
  obtain b sv' where b: "begin_invoke demo_out e 0 0 LogFine (demo_args i) sv = (b, sv')" by fastforce
  then show ?thesis
  proof (cases rule: begin_cases)
    case (rejected ans)
    then show ?thesis
      using b assms(1-3) by (auto simp: begin_invoke_def demo_args_def demo_out_def raw_json_def Let_def split: if_splits prod.splits)
  next
    case (evaluated typed a' m' pd d')
    have same: "typed = i" "a' = a" "m' = m"
      using evaluated(1,2) assms(2,3) by (simp_all add: demo_args_def raw_json_def)
    have sg: "sys_glob demo_system = demo_dm" by (simp add: demo_system_def)
    have "d' = d" using evaluated(7,8) assms(4) same by (simp add: demo_args_def demo_out_def sg)
    then show ?thesis
      using evaluated same b decided [of pd _ sv'] asked [of pd]
      by (cases "d_behavior d = Ask") (auto simp: demo_args_def demo_out_def)
  qed
qed

lemma demo_get: "mgr_get 0 [] (sb_mgr (sv_box demo_server)) = (0, snd (mgr_get 0 [] (new_manager ''/work'' 60)))"
  by (simp add: Let_def demo_server_def mgr_get_def new_manager_def get_addr_def install_def put_addr_def)

lemma demo_session: "ss_cwd (sess (snd (mgr_get 0 [] (new_manager ''/work'' 60))) 0) = ''/work''"
  "ss_overlay (sess (snd (mgr_get 0 [] (new_manager ''/work'' 60))) 0) = []"
  by (simp_all add: Let_def mgr_get_def new_manager_def get_addr_def install_def put_addr_def touch_def on_session_def sess_def
      new_session_def new_overlay_def)

lemma demo_supported: "is_supported (tool_of i)"
  by (cases i) (simp_all add: is_supported_def supported_tools_def)

text \<open>The decision on a call in the fresh default session.\<close>

definition first_verdict :: "engine \<Rightarrow> tool_input \<Rightarrow> decision" where
  "first_verdict e i = evaluate (eval_symlinks demo_vfs) demo_dm e
     (tool_call_for demo_system (tool_of i) i ''/work'') []"

definition first_manager :: manager where
  "first_manager = snd (mgr_get 0 [] (new_manager ''/work'' 60))"

lemma first_call:
  assumes "parse_input (tool_of i) (Some (JObj (encode_input i))) = Inr i"
  obtains (decided) pd ans sv' where "d_behavior (first_verdict e i) \<noteq> Ask"
    "begin_invoke demo_out e 0 0 LogFine (demo_args i) demo_server = (Decided pd (first_verdict e i) ans, sv')"
    "pd_input pd = i" "pd_addr pd = 0"
  | (asked) pd where "d_behavior (first_verdict e i) = Ask"
    "begin_invoke demo_out e 0 0 LogFine (demo_args i) demo_server = (Waiting pd, on_manager (\<lambda>_. first_manager) demo_server)"
    "pd_input pd = i" "pd_addr pd = 0" "pd_call pd = tool_call_for demo_system (tool_of i) i ''/work''"
proof -
  have "sb_vfs (sv_box demo_server) = demo_vfs" by (simp add: demo_server_def)
  then have v: "first_verdict e i = evaluate (eval_symlinks (sb_vfs (sv_box demo_server))) demo_dm e
      (tool_call_for demo_system (tool_of i) i (ss_cwd (sess (snd (mgr_get 0 [] (new_manager ''/work'' 60))) 0)))
      (ss_overlay (sess (snd (mgr_get 0 [] (new_manager ''/work'' 60))) 0))"
    unfolding first_verdict_def demo_session by simp
  show ?thesis
    by (rule begin_verdict [OF demo_supported assms demo_get v])
      (use decided asked in \<open>auto simp: demo_session first_manager_def\<close>)
qed

lemma poll_verdict: "d_behavior (first_verdict bypass_engine poll) = Allow"
  by (simp add: first_verdict_def evaluate_behavior policy_spec_def hard_denied_def tool_call_for_def poll_def covers_def
      bypass_engine_def demo_engine_def mode_allows_def)

lemma bash_policy: "tc_paths call = [] \<Longrightarrow> \<not> hard_denied ev dm e call"
  by (simp add: hard_denied_def)

lemma bash_call_any_cwd: "tool_of i = ''Bash'' \<Longrightarrow> tool_call_for sys tool i cwd = tool_call_for sys tool i cwd'"
  by (cases i) (simp_all add: tool_call_for_def)

lemma list_verdict:
  "covers demo_dm asking_engine (e_ask asking_engine) (tool_call_for demo_system ''Bash'' list_files cwd)"
  "tc_paths (tool_call_for demo_system ''Bash'' list_files cwd) = []"
  "d_behavior (evaluate ev demo_dm asking_engine (tool_call_for demo_system ''Bash'' list_files cwd) ov) = Ask"
proof -
  have "covers demo_dm asking_engine (e_ask asking_engine) (tool_call_for demo_system ''Bash'' list_files [])" by code_simp
  then show c: "covers demo_dm asking_engine (e_ask asking_engine) (tool_call_for demo_system ''Bash'' list_files cwd)"
    using bash_call_any_cwd [of list_files] by (metis demo_tools(2))
  show p: "tc_paths (tool_call_for demo_system ''Bash'' list_files cwd) = []"
    by (simp add: tool_call_for_def list_files_def)
  have "e_deny asking_engine = []" by (simp add: asking_engine_def bypass_engine_def)
  then show "d_behavior (evaluate ev demo_dm asking_engine (tool_call_for demo_system ''Bash'' list_files cwd) ov) = Ask"
    using c p by (simp add: evaluate_behavior policy_spec_def bash_policy) (simp add: covers_def)
qed

text \<open>A permitted poll, as one step.\<close>

lemma poll_step:
  obtains pd ans u where "tunnel_step demo_out bypass_engine demo_tunnel
      (CallDecided (demo_args poll) pd (first_verdict bypass_engine poll) LogFine ans) u"
    and "run (tunnel_step demo_out bypass_engine) demo_tunnel
      [CallDecided (demo_args poll) pd (first_verdict bypass_engine poll) LogFine ans] u"
    and "pd_tool pd = ''BashOutput''"
proof -
  let ?d = "first_verdict bypass_engine poll"
  obtain pd ans sv' where b: "begin_invoke demo_out bypass_engine 0 0 LogFine (demo_args poll) demo_server = (Decided pd ?d ans, sv')"
    by (rule first_call [of poll bypass_engine]) (use poll_verdict demo_parse in \<open>auto simp: demo_tools\<close>)
  have s: "tunnel_step demo_out bypass_engine demo_tunnel (CallDecided (demo_args poll) pd ?d LogFine ans) (demo_tunnel\<lparr>tn_server := sv'\<rparr>)"
    by (rule step_decided [of _ _ 0 0]) (simp add: demo_tunnel_def b)
  have "pd_tool pd = ''BashOutput''" using b by (cases rule: begin_cases) (auto simp: demo_args_def demo_tools split: if_splits)
  with that [OF s run_one [of "tunnel_step demo_out bypass_engine", OF s]] show ?thesis .
qed


lemma metrics_exact_witness:
  "\<exists>pd d ans u m. tunnel_step demo_out bypass_engine demo_tunnel (CallDecided (demo_args poll) pd d LogFine ans) u
     \<and> sv_metrics (tn_server u) = Some m \<and> length (mt_durations m ''BashOutput'') = 1 \<and> mt_elicitations m = []"
proof -
  obtain pd ans u where s: "tunnel_step demo_out bypass_engine demo_tunnel
      (CallDecided (demo_args poll) pd (first_verdict bypass_engine poll) LogFine ans) u"
    and r: "run (tunnel_step demo_out bypass_engine) demo_tunnel
      [CallDecided (demo_args poll) pd (first_verdict bypass_engine poll) LogFine ans] u"
    and t: "pd_tool pd = ''BashOutput''"
    by (rule poll_step)
  have "sv_metrics (tn_server demo_tunnel) = Some new_metrics" by (simp add: demo_tunnel_def demo_server_def)
  from metrics_exact [OF r this] t show ?thesis using s by (fastforce simp: counted_def new_metrics_def)
qed

lemma first_asked:
  obtains pd where "begin_invoke demo_out asking_engine 0 0 LogFine (demo_args list_files) demo_server =
      (Waiting pd, on_manager (\<lambda>_. first_manager) demo_server)"
    and "pd_addr pd = 0" and "pd_call pd = tool_call_for demo_system ''Bash'' list_files ''/work''" and "pd_input pd = list_files"
proof (rule first_call [of list_files asking_engine])
  show "parse_input (tool_of list_files) (Some (JObj (encode_input list_files))) = Inr list_files"
    using demo_parse by (simp add: demo_tools)
qed (use that list_verdict(3) in \<open>auto simp: first_verdict_def demo_tools\<close>)


lemma approval_lasts_witness:
  "covers demo_dm asking_engine (e_ask asking_engine) (tool_call_for demo_system ''Bash'' list_files ''/work'')"
proof -
  let ?step = "tunnel_step demo_out asking_engine" and ?c = "[(''decision'', JStr ''allow_always'')]"
  obtain pd where b: "begin_invoke demo_out asking_engine 0 0 LogFine (demo_args list_files) demo_server =
      (Waiting pd, on_manager (\<lambda>_. first_manager) demo_server)"
    and pd: "pd_addr pd = 0" "pd_call pd = tool_call_for demo_system ''Bash'' list_files ''/work''"
    by (rule first_asked)
  define t1 where "t1 = demo_tunnel\<lparr>tn_server := on_manager (\<lambda>_. first_manager) demo_server,
    tn_waiting := fmupd 0 pd (tn_waiting demo_tunnel)\<rparr>"
  have s1: "?step demo_tunnel (CallWaits 0 (demo_args list_files) pd) t1"
    unfolding t1_def by (rule step_waits [of _ _ 0 0 LogFine]) (simp_all add: demo_tunnel_def b)
  have "tunnel_inv demo_tunnel"
    by (rule fresh_tunnel_inv) (simp add: fresh_tunnel_def demo_tunnel_def demo_server_def new_manager_inv)
  then have i1: "tunnel_inv t1" using s1 by (rule tunnel_step_inv)
  obtain ans sv where a: "answer_invoke demo_out asking_engine 0 0 LogFine (Elicited ''accept'' ?c) pd (tn_server t1) = (ans, sv)"
    by (cases "answer_invoke demo_out asking_engine 0 0 LogFine (Elicited ''accept'' ?c) pd (tn_server t1)")
  define t2 where "t2 = t1\<lparr>tn_server := sv, tn_waiting := fmdrop 0 (tn_waiting t1)\<rparr>"
  have s2: "?step t1 (UserAnswered 0 pd (Elicited ''accept'' ?c) LogFine ans) t2"
    unfolding t2_def by (rule step_answered [OF _ a]) (simp add: t1_def)
  obtain v m where u: "ask_user (pd_addr pd) (pd_call pd) (Elicited ''accept'' ?c) (sb_mgr (sv_box (tn_server t1))) = (v, m)"
    and c: "conclude demo_out asking_engine 0 LogFine (user_decision v) pd
      ((on_manager (\<lambda>_. m) (tn_server t1))\<lparr>sv_metrics := map_option (observe_elicitation (0 - pd_asked pd)) (sv_metrics (tn_server t1))\<rparr>) = (ans, sv)"
    using a by (rule answer_conclude)
  have "get_addr first_manager default_id = Some 0"
    by (simp add: first_manager_def mgr_get_def new_manager_def get_addr_def install_def put_addr_def session_key_def
        touch_def on_session_def Let_def)
  then have "get_addr m default_id = Some 0"
    using u by (auto simp: t1_def ask_user_def answer_text_def grant_def)
  then have g: "get_addr (sb_mgr (sv_box sv)) default_id = Some 0"
    using conclude_only_session [OF c] by (simp add: only_session_def get_addr_def)
  have p: "parse_input (tool_of list_files) (Some (JObj (encode_input list_files))) = Inr list_files"
    using demo_parse by (simp add: demo_tools)
  have mg: "mgr_get 0 [] (sb_mgr (sv_box sv)) = (0, touch 0 0 (sb_mgr (sv_box sv)))"
    by (simp add: mgr_get_def session_key_def g)
  obtain pd' sv' where b2: "begin_invoke demo_out asking_engine 0 0 LogFine (demo_args list_files) sv = (Waiting pd', sv')"
    and pd': "pd_addr pd' = 0" "\<exists>cwd. pd_call pd' = tool_call_for demo_system ''Bash'' list_files cwd"
    by (rule begin_verdict [OF demo_supported p mg refl]) (auto simp: demo_tools list_verdict(3))
  have s3: "?step t2 (CallWaits 0 (demo_args list_files) pd')
      (t2\<lparr>tn_server := sv', tn_waiting := fmupd 0 pd' (tn_waiting t2)\<rparr>)"
    by (rule step_waits [of _ _ 0 0 LogFine]) (simp_all add: t2_def b2)
  have same: "pd_call pd' = pd_call pd" using pd'(2) pd(2) bash_call_any_cwd [of list_files] demo_tools(2) by metis
  have cov: "covers demo_dm asking_engine (add_allow (tc_tool (pd_call pd)) (specifier_for (pd_call pd)) []) (pd_call pd')"
    unfolding same pd(2) by code_simp
  have dm: "sys_glob (out_sys demo_out) = demo_dm" by (simp add: demo_out_def demo_system_def)
  have at: "answer_text ?c = ''allow_always''" by (simp add: answer_text_def)
  from approval_lasts [OF i1 s2 at run_Nil s3, unfolded dm, OF _ cov] pd' pd same show ?thesis by simp
qed

lemma invoke_confined_witness:
  "\<exists>pd d ans sv'. begin_invoke demo_out bypass_engine 0 0 LogFine (demo_args new_file) demo_server = (Decided pd d ans, sv')
     \<and> nodes (sb_vfs (sv_box sv')) [''work'', ''new''] \<noteq> nodes (sb_vfs (sv_box demo_server)) [''work'', ''new'']
     \<and> prefix [''work''] [''work'', ''new'']"
proof -
  let ?d = "first_verdict bypass_engine new_file"
  have call: "tool_call_for demo_system ''Write'' new_file ''/work'' = (read_call ''/work/new'')\<lparr>tc_tool := ''Write''\<rparr>"
    by (simp add: tool_call_for_def new_file_def demo_abs read_call_def)
  have "hard_denied (eval_symlinks demo_vfs) demo_dm bypass_engine ((read_call ''/work/new'')\<lparr>tc_tool := ''Write''\<rparr>)
      = hard_denied (eval_symlinks demo_vfs) demo_dm bypass_engine (read_call ''/work/new'')" 
    by (simp add: hard_denied_def credential_hit_def credential_allowlisted_def Let_def bypass_engine_def demo_engine_def read_call_def)
  moreover have "\<not> hard_denied (eval_symlinks demo_vfs) demo_dm bypass_engine (read_call ''/work/new'')"
    using demo_allowed(2) by (auto simp: evaluate_behavior policy_spec_def split: if_splits)
  ultimately have al: "d_behavior ?d = Allow"
    by (simp add: first_verdict_def demo_tools call evaluate_behavior policy_spec_def)
      (simp add: covers_def bypass_engine_def demo_engine_def mode_allows_def)
  obtain pd ans sv' where b: "begin_invoke demo_out bypass_engine 0 0 LogFine (demo_args new_file) demo_server = (Decided pd ?d ans, sv')"
    and pd: "pd_input pd = new_file" "pd_addr pd = 0"
    by (rule first_call [of new_file bypass_engine]) (use al demo_parse in \<open>auto simp: demo_tools\<close>)
  have box: "sb_vfs (sv_box demo_server) = demo_vfs" by (simp add: demo_server_def)
  have cwd: "ss_cwd (sess (snd (mgr_get 0 (ia_session (demo_args new_file)) (sb_mgr (sv_box demo_server)))) (pd_addr pd)) = ''/work''"
    using demo_session(1) pd(2) by (simp add: demo_args_def demo_server_def)
  from b have "sb_vfs (sv_box sv') = snd (write_tool demo_system ''/work'' \<lparr>wi_file_path = ''new'', wi_content = ''x''\<rparr> demo_vfs)"
  proof (cases rule: begin_cases)
    case (evaluated typed a m pd' d')
    have c: "conclude demo_out bypass_engine 0 LogFine ?d pd (on_manager (\<lambda>_. m) demo_server) = (ans, sv')"
      using evaluated(9) by (auto split: if_splits)
    have m: "ss_cwd (sess m 0) = ''/work''" using cwd evaluated(2) pd by simp
    obtain r where "dispatch demo_system 0 new_file (sv_box (on_manager (\<lambda>_. m) demo_server)) = (r, sv_box sv')"
      using conclude_allowed [OF c al] pd by (auto simp: demo_out_def)
    from dispatch_files(1) [OF this new_file_def] show ?thesis by (simp add: m box)
  qed simp
  then have n: "nodes (sb_vfs (sv_box sv')) [''work'', ''new''] \<noteq> nodes (sb_vfs (sv_box demo_server)) [''work'', ''new'']"
    using demo_write box by auto
  have t: "tool_path ''/work'' ''new'' = [''work''] @ [''new'']" by (simp add: tool_path_def demo_abs)
  have nd: "no_dangling_leaf demo_vfs [''work''] ''new''" by (rule demo_leaf)
  have "prefix [''work''] [''work'', ''new'']"
  proof (rule invoke_confined [OF b _ _ demo_root(1) _ _ _ n])
    show "pd_input pd \<noteq> BashIn x" for x by (simp add: pd new_file_def)
    show "no_dangling_leaf (sb_vfs (sv_box demo_server)) bs c" if "pd_input pd = WriteIn w"
      "tool_path (ss_cwd (sess (snd (mgr_get 0 (ia_session (demo_args new_file)) (sb_mgr (sv_box demo_server)))) (pd_addr pd))) (wi_file_path w) = bs @ [c]"
      for w bs c
    proof -
      have w: "wi_file_path w = ''new''" using that(1) pd by (auto simp: new_file_def)
      have "tool_path ''/work'' ''new'' = bs @ [c]" using that(2) unfolding cwd w .
      then show ?thesis using nd unfolding t box by simp
    qed
  qed (simp_all add: cwd box demo_wf demo_node_def demo_abs(3))
  with b n show ?thesis by blast
qed

text \<open>A call of the first session, still waiting when that session is reset.\<close>

definition left_behind :: pending where
  "left_behind = \<lparr>pd_addr = 0, pd_tool = ''Bash'', pd_input = list_files, pd_raw = [],
     pd_call = tool_call_for demo_system ''Bash'' list_files ''/work'', pd_start = 0, pd_asked = 0\<rparr>"

definition reset_server :: server where
  "reset_server = on_manager (\<lambda>_. snd (mgr_reset 1 [] first_manager)) demo_server"

lemma orphan_shell_untracked_witness:
  "\<exists>ans sv'. answer_invoke demo_out asking_engine 2 2 LogFine (Elicited ''accept'' [(''decision'', JStr ''allow_once'')])
       left_behind reset_server = (ans, sv')
     \<and> 0 < active_count (ss_shells (sess (fold apply_op [TickOp 1000, ResetOp 1001 []] (sb_mgr (sv_box sv'))) 0))"
proof -
  let ?m = "snd (mgr_reset 1 [] first_manager)" and ?el = "Elicited ''accept'' [(''decision'', JStr ''allow_once'')]"
  have f: "mgr_inv first_manager" unfolding first_manager_def by (intro inv_intros)
  have g: "get_addr first_manager default_id = Some 0" "length (mg_heap first_manager) = 1"
    by (simp_all add: first_manager_def mgr_get_def new_manager_def get_addr_def install_def put_addr_def session_key_def
        touch_def on_session_def Let_def)
  have others: "get_addr first_manager j = None" if "j \<noteq> default_id" for j
    using that by (simp add: first_manager_def mgr_get_def new_manager_def get_addr_def install_def put_addr_def
        session_key_def touch_def on_session_def Let_def)
  note r = reset_session_parts [where now = 1 and i = "[]", OF f prod.collapse [symmetric]]
  have "fst (mgr_reset 1 [] first_manager) \<noteq> 0" using r(3) [of 0] g by (simp add: session_key_def)
  then have i: "get_addr ?m j \<noteq> Some 0" for j
    using r(1) [of j] others [of j] by (simp add: session_key_def split: if_splits)
  have l: "0 < length (mg_heap ?m)" using mgr_reset_grows [where now = 1 and i = "[]" and m = first_manager, OF prod.collapse [symmetric]] g(2)
    by (auto simp: heap_grows_def)
  obtain ans sv' where a: "answer_invoke demo_out asking_engine 2 2 LogFine ?el left_behind reset_server = (ans, sv')" by fastforce
  have "mgr_inv ?m" by (intro inv_intros f)
  then have "0 < active_count (ss_shells (sess (fold apply_op [TickOp 1000, ResetOp 1001 []] (sb_mgr (sv_box sv'))) (pd_addr left_behind)))"
    using orphan_shell_untracked [OF _ _ _ _ _ _ a, where ops = "[TickOp 1000, ResetOp 1001 []]"] i l
    by (simp add: reset_server_def left_behind_def orphaned_def approves_def answer_text_def list_files_def
        demo_out_def demo_system_def del: apply_op.simps fold.simps)
  with a show ?thesis by (auto simp: left_behind_def)
qed

end
