(* ===== verification/Http.thy ===== *)
theory Http
  imports Envelope
begin

text \<open>
  Requests and responses as the handlers see them. \<open>rq_header\<close> is
  \<^verbatim>\<open>r.Header.Get\<close>, \<open>rq_form\<close> is \<^verbatim>\<open>r.FormValue\<close> and \<open>rq_query\<close> is
  \<^verbatim>\<open>r.URL.Query().Get\<close>: the first value, empty when there is none; \<open>rq_client\<close> is the
  host part of \<^verbatim>\<open>r.RemoteAddr\<close> when that splits into host and port.
\<close>

text \<open>A parsed URL: \<open>url_hostname\<close> and \<open>url_port\<close> are the methods \<^verbatim>\<open>Hostname()\<close> and \<^verbatim>\<open>Port()\<close>.\<close>

record url =
  url_scheme :: string
  url_host :: string
  url_hostname :: string
  url_port :: string
  url_path :: string
  url_raw_path :: string
  url_raw_query :: string
  url_fragment :: string

record request =
  rq_method :: string
  rq_path :: string
  rq_raw_path :: string
  rq_raw_query :: string
  rq_host :: string
  rq_tls :: bool
  rq_proto_major :: nat
  rq_client :: "string option"
  rq_header :: "string \<Rightarrow> string"
  rq_form :: "string \<Rightarrow> string"
  rq_query :: "string \<Rightarrow> string"

datatype body = Plain string | JsonBody json | RedirectTo string | Script string | Page string members | NoBody

record response =
  rs_status :: nat
  rs_header :: "(string \<times> string) list"
  rs_body :: body

definition respond :: "nat \<Rightarrow> (string \<times> string) list \<Rightarrow> body \<Rightarrow> response" where
  "respond code hs b = \<lparr>rs_status = code, rs_header = hs, rs_body = b\<rparr>"

text \<open>\<^verbatim>\<open>http.Error\<close>: the message with a line feed; \<open>hs\<close> are the headers set before.\<close>

definition http_error :: "(string \<times> string) list \<Rightarrow> string \<Rightarrow> nat \<Rightarrow> response" where
  "http_error hs msg code = respond code hs (Plain (msg @ [nl]))"

definition redirect_to :: "string \<Rightarrow> nat \<Rightarrow> response" where
  "redirect_to u code = respond code [] (RedirectTo u)"

definition set_header :: "string \<Rightarrow> string \<Rightarrow> request \<Rightarrow> request" where
  "set_header k v r = r\<lparr>rq_header := (rq_header r)(k := v)\<rparr>"

lemma set_header_get [simp]: "rq_header (set_header k v r) j = (if j = k then v else rq_header r j)"
  by (simp add: set_header_def)

text \<open>
  \<^verbatim>\<open>ProxyRequest.SetXForwarded\<close> after the reverse proxy has removed the forwarding headers
  of the incoming request. Hop-by-hop headers are the transport's affair.
\<close>

definition set_x_forwarded :: "request \<Rightarrow> request" where
  "set_x_forwarded r =
     r\<lparr>rq_header := (rq_header r)
         (''Forwarded'' := [],
          ''X-Forwarded-For'' := (case rq_client r of None \<Rightarrow> [] | Some ip \<Rightarrow> ip),
          ''X-Forwarded-Host'' := rq_host r,
          ''X-Forwarded-Proto'' := (if rq_tls r then ''https'' else ''http''))\<rparr>"

lemma set_x_forwarded_simps [simp]:
  "rq_method (set_x_forwarded r) = rq_method r" "rq_path (set_x_forwarded r) = rq_path r"
  "rq_raw_path (set_x_forwarded r) = rq_raw_path r" "rq_raw_query (set_x_forwarded r) = rq_raw_query r"
  "rq_header (set_x_forwarded r) ''Authorization'' = rq_header r ''Authorization''"
  by (simp_all add: set_x_forwarded_def)

section \<open>Header values\<close>

text \<open>A prefix test followed by \<^verbatim>\<open>TrimPrefix\<close>, as credentials are read.\<close>

lemma prefix_trim_eq: "has_prefix s p \<and> trim_prefix s p = t \<longleftrightarrow> s = p @ t"
  by (auto simp: has_prefix_iff trim_prefix_append)

lemma to_lower_Nil [simp]: "to_lower ul [] = []"
  by (simp add: to_lower_def ascii_def)

end
