(* ===== verification/Hub.thy ===== *)
theory Hub
  imports Http Interfaces
begin

text \<open>
  The multiplexer, \<^verbatim>\<open>internal/hub/hub.go\<close>: the registry of agents, registration, the
  reverse channels with their health checks, and the proxy. Handlers hold pointers to
  channels, so these live on a heap; every section under the mutex is one function, and
  what happens outside it (closing the old channel, closing a dropped one) is another.
  \<open>ul\<close> and \<open>uf\<close> are \<^verbatim>\<open>strings.ToLower\<close> and \<^verbatim>\<open>strings.EqualFold\<close> on text beyond ASCII.
\<close>

section \<open>Data\<close>

definition connect_path :: string where "connect_path = ''/hub/connect''"
definition installer_path :: string where "installer_path = ''/install-agent''"
definition upgrade_protocol :: string where "upgrade_protocol = ''boxel-h2c''"
definition header_agent_name :: string where "header_agent_name = ''X-Boxel-Agent-Name''"
definition header_agent_version :: string where "header_agent_version = ''X-Boxel-Agent-Version''"
definition header_exe_email :: string where "header_exe_email = ''X-ExeDev-Email''"
definition header_source_vm :: string where "header_source_vm = ''X-Exedev-Source-Vm''"

record hub_config =
  hc_agent_token :: string
  hc_owner_email :: string
  hc_advertise_url :: string
  hc_version :: string

record agent_conn =
  ac_name :: string
  ac_remote :: string
  ac_version :: string
  ac_auth :: string
  ac_connected_at :: time
  ac_closed :: bool

record agent_record =
  ar_remote :: string
  ar_version :: string
  ar_connected :: bool
  ar_connected_at :: time
  ar_disconnected_at :: "time option"
  ar_messages :: nat

type_synonym conn_id = nat

record hub =
  hb_conns :: "agent_conn list"
  hb_agents :: "(string, conn_id) fmap"
  hb_registry :: "(string, agent_record) fmap"

definition new_hub :: hub where
  "new_hub = \<lparr>hb_conns = [], hb_agents = fmempty, hb_registry = fmempty\<rparr>"

definition hub_conn :: "hub \<Rightarrow> conn_id \<Rightarrow> agent_conn" where
  "hub_conn h a = hb_conns h ! a"

section \<open>Names and authentication\<close>

definition valid_name :: "string \<Rightarrow> bool" where
  "valid_name s =
     (s \<noteq> [] \<and> length s \<le> 63
      \<and> list_all (\<lambda>i. let c = s ! i
          in (byte CHR ''a'' \<le> byte c \<and> byte c \<le> byte CHR ''z'') \<or> (byte CHR ''0'' \<le> byte c \<and> byte c \<le> byte CHR ''9'')
             \<or> (c = CHR ''-'' \<and> i \<noteq> 0 \<and> i \<noteq> length s - 1)) [0..<length s])"

definition authenticate_agent :: "(string \<Rightarrow> string) \<Rightarrow> hub_config \<Rightarrow> request \<Rightarrow> string" where
  "authenticate_agent ul cfg r =
     (let auth = rq_header r ''Authorization'';
          want = to_lower ul (trim_space (hc_owner_email cfg));
          got = to_lower ul (trim_space (rq_header r header_exe_email))
      in if hc_agent_token cfg \<noteq> [] \<and> has_prefix auth ''Bearer '' \<and> trim_prefix auth ''Bearer '' = hc_agent_token cfg
         then ''token''
         else if hc_owner_email cfg \<noteq> [] \<and> got \<noteq> [] \<and> got = want then ''exe-identity''
         else [])"

section \<open>Registration\<close>

text \<open>The checks of \<^verbatim>\<open>handleConnect\<close> before the hijack: a refusal, or the name and the method.\<close>

definition connect_checks ::
  "(string \<Rightarrow> string) \<Rightarrow> (string \<Rightarrow> string \<Rightarrow> bool) \<Rightarrow> (string \<Rightarrow> string) \<Rightarrow> hub_config \<Rightarrow> request \<Rightarrow> response + string \<times> string" where
  "connect_checks ul uf quote cfg r =
     (if hc_agent_token cfg = [] \<and> hc_owner_email cfg = []
      then Inl (http_error [] ''agent registration disabled'' 503)
      else let method = authenticate_agent ul cfg r
      in if method = []
         then Inl (http_error [(''WWW-Authenticate'', ''Bearer realm='' @ [CHR 0x22] @ ''boxel-hub'' @ [CHR 0x22])] ''unauthorized'' 401)
         else if \<not> equal_fold uf (rq_header r ''Upgrade'') upgrade_protocol
           \<or> \<not> str_contains (to_lower ul (rq_header r ''Connection'')) ''upgrade''
         then Inl (http_error [] (''expected Upgrade: '' @ upgrade_protocol) 400)
         else let verified = to_lower ul (trim_space (rq_header r header_source_vm));
                  name = (if verified = [] then to_lower ul (trim_space (rq_header r header_agent_name)) else verified);
                  nameSource = (if verified = [] then ''self-reported'' else ''verified'')
              in if \<not> valid_name name
                 then Inl (http_error [] (''invalid agent name '' @ quote name @
                        '': want 1-63 chars of [a-z0-9-], not starting/ending with -'') 400)
                 else if rq_proto_major r \<noteq> 1
                 then Inl (http_error [] ''registration requires HTTP/1.1 (connection upgrade)'' 505)
                 else Inr (name, method @ '','' @ nameSource @ ''-name''))"

text \<open>What the connection does when it is taken over.\<close>

datatype upgrade = NoHijacker | HijackFails | WriteFails | SetupFails | Upgraded string

definition register :: "agent_conn \<Rightarrow> hub \<Rightarrow> (conn_id option \<times> conn_id) \<times> hub" where
  "register a h =
     (let i = length (hb_conns h); name = ac_name a;
          old = fmlookup (hb_agents h) name;
          rec = (case fmlookup (hb_registry h) name of
                   None \<Rightarrow> \<lparr>ar_remote = [], ar_version = [], ar_connected = False, ar_connected_at = 0,
                            ar_disconnected_at = None, ar_messages = 0\<rparr>
                 | Some x \<Rightarrow> x)
      in ((old, i),
          h\<lparr>hb_conns := hb_conns h @ [a], hb_agents := fmupd name i (hb_agents h),
            hb_registry := fmupd name
              (rec\<lparr>ar_remote := ac_remote a, ar_version := ac_version a, ar_connected := True,
                   ar_connected_at := ac_connected_at a, ar_disconnected_at := None\<rparr>) (hb_registry h)\<rparr>))"

definition close_conn :: "conn_id \<Rightarrow> hub \<Rightarrow> hub" where
  "close_conn a h = h\<lparr>hb_conns := (hb_conns h)[a := (hub_conn h a)\<lparr>ac_closed := True\<rparr>]\<rparr>"

definition close_old :: "conn_id option \<Rightarrow> hub \<Rightarrow> hub" where
  "close_old old h = (case old of None \<Rightarrow> h | Some b \<Rightarrow> close_conn b h)"

datatype connected = Refused response | Abandoned | Joined conn_id

definition handle_connect ::
  "(string \<Rightarrow> string) \<Rightarrow> (string \<Rightarrow> string \<Rightarrow> bool) \<Rightarrow> (string \<Rightarrow> string) \<Rightarrow> hub_config \<Rightarrow> time \<Rightarrow> request \<Rightarrow> upgrade \<Rightarrow> hub
    \<Rightarrow> connected \<times> hub" where
  "handle_connect ul uf quote cfg now r u h =
     (case connect_checks ul uf quote cfg r of
        Inl resp \<Rightarrow> (Refused resp, h)
      | Inr (name, auth) \<Rightarrow>
          (case u of
             NoHijacker \<Rightarrow> (Refused (http_error [] ''hijacking unsupported on this listener'' 500), h)
           | HijackFails \<Rightarrow> (Refused (http_error [] ''hijack failed'' 500), h)
           | WriteFails \<Rightarrow> (Abandoned, h)
           | SetupFails \<Rightarrow> (Abandoned, h)
           | Upgraded remote \<Rightarrow>
               (case register \<lparr>ac_name = name, ac_remote = remote, ac_version = rq_header r header_agent_version,
                               ac_auth = auth, ac_connected_at = now, ac_closed = False\<rparr> h of
                  ((old, i), h') \<Rightarrow> (Joined i, close_old old h'))))"

section \<open>Dropping and health checks\<close>

definition drop_locked :: "time \<Rightarrow> conn_id \<Rightarrow> hub \<Rightarrow> hub" where
  "drop_locked now a h =
     (let name = ac_name (hub_conn h a)
      in if fmlookup (hb_agents h) name = Some a
         then h\<lparr>hb_agents := fmdrop name (hb_agents h),
                hb_registry := (case fmlookup (hb_registry h) name of None \<Rightarrow> hb_registry h
                   | Some rec \<Rightarrow> fmupd name (rec\<lparr>ar_connected := False, ar_disconnected_at := Some now\<rparr>) (hb_registry h))\<rparr>
         else h)"

definition drop_conn :: "time \<Rightarrow> conn_id \<Rightarrow> hub \<Rightarrow> hub" where
  "drop_conn now a h = close_conn a (drop_locked now a h)"

text \<open>A ping that failed: dropped, unless the channel's context is already cancelled.\<close>

definition ping_failed :: "time \<Rightarrow> conn_id \<Rightarrow> hub \<Rightarrow> hub" where
  "ping_failed now a h = (if ac_closed (hub_conn h a) then h else drop_conn now a h)"

section \<open>Lookup, proxying and the roster\<close>

definition lookup_agent :: "string \<Rightarrow> hub \<Rightarrow> conn_id option" where
  "lookup_agent name h = fmlookup (hb_agents h) name"

definition count_message :: "string \<Rightarrow> hub \<Rightarrow> hub" where
  "count_message name h =
     (case fmlookup (hb_registry h) name of None \<Rightarrow> h
      | Some rec \<Rightarrow> h\<lparr>hb_registry := fmupd name (rec\<lparr>ar_messages := Suc (ar_messages rec)\<rparr>) (hb_registry h)\<rparr>)"

text \<open>
  \<^verbatim>\<open>RoundTrip\<close> with the outcome of the channel as an argument; the first component is
  the channel used.
\<close>

datatype hub_error = NotConnected string | TunnelError string string

definition hub_error_text :: "(string \<Rightarrow> string) \<Rightarrow> hub_error \<Rightarrow> string" where
  "hub_error_text quote e = (case e of
     NotConnected name \<Rightarrow> ''no agent registered as '' @ quote name @ '' (is boxel-agent running on that VM?)''
   | TunnelError name msg \<Rightarrow> ''vm '' @ quote name @ '' tunnel: '' @ msg)"

definition round_trip :: "(conn_id \<Rightarrow> request \<Rightarrow> string + 'r) \<Rightarrow> string \<Rightarrow> request \<Rightarrow> hub \<Rightarrow> (hub_error + conn_id \<times> 'r) \<times> hub" where
  "round_trip channel name r h =
     (case lookup_agent name h of
        None \<Rightarrow> (Inl (NotConnected name), h)
      | Some a \<Rightarrow>
          let h' = count_message name h
          in (case channel a r of Inl msg \<Rightarrow> Inl (TunnelError name msg) | Inr res \<Rightarrow> Inr (a, res), h'))"

definition rewrite_path :: "string \<Rightarrow> string \<Rightarrow> string" where
  "rewrite_path name path =
     (let p = trim_prefix path (''/vm/'' @ name) in if p = [] then ''/'' else p)"

definition rewrite_raw_path :: "string \<Rightarrow> string \<Rightarrow> string" where
  "rewrite_raw_path name raw = (if raw \<noteq> [] then trim_prefix raw (''/vm/'' @ name) else [])"

definition rewrite :: "string \<Rightarrow> request \<Rightarrow> request" where
  "rewrite name r = set_x_forwarded
     (r\<lparr>rq_path := rewrite_path name (rq_path r), rq_raw_path := rewrite_raw_path name (rq_raw_path r)\<rparr>)"

definition proxy_error :: "(string \<Rightarrow> string) \<Rightarrow> string \<Rightarrow> hub_error \<Rightarrow> response" where
  "proxy_error quote vm e = respond 502 [(''Content-Type'', ''application/json'')]
     (JsonBody (JObj
       [(''error'', JStr (case e of NotConnected n \<Rightarrow> ''vm_not_connected'' | TunnelError n m \<Rightarrow> ''bad_gateway'')),
        (''message'', JStr (hub_error_text quote e)), (''vm'', JStr vm)]))"

definition serve_proxy :: "(string \<Rightarrow> string) \<Rightarrow> (conn_id \<Rightarrow> request \<Rightarrow> string + response) \<Rightarrow> string \<Rightarrow> request \<Rightarrow> hub \<Rightarrow> response \<times> hub" where
  "serve_proxy quote channel name r h =
     (case round_trip channel name (rewrite name r) h of
        (Inl e, h') \<Rightarrow> (proxy_error quote name e, h')
      | (Inr (a, res), h') \<Rightarrow> (res, h'))"

record agent_info =
  ai_name :: string
  ai_remote :: string
  ai_version :: string
  ai_connected :: bool
  ai_connected_at :: time
  ai_disconnected_at :: "time option"
  ai_messages :: nat

definition info_of :: "string \<Rightarrow> agent_record \<Rightarrow> agent_info" where
  "info_of name rec = \<lparr>ai_name = name, ai_remote = ar_remote rec, ai_version = ar_version rec,
     ai_connected = ar_connected rec, ai_connected_at = ar_connected_at rec,
     ai_disconnected_at = ar_disconnected_at rec, ai_messages = ar_messages rec\<rparr>"

definition agents_list :: "hub \<Rightarrow> agent_info list" where
  "agents_list h = map (\<lambda>n. info_of n (the (fmlookup (hb_registry h) n))) (fm_keys (hb_registry h))"

definition redirect_vm :: "string \<Rightarrow> request \<Rightarrow> response" where
  "redirect_vm name r =
     redirect_to (''/vm/'' @ name @ ''/'' @ (if rq_raw_query r \<noteq> [] then ''?'' @ rq_raw_query r else [])) 308"

section \<open>Routes\<close>

datatype hub_route = Dashboard | Connect | RedirectVM string | ProxyVM string | AgentsRoute | InstallerRoute

text \<open>The patterns \<^verbatim>\<open>AttachRoutes\<close> registers; \<^verbatim>\<open>GET\<close> also serves \<^verbatim>\<open>HEAD\<close>.\<close>

definition hub_route_of :: "string \<Rightarrow> string \<Rightarrow> hub_route option" where
  "hub_route_of method path =
     (let get = (method = ''GET'' \<or> method = ''HEAD'')
      in if path = ''/'' then (if get then Some Dashboard else None)
         else if path = connect_path then (if get then Some Connect else None)
         else if path = ''/agents'' then (if get then Some AgentsRoute else None)
         else if path = installer_path then (if get then Some InstallerRoute else None)
         else case split_char slash path of
                [[], vm, n] \<Rightarrow> if vm = ''vm'' \<and> n \<noteq> [] then Some (RedirectVM n) else None
              | [] # vm # n # rest \<Rightarrow> if vm = ''vm'' \<and> n \<noteq> [] then Some (ProxyVM n) else None
              | _ \<Rightarrow> None)"

definition guarded :: "hub_route \<Rightarrow> bool" where
  "guarded rt = (rt \<noteq> Connect \<and> rt \<noteq> InstallerRoute)"

end
