(* ===== verification/Hub_Registry.thy ===== *)
theory Hub_Registry
  imports Hub
begin

text \<open>
  The registry under concurrency. Registrations, failing pings, closings and proxied
  requests interleave; a channel that is replaced or dropped is closed some time after
  the section under the mutex, so the state carries the closings still to come.
\<close>

record hub_sys =
  hs_hub :: hub
  hs_closing :: "conn_id list"

datatype hub_event =
    Joins agent_conn conn_id
  | PingFails time conn_id
  | Closes conn_id
  | Proxies string "conn_id option"

inductive hub_step :: "hub_sys \<Rightarrow> hub_event \<Rightarrow> hub_sys \<Rightarrow> bool" where
  hub_joins: "\<not> ac_closed a \<Longrightarrow> register a (hs_hub s) = ((old, i), h) \<Longrightarrow>
     hub_step s (Joins a i) \<lparr>hs_hub = h, hs_closing = (case old of None \<Rightarrow> [] | Some b \<Rightarrow> [b]) @ hs_closing s\<rparr>"
| hub_ping: "a < length (hb_conns (hs_hub s)) \<Longrightarrow> \<not> ac_closed (hub_conn (hs_hub s) a) \<Longrightarrow>
     hub_step s (PingFails now a) \<lparr>hs_hub = drop_locked now a (hs_hub s), hs_closing = a # hs_closing s\<rparr>"
| hub_closes: "a \<in> set (hs_closing s) \<Longrightarrow>
     hub_step s (Closes a) \<lparr>hs_hub = close_conn a (hs_hub s), hs_closing = remove1 a (hs_closing s)\<rparr>"
| hub_proxies: "round_trip channel name r (hs_hub s) = (res :: hub_error + conn_id \<times> response, h) \<Longrightarrow>
     hub_step s (Proxies name (lookup_agent name (hs_hub s))) (s\<lparr>hs_hub := h\<rparr>)"

inductive_cases hub_stepE: "hub_step s ev t"

definition start_hub :: hub_sys where
  "start_hub = \<lparr>hs_hub = new_hub, hs_closing = []\<rparr>"

section \<open>The registry as a keyed table\<close>

text \<open>The current channels, by agent name.\<close>

definition put_agent :: "string \<Rightarrow> conn_id \<Rightarrow> hub \<Rightarrow> hub" where
  "put_agent n a h = h\<lparr>hb_agents := fmupd n a (hb_agents h)\<rparr>"

definition del_agent :: "string \<Rightarrow> hub \<Rightarrow> hub" where
  "del_agent n h = h\<lparr>hb_agents := fmdrop n (hb_agents h)\<rparr>"

interpretation ag: keyed_table "\<lambda>h n. lookup_agent n h" put_agent del_agent
  by unfold_locales (simp_all add: lookup_agent_def put_agent_def del_agent_def)

lemma lookup_register:
  "lookup_agent n (snd (register a h)) = (if n = ac_name a then Some (length (hb_conns h)) else lookup_agent n h)"
  by (simp add: register_def Let_def lookup_agent_def)

lemma lookup_registered: "register a h = (x, h') \<Longrightarrow>
    lookup_agent n h' = (if n = ac_name a then Some (length (hb_conns h)) else lookup_agent n h)"
  using lookup_register [of n a h] by simp

lemma register_fst: "fst (register a h) = (lookup_agent (ac_name a) h, length (hb_conns h))"
  by (simp add: register_def Let_def lookup_agent_def)

lemma register_conns: "hb_conns (snd (register a h)) = hb_conns h @ [a]"
  by (simp add: register_def Let_def)

lemma lookup_drop: "lookup_agent n (drop_locked now a h) =
    (if n = ac_name (hub_conn h a) \<and> lookup_agent n h = Some a then None else lookup_agent n h)"
proof -
  let ?hit = "lookup_agent (ac_name (hub_conn h a)) h = Some a"
  have "lookup_agent n (drop_locked now a h) = (if ?hit then lookup_agent n (del_agent (ac_name (hub_conn h a)) h) else lookup_agent n h)"
    by (simp add: drop_locked_def Let_def lookup_agent_def del_agent_def)
  then show ?thesis by (auto simp: ag.get_del)
qed

lemma drop_conns [simp]: "hb_conns (drop_locked now a h) = hb_conns h"
  by (simp add: drop_locked_def Let_def)

lemma close_simps [simp]: "lookup_agent n (close_conn a h) = lookup_agent n h" "hb_registry (close_conn a h) = hb_registry h"
  "length (hb_conns (close_conn a h)) = length (hb_conns h)"
  by (simp_all add: close_conn_def lookup_agent_def)

lemma hub_conn_close: "b < length (hb_conns h) \<Longrightarrow> hub_conn (close_conn a h) b =
    (if b = a then (hub_conn h b)\<lparr>ac_closed := True\<rparr> else hub_conn h b)"
  by (simp add: close_conn_def hub_conn_def nth_list_update)

lemma count_simps [simp]: "lookup_agent n (count_message m h) = lookup_agent n h" "hb_conns (count_message m h) = hb_conns h"
  by (simp_all add: count_message_def lookup_agent_def split: option.splits)

lemma round_trip_hub: "round_trip channel name r h = (res, h') \<Longrightarrow>
    h' = (if lookup_agent name h = None then h else count_message name h)"
  by (auto simp: round_trip_def Let_def split: option.splits)

section \<open>The invariant\<close>

definition record_matches :: "hub \<Rightarrow> string \<Rightarrow> agent_record \<Rightarrow> bool" where
  "record_matches h n rec =
     (case lookup_agent n h of
        None \<Rightarrow> \<not> ar_connected rec \<and> ar_disconnected_at rec \<noteq> None
      | Some a \<Rightarrow> ar_connected rec \<and> ar_disconnected_at rec = None \<and> ar_remote rec = ac_remote (hub_conn h a)
          \<and> ar_version rec = ac_version (hub_conn h a) \<and> ar_connected_at rec = ac_connected_at (hub_conn h a))"

definition current :: "hub \<Rightarrow> conn_id \<Rightarrow> bool" where
  "current h a = (lookup_agent (ac_name (hub_conn h a)) h = Some a)"

definition hub_inv :: "hub_sys \<Rightarrow> bool" where
  "hub_inv s =
     ((\<forall>n a. lookup_agent n (hs_hub s) = Some a \<longrightarrow> a < length (hb_conns (hs_hub s)) \<and> ac_name (hub_conn (hs_hub s) a) = n
         \<and> \<not> ac_closed (hub_conn (hs_hub s) a) \<and> a \<notin> set (hs_closing s) \<and> fmlookup (hb_registry (hs_hub s)) n \<noteq> None)
      \<and> (\<forall>n rec. fmlookup (hb_registry (hs_hub s)) n = Some rec \<longrightarrow> record_matches (hs_hub s) n rec)
      \<and> (\<forall>a < length (hb_conns (hs_hub s)). current (hs_hub s) a \<or> ac_closed (hub_conn (hs_hub s) a) \<or> a \<in> set (hs_closing s))
      \<and> set (hs_closing s) \<subseteq> {..<length (hb_conns (hs_hub s))})"

lemma start_hub_inv: "hub_inv start_hub"
  by (simp add: hub_inv_def start_hub_def new_hub_def lookup_agent_def)

lemma hub_invD:
  assumes "hub_inv s"
  shows "lookup_agent n (hs_hub s) = Some a \<Longrightarrow> a < length (hb_conns (hs_hub s)) \<and> ac_name (hub_conn (hs_hub s) a) = n
         \<and> \<not> ac_closed (hub_conn (hs_hub s) a) \<and> a \<notin> set (hs_closing s) \<and> fmlookup (hb_registry (hs_hub s)) n \<noteq> None"
    and "fmlookup (hb_registry (hs_hub s)) n = Some rec \<Longrightarrow> record_matches (hs_hub s) n rec"
    and "a < length (hb_conns (hs_hub s)) \<Longrightarrow> current (hs_hub s) a \<or> ac_closed (hub_conn (hs_hub s) a) \<or> a \<in> set (hs_closing s)"
    and "a \<in> set (hs_closing s) \<Longrightarrow> a < length (hb_conns (hs_hub s))"
  using assms unfolding hub_inv_def by (auto simp: subset_iff)

lemma hub_conn_snoc:
  "a < length (hb_conns h) \<Longrightarrow> hub_conn (snd (register c h)) a = hub_conn h a"
  "hub_conn (snd (register c h)) (length (hb_conns h)) = c"
  by (simp_all add: hub_conn_def register_conns nth_append)

lemma registry_register:
  "fmlookup (hb_registry (snd (register c h))) n =
     (if n = ac_name c then
        Some ((case fmlookup (hb_registry h) n of
                 None \<Rightarrow> \<lparr>ar_remote = [], ar_version = [], ar_connected = False, ar_connected_at = 0,
                          ar_disconnected_at = None, ar_messages = 0\<rparr>
               | Some x \<Rightarrow> x)\<lparr>ar_remote := ac_remote c, ar_version := ac_version c, ar_connected := True,
                   ar_connected_at := ac_connected_at c, ar_disconnected_at := None\<rparr>)
      else fmlookup (hb_registry h) n)"
  by (simp add: register_def Let_def)

lemma join_inv:
  assumes "hub_inv s" and "\<not> ac_closed c" and "register c (hs_hub s) = ((old, i), h)"
  shows "hub_inv \<lparr>hs_hub = h, hs_closing = (case old of None \<Rightarrow> [] | Some b \<Rightarrow> [b]) @ hs_closing s\<rparr>"
proof -
  let ?g = "hs_hub s" and ?n = "ac_name c" and ?i = "length (hb_conns (hs_hub s))"
  have h: "h = snd (register c ?g)" and old: "old = lookup_agent ?n ?g" and i: "i = ?i"
    using assms(3) register_fst [of c ?g] by simp_all
  note look = lookup_register [of _ c ?g, folded h]
  note cn = hub_conn_snoc [where c = c and h = ?g, folded h]
  note reg = registry_register [where c = c and h = ?g, folded h]
  have len: "length (hb_conns h) = Suc ?i" by (simp add: h register_conns)
  note I = hub_invD [OF assms(1)]
  have cl: "set ((case old of None \<Rightarrow> [] | Some b \<Rightarrow> [b]) @ hs_closing s) = set (hs_closing s) \<union> {b. lookup_agent ?n ?g = Some b}"
    by (auto simp: old split: option.splits)
  show ?thesis
    unfolding hub_inv_def hub_sys.simps cl
  proof (intro conjI allI impI)
    fix n a assume l: "lookup_agent n h = Some a"
    have "a < Suc ?i \<and> ac_name (hub_conn h a) = n \<and> \<not> ac_closed (hub_conn h a)
        \<and> a \<notin> set (hs_closing s) \<union> {b. lookup_agent ?n ?g = Some b} \<and> fmlookup (hb_registry h) n \<noteq> None"
    proof (cases "n = ?n")
      case True
      then have "a = ?i" using l look by simp
      then show ?thesis using True cn(2) assms(2) I(1) [of ?n ?i] I(4) [of ?i]
        by (auto simp: reg)
    next
      case False
      then have "lookup_agent n ?g = Some a" using l look by simp
      from I(1) [OF this] I(1) [of ?n a] False show ?thesis by (auto simp: cn reg)
    qed
    then show "a < length (hb_conns h)" "ac_name (hub_conn h a) = n" "\<not> ac_closed (hub_conn h a)"
      "a \<notin> set (hs_closing s) \<union> {b. lookup_agent ?n ?g = Some b}" "fmlookup (hb_registry h) n \<noteq> None"
      by (simp_all add: len)
  next
    fix n rec assume r: "fmlookup (hb_registry h) n = Some rec"
    show "record_matches h n rec"
    proof (cases "n = ?n")
      case True
      with r show ?thesis by (auto simp: record_matches_def look cn reg)
    next
      case False
      with r have "record_matches ?g n rec" using I(2) by (simp add: reg)
      with False I(1) show ?thesis by (auto simp: record_matches_def look cn split: option.splits)
    qed
  next
    fix a assume a: "a < length (hb_conns h)"
    show "current h a \<or> ac_closed (hub_conn h a) \<or> a \<in> set (hs_closing s) \<union> {b. lookup_agent ?n ?g = Some b}"
    proof (cases "a = ?i")
      case True
      then show ?thesis by (simp add: current_def cn look)
    next
      case False
      then have "a < ?i" using a len by simp
      with I(3) [OF this] show ?thesis by (auto simp: current_def cn look)
    qed
  next
    show "set (hs_closing s) \<union> {b. lookup_agent ?n ?g = Some b} \<subseteq> {..<length (hb_conns h)}"
      using I(1,4) len by (auto intro: less_SucI)
  qed
qed

lemma ping_inv:
  assumes "hub_inv s" and a: "a < length (hb_conns (hs_hub s))" "\<not> ac_closed (hub_conn (hs_hub s) a)"
  shows "hub_inv \<lparr>hs_hub = drop_locked now a (hs_hub s), hs_closing = a # hs_closing s\<rparr>"
proof -
  let ?g = "hs_hub s" and ?h = "drop_locked now a (hs_hub s)"
  note I = hub_invD [OF assms(1)]
  note look = lookup_drop [of _ now a ?g]
  have cn: "hub_conn ?h = hub_conn ?g" by (rule ext) (simp add: hub_conn_def)
  have reg: "fmlookup (hb_registry ?h) n = Some rec \<Longrightarrow> \<exists>rec0. fmlookup (hb_registry ?g) n = Some rec0 \<and>
      rec = (if n = ac_name (hub_conn ?g a) \<and> lookup_agent n ?g = Some a
             then rec0\<lparr>ar_connected := False, ar_disconnected_at := Some now\<rparr> else rec0)" for n rec
    by (auto simp: drop_locked_def lookup_agent_def Let_def split: if_splits option.splits)
  have keeps: "fmlookup (hb_registry ?g) n \<noteq> None \<Longrightarrow> fmlookup (hb_registry ?h) n \<noteq> None" for n
    by (auto simp: drop_locked_def Let_def split: option.splits)
  show ?thesis
    unfolding hub_inv_def hub_sys.simps cn
  proof (intro conjI allI impI)
    fix n b assume "lookup_agent n ?h = Some b"
    then have l: "lookup_agent n ?g = Some b" and ne: "\<not> (n = ac_name (hub_conn ?g a) \<and> b = a)"
      by (auto simp: look split: if_splits)
    from I(1) [OF l] ne keeps [of n] show "b < length (hb_conns ?h)" "ac_name (hub_conn ?g b) = n" "\<not> ac_closed (hub_conn ?g b)"
      "b \<notin> set (a # hs_closing s)" "fmlookup (hb_registry ?h) n \<noteq> None" by auto
  next
    fix n rec assume "fmlookup (hb_registry ?h) n = Some rec"
    from reg [OF this] show "record_matches ?h n rec"
      using I(2) by (fastforce simp: record_matches_def look cn split: option.splits if_splits)
  next
    fix b assume "b < length (hb_conns ?h)"
    with I(3) [of b] show "current ?h b \<or> ac_closed (hub_conn ?g b) \<or> b \<in> set (a # hs_closing s)"
      by (auto simp: current_def look cn)
  next
    show "set (a # hs_closing s) \<subseteq> {..<length (hb_conns ?h)}" using I(4) a(1) by auto
  qed
qed

lemma close_inv:
  assumes "hub_inv s" and "a \<in> set (hs_closing s)"
  shows "hub_inv \<lparr>hs_hub = close_conn a (hs_hub s), hs_closing = remove1 a (hs_closing s)\<rparr>"
proof -
  let ?g = "hs_hub s" and ?h = "close_conn a (hs_hub s)"
  note I = hub_invD [OF assms(1)]
  have cn: "b < length (hb_conns ?g) \<Longrightarrow> hub_conn ?h b = (if b = a then (hub_conn ?g b)\<lparr>ac_closed := True\<rparr> else hub_conn ?g b)" for b
    by (rule hub_conn_close)
  show ?thesis
    unfolding hub_inv_def hub_sys.simps close_simps
  proof (intro conjI allI impI)
    fix n b assume l: "lookup_agent n ?g = Some b"
    then have "b \<noteq> a" using I(1) assms(2) by blast
    with I(1) [OF l] show "b < length (hb_conns ?g)" "ac_name (hub_conn ?h b) = n" "\<not> ac_closed (hub_conn ?h b)"
      "b \<notin> set (remove1 a (hs_closing s))" "fmlookup (hb_registry ?g) n \<noteq> None"
      by (auto simp: cn dest: notin_set_remove1)
  next
    fix n rec assume r: "fmlookup (hb_registry ?g) n = Some rec"
    have "lookup_agent n ?g = Some b \<Longrightarrow> hub_conn ?h b = hub_conn ?g b" for b
      using I(1) [of n b] assms(2) by (auto simp: cn)
    with I(2) [OF r] show "record_matches ?h n rec" by (auto simp: record_matches_def split: option.splits)
  next
    fix b assume b: "b < length (hb_conns ?g)"
    with I(3) [OF b] show "current ?h b \<or> ac_closed (hub_conn ?h b) \<or> b \<in> set (remove1 a (hs_closing s))"
      by (auto simp: current_def cn)
  next
    show "set (remove1 a (hs_closing s)) \<subseteq> {..<length (hb_conns ?g)}"
      using I(4) by (auto dest: notin_set_remove1)
  qed
qed

lemma record_matches_count [simp]: "record_matches h n (rec\<lparr>ar_messages := k\<rparr>) = record_matches h n rec"
  by (simp add: record_matches_def split: option.split)

lemma proxy_inv:
  assumes "hub_inv s" and "round_trip channel name r (hs_hub s) = (res, h)"
  shows "hub_inv (s\<lparr>hs_hub := h\<rparr>)"
proof (cases "lookup_agent name (hs_hub s) = None")
  case True
  then show ?thesis using assms round_trip_hub [OF assms(2)] by simp
next
  case False
  then have h: "h = count_message name (hs_hub s)" using round_trip_hub [OF assms(2)] by auto
  have cn: "hub_conn h = hub_conn (hs_hub s)" by (rule ext) (simp add: h hub_conn_def)
  have reg: "fmlookup (hb_registry h) n = Some rec \<Longrightarrow> \<exists>rec0. fmlookup (hb_registry (hs_hub s)) n = Some rec0
      \<and> rec = (if n = name then rec0\<lparr>ar_messages := Suc (ar_messages rec0)\<rparr> else rec0)" for n rec
    by (auto simp: h count_message_def split: option.splits if_splits)
  have keeps: "fmlookup (hb_registry (hs_hub s)) n \<noteq> None \<Longrightarrow> fmlookup (hb_registry h) n \<noteq> None" for n
    by (auto simp: h count_message_def split: option.splits)
  have same: "record_matches h n rec = record_matches (hs_hub s) n rec" for n rec
    unfolding record_matches_def cn unfolding h count_simps ..
  have "record_matches h n rec" if "fmlookup (hb_registry h) n = Some rec" for n rec
    using reg [OF that] hub_invD(2) [OF assms(1)] by (auto simp: same)
  then show ?thesis
    using assms(1) keeps unfolding hub_inv_def by (simp add: cn current_def) (simp add: h)
qed

lemma hub_step_inv: "hub_inv s \<Longrightarrow> hub_step s ev t \<Longrightarrow> hub_inv t"
  by (erule hub_stepE) (blast intro: join_inv ping_inv close_inv proxy_inv)+

interpretation hs: invariant_system "\<lambda>s. s = start_hub" hub_step hub_inv
  by unfold_locales (simp add: start_hub_inv, erule (1) hub_step_inv)

section \<open>Properties\<close>

lemma set_agents_list: "x \<in> set (agents_list h) \<longleftrightarrow> (\<exists>n rec. fmlookup (hb_registry h) n = Some rec \<and> x = info_of n rec)"
  by (force simp: agents_list_def set_fm_keys image_iff)

lemma connected_in_list: "(\<exists>x\<in>set (agents_list h). ai_name x = n \<and> ai_connected x) \<longleftrightarrow>
    (\<exists>rec. fmlookup (hb_registry h) n = Some rec \<and> ar_connected rec)"
proof
  assume "\<exists>rec. fmlookup (hb_registry h) n = Some rec \<and> ar_connected rec"
  then obtain rec where r: "fmlookup (hb_registry h) n = Some rec" "ar_connected rec" by blast
  then have "info_of n rec \<in> set (agents_list h)" by (auto simp: set_agents_list)
  with r show "\<exists>x\<in>set (agents_list h). ai_name x = n \<and> ai_connected x" by (intro bexI) (auto simp: info_of_def)
qed (auto simp: set_agents_list info_of_def)

lemma connected_iff:
  assumes "hub_inv s"
  shows "lookup_agent n (hs_hub s) \<noteq> None \<longleftrightarrow> (\<exists>rec. fmlookup (hb_registry (hs_hub s)) n = Some rec \<and> ar_connected rec)"
proof
  note I = hub_invD [OF assms]
  assume "lookup_agent n (hs_hub s) \<noteq> None"
  then obtain a where l: "lookup_agent n (hs_hub s) = Some a" by blast
  with I(1) obtain rec where r: "fmlookup (hb_registry (hs_hub s)) n = Some rec" by blast
  from I(2) [OF r] l r show "\<exists>rec. fmlookup (hb_registry (hs_hub s)) n = Some rec \<and> ar_connected rec"
    by (simp add: record_matches_def)
next
  assume "\<exists>rec. fmlookup (hb_registry (hs_hub s)) n = Some rec \<and> ar_connected rec"
  then obtain rec where r: "fmlookup (hb_registry (hs_hub s)) n = Some rec" "ar_connected rec" by blast
  from hub_invD(2) [OF assms r(1)] r(2) show "lookup_agent n (hs_hub s) \<noteq> None"
    by (auto simp: record_matches_def split: option.splits)
qed

text \<open>
  C34. The registry is consistent in every reachable state: the roster shows an agent as
  connected exactly when requests to its name are routed, they are routed to an open
  channel of that name, and every other channel is closed or about to be: none is leaked.
\<close>

theorem registry_consistent:
  assumes "run hub_step start_hub es s"
  shows "(\<forall>n. lookup_agent n (hs_hub s) \<noteq> None \<longleftrightarrow>
      (\<exists>x\<in>set (agents_list (hs_hub s)). ai_name x = n \<and> ai_connected x))
    \<and> (\<forall>n a. lookup_agent n (hs_hub s) = Some a \<longrightarrow>
      ac_name (hub_conn (hs_hub s) a) = n \<and> \<not> ac_closed (hub_conn (hs_hub s) a))
    \<and> (\<forall>a < length (hb_conns (hs_hub s)). lookup_agent (ac_name (hub_conn (hs_hub s) a)) (hs_hub s) = Some a
      \<or> ac_closed (hub_conn (hs_hub s) a) \<or> a \<in> set (hs_closing s))"
proof -
  have inv: "hub_inv s" using hs.reach_inv [OF refl assms] .
  note I = hub_invD [OF inv]
  have "\<forall>n. lookup_agent n (hs_hub s) \<noteq> None \<longleftrightarrow> (\<exists>x\<in>set (agents_list (hs_hub s)). ai_name x = n \<and> ai_connected x)"
    unfolding connected_in_list using connected_iff [OF inv] by blast
  then show ?thesis using I(1,3) unfolding current_def by blast
qed

lemma step_keeps_current:
  assumes "hub_inv s" and "lookup_agent n (hs_hub s) = Some i" and "hub_step s ev t"
    and "\<And>c j. ev = Joins c j \<Longrightarrow> ac_name c \<noteq> n" and "\<And>now. ev \<noteq> PingFails now i"
  shows "lookup_agent n (hs_hub t) = Some i"
  using assms(3)
proof (cases rule: hub_step.cases)
  case (hub_joins a old i' h)
  then show ?thesis using assms(2,4) lookup_registered [OF hub_joins(4)] by auto
next
  case (hub_ping a now)
  then have "a \<noteq> i" using assms(5) by blast
  then show ?thesis using hub_ping assms(2) by (simp add: lookup_drop)
next
  case (hub_proxies channel name r res h)
  then show ?thesis using assms(2) round_trip_hub [OF hub_proxies(3)] by (auto split: if_splits)
qed (use assms(2) in simp_all)

text \<open>
  C35. A reconnect is not undone by the old channel: as long as no other agent registers
  the name and no ping of the new channel itself fails, the name stays routed to it and
  it stays open, whatever pings, closings and requests happen on other channels.
\<close>

theorem reconnect_survives:
  assumes "run hub_step start_hub es s" and "run hub_step s fs t" and "lookup_agent n (hs_hub s) = Some i"
    and "\<forall>ev\<in>set fs. (\<forall>c j. ev = Joins c j \<longrightarrow> ac_name c \<noteq> n) \<and> (\<forall>now. ev \<noteq> PingFails now i)"
  shows "lookup_agent n (hs_hub t) = Some i \<and> \<not> ac_closed (hub_conn (hs_hub t) i)"
proof -
  have inv: "hub_inv s" using hs.reach_inv [OF refl assms(1)] .
  have "lookup_agent n (hs_hub t) = Some i \<and> hub_inv t"
    using assms(2,3,4) inv
  proof (induction rule: run.induct)
    case (run_snoc s fs t ev u)
    then have "lookup_agent n (hs_hub t) = Some i" "hub_inv t" by simp_all
    with step_keeps_current [OF _ _ run_snoc.hyps(2)] hub_step_inv [OF _ run_snoc.hyps(2)] run_snoc.prems
    show ?case by simp
  qed simp
  then show ?thesis using hub_invD(1) by blast
qed

definition messages :: "hub \<Rightarrow> string \<Rightarrow> nat" where
  "messages h n = (case fmlookup (hb_registry h) n of None \<Rightarrow> 0 | Some rec \<Rightarrow> ar_messages rec)"

definition routed :: "string \<Rightarrow> hub_event \<Rightarrow> bool" where
  "routed n ev = (case ev of Proxies m (Some a) \<Rightarrow> m = n | _ \<Rightarrow> False)"

lemma step_messages:
  assumes "hub_inv s" and "hub_step s ev t"
  shows "messages (hs_hub t) n = messages (hs_hub s) n + (if routed n ev then 1 else 0)"
  using assms(2)
proof (cases rule: hub_step.cases)
  case (hub_joins a old i h)
  then show ?thesis using registry_register [of a "hs_hub s" n]
    by (simp add: messages_def routed_def split: option.split)
next
  case (hub_ping a now)
  then show ?thesis by (simp add: messages_def routed_def drop_locked_def Let_def split: option.split)
next
  case (hub_proxies channel name r res h)
  have "fmlookup (hb_registry (hs_hub s)) name \<noteq> None" if "lookup_agent name (hs_hub s) \<noteq> None"
    using that hub_invD(1) [OF assms(1)] by blast
  then show ?thesis
    using hub_proxies round_trip_hub [OF hub_proxies(3)] by (auto simp: messages_def routed_def count_message_def split: option.splits)
qed (simp add: messages_def routed_def)

text \<open>
  The message counter of an agent is the number of requests routed to its name since
  the hub started, across disconnects and reconnects; requests refused because the agent
  was away are not counted.
\<close>

theorem messages_counted:
  assumes "run hub_step start_hub es s"
  shows "messages (hs_hub s) n = length (filter (routed n) es)"
proof -
  have "messages (hs_hub s) n = length (filter (routed n) es) \<and> hub_inv s"
    using assms start_hub_inv
  proof (induction "start_hub" es s rule: run.induct)
    case run_Nil
    then show ?case by (simp add: messages_def start_hub_def new_hub_def)
  next
    case (run_snoc es t ev u)
    then show ?case using step_messages [of t ev u n] hub_step_inv by auto
  qed
  then show ?thesis ..
qed

lemma connect_checks_Inr:
  assumes "connect_checks ul uf quote cfg r = Inr (name, auth)"
  shows "valid_name name \<and> authenticate_agent ul cfg r \<noteq> [] \<and>
    name = (let verified = to_lower ul (trim_space (rq_header r header_source_vm))
            in if verified = [] then to_lower ul (trim_space (rq_header r header_agent_name)) else verified)"
  using assms by (auto simp: connect_checks_def Let_def split: if_splits)

lemma authenticate_sound: "authenticate_agent ul cfg r \<noteq> [] \<Longrightarrow>
    hc_agent_token cfg \<noteq> [] \<and> rq_header r ''Authorization'' = ''Bearer '' @ hc_agent_token cfg
    \<or> hc_owner_email cfg \<noteq> [] \<and> trim_space (rq_header r header_exe_email) \<noteq> []
      \<and> to_lower ul (trim_space (rq_header r header_exe_email)) = to_lower ul (trim_space (hc_owner_email cfg))"
  unfolding authenticate_agent_def Let_def prefix_trim_eq by (auto split: if_splits)

text \<open>
  C36. Registration needs a credential, and the platform's name wins: a request that
  joins the registry carried the agent token or came from the owner's identity, its name
  is a valid handle, and where the platform names the calling VM, that is the name,
  whatever the agent claims. The name is then routed to the new channel alone.
\<close>

theorem registration_authenticated:
  assumes "handle_connect ul uf quote cfg now r u h = (Joined i, h')"
  shows "valid_name (ac_name (hub_conn h' i)) \<and> lookup_agent (ac_name (hub_conn h' i)) h' = Some i
    \<and> (hc_agent_token cfg \<noteq> [] \<and> rq_header r ''Authorization'' = ''Bearer '' @ hc_agent_token cfg
       \<or> hc_owner_email cfg \<noteq> [] \<and> trim_space (rq_header r header_exe_email) \<noteq> []
         \<and> to_lower ul (trim_space (rq_header r header_exe_email)) = to_lower ul (trim_space (hc_owner_email cfg)))
    \<and> (to_lower ul (trim_space (rq_header r header_source_vm)) = [] \<or>
       ac_name (hub_conn h' i) = to_lower ul (trim_space (rq_header r header_source_vm)))"
proof -
  obtain name auth remote where c: "connect_checks ul uf quote cfg r = Inr (name, auth)" and u: "u = Upgraded remote"
    using assms by (auto simp: handle_connect_def split: sum.splits upgrade.splits prod.splits)
  define a where "a = \<lparr>ac_name = name, ac_remote = remote, ac_version = rq_header r header_agent_version,
    ac_auth = auth, ac_connected_at = now, ac_closed = False\<rparr>"
  obtain old where reg: "register a h = ((old, i), snd (register a h))" and h': "h' = close_old old (snd (register a h))"
    using assms c u by (auto simp: handle_connect_def a_def split: prod.splits)
  have "(old, i) = fst (register a h)" using reg by (metis fst_conv)
  then have i: "i = length (hb_conns h)" "old = lookup_agent name h" unfolding register_fst by (simp_all add: a_def)
  have "lookup_agent n h' = lookup_agent n (snd (register a h))" for n by (simp add: h' close_old_def split: option.split)
  then have l: "lookup_agent name h' = Some i" by (simp add: lookup_register i) (simp add: a_def)
  have "ac_name (hub_conn h' i) = name"
    using hub_conn_snoc(2) [of a h] by (auto simp: h' close_old_def hub_conn_close register_conns i a_def split: option.split)
  then show ?thesis using l connect_checks_Inr [OF c] authenticate_sound by (auto simp: Let_def)
qed

section \<open>Names and the proxy\<close>

text \<open>
  \<^verbatim>\<open>ValidName\<close> accepts exactly the words of 1 to 63 lower case letters, digits
  and hyphens that neither begin nor end with a hyphen.
\<close>

theorem valid_name_grammar:
  "valid_name s \<longleftrightarrow> s \<noteq> [] \<and> length s \<le> 63
     \<and> (\<forall>c\<in>set s. byte CHR ''a'' \<le> byte c \<and> byte c \<le> byte CHR ''z'' \<or> byte CHR ''0'' \<le> byte c \<and> byte c \<le> byte CHR ''9'' \<or> c = CHR ''-'')
     \<and> hd s \<noteq> CHR ''-'' \<and> last s \<noteq> CHR ''-''"
proof (cases "s = []")
  case False
  define ok where "ok c = (byte CHR ''a'' \<le> byte c \<and> byte c \<le> byte CHR ''z'' \<or> byte CHR ''0'' \<le> byte c \<and> byte c \<le> byte CHR ''9'')" for c
  have hyphen: "\<not> ok (CHR ''-'')" by (simp add: ok_def)
  have ends: "hd s = s ! 0" "last s = s ! (length s - 1)" using False by (simp_all add: hd_conv_nth last_conv_nth)
  have inside: "0 < length s" "length s - 1 < length s" using False by simp_all
  have "(\<forall>i < length s. ok (s ! i) \<or> s ! i = CHR ''-'' \<and> i \<noteq> 0 \<and> i \<noteq> length s - 1) \<longleftrightarrow>
      (\<forall>i < length s. ok (s ! i) \<or> s ! i = CHR ''-'') \<and> hd s \<noteq> CHR ''-'' \<and> last s \<noteq> CHR ''-''"
    unfolding ends using inside hyphen by metis
  then have "list_all (\<lambda>i. ok (s ! i) \<or> s ! i = CHR ''-'' \<and> i \<noteq> 0 \<and> i \<noteq> length s - 1) [0..<length s] \<longleftrightarrow>
      (\<forall>c\<in>set s. ok c \<or> c = CHR ''-'') \<and> hd s \<noteq> CHR ''-'' \<and> last s \<noteq> CHR ''-''"
    unfolding list_all_iff all_set_conv_all_nth by simp
  then show ?thesis
    unfolding valid_name_def Let_def ok_def using False by (simp only: disj_assoc)
qed (simp add: valid_name_def)

text \<open>
  The proxy strips the prefix and nothing else: a request for
  \<^verbatim>\<open>/vm/<name>/rest\<close> reaches the channel currently registered for that name as
  \<^verbatim>\<open>/rest\<close>, with its method, query and headers (but for the forwarding headers), the agent's response is returned as
  it is, and the counter goes up; without such a channel the answer is 502 and the hub
  is unchanged.
\<close>

theorem proxy_exact:
  assumes "rq_path r = ''/vm/'' @ name @ ''/'' @ rest"
  shows "serve_proxy quote channel name r h =
    (case lookup_agent name h of
       None \<Rightarrow> (proxy_error quote name (NotConnected name), h)
     | Some a \<Rightarrow>
         (case channel a (set_x_forwarded (r\<lparr>rq_path := ''/'' @ rest, rq_raw_path := rewrite_raw_path name (rq_raw_path r)\<rparr>)) of
            Inl msg \<Rightarrow> proxy_error quote name (TunnelError name msg) | Inr res \<Rightarrow> res,
          count_message name h))"
proof -
  have "trim_prefix (rq_path r) (''/vm/'' @ name) = ''/'' @ rest"
    using trim_prefix_append [of "''/vm/'' @ name" "''/'' @ rest"] assms by simp
  then have p: "rewrite name r = set_x_forwarded (r\<lparr>rq_path := ''/'' @ rest, rq_raw_path := rewrite_raw_path name (rq_raw_path r)\<rparr>)"
    by (simp add: rewrite_def rewrite_path_def Let_def)
  show ?thesis
    unfolding serve_proxy_def p round_trip_def Let_def by (simp split: option.split sum.split)
qed

end
