(* ===== verification/Hub_Dashboard.thy ===== *)
theory Hub_Dashboard
  imports Hub_Registry
begin

text \<open>
  The status page, \<^verbatim>\<open>internal/hub/dashboard.go\<close>: the data its template is given, and that its
  totals are those of the registry's history. The HTML around them is not modelled.
\<close>

section \<open>Durations for people\<close>

text \<open>\<^verbatim>\<open>Duration.Round\<close> of a duration that is not negative; halves go up.\<close>

definition round_to :: "duration \<Rightarrow> duration \<Rightarrow> duration" where
  "round_to m d = (let r = d mod m in if r + r < m then d - r else d + m - r)"

text \<open>\<^verbatim>\<open>Duration.String\<close> of whole seconds.\<close>

definition whole_seconds :: "duration \<Rightarrow> string" where
  "whole_seconds d =
     (let t = nat (d div second); s = t mod 60; m = t div 60 mod 60; h = t div 3600
      in (if h \<noteq> 0 then dec h @ ''h'' else []) @ (if h \<noteq> 0 \<or> m \<noteq> 0 then dec m @ ''m'' else []) @ dec s @ ''s'')"

definition round_duration :: "duration \<Rightarrow> string" where
  "round_duration d0 =
     (let d = (if d0 < 0 then 0 else d0)
      in if d < 60 * second then whole_seconds (round_to second d) else whole_seconds (round_to (60 * second) d))"

lemma round_to_near: "0 < m \<Longrightarrow> 2 * \<bar>round_to m d - d\<bar> \<le> m \<and> m dvd round_to m d"
proof -
  assume m: "0 < m"
  have r: "0 \<le> d mod m" "d mod m < m" using m by simp_all
  have "m dvd d - d mod m" by (rule dvd_minus_mod)
  moreover from this have "m dvd (d - d mod m) + m" by (rule dvd_add) simp
  ultimately show ?thesis using r by (auto simp: round_to_def Let_def algebra_simps)
qed

section \<open>The page\<close>

record dashboard_row =
  dr_info :: agent_info
  dr_since :: string

record dashboard_data =
  dd_version :: string
  dd_rows :: "dashboard_row list"
  dd_connected :: nat
  dd_messages :: nat
  dd_email :: string

text \<open>\<^verbatim>\<open>Sub\<close> saturates: an agent that never disconnected did so longest ago.\<close>

definition since_disconnect :: "time \<Rightarrow> agent_info \<Rightarrow> duration" where
  "since_disconnect now a = (case ai_disconnected_at a of Some t \<Rightarrow> now - t | None \<Rightarrow> 2 ^ 63 - 1)"

definition add_row :: "time \<Rightarrow> agent_info \<Rightarrow> dashboard_data \<Rightarrow> dashboard_data" where
  "add_row now a d =
     (let since = (if ai_connected a then ''for '' @ round_duration (now - ai_connected_at a)
                   else round_duration (since_disconnect now a) @ '' ago'');
          d1 = (if ai_connected a then d\<lparr>dd_connected := Suc (dd_connected d)\<rparr> else d)
      in d1\<lparr>dd_messages := dd_messages d1 + ai_messages a, dd_rows := dd_rows d1 @ [\<lparr>dr_info = a, dr_since = since\<rparr>]\<rparr>)"

definition dashboard_data_for :: "hub_config \<Rightarrow> time \<Rightarrow> request \<Rightarrow> hub \<Rightarrow> dashboard_data" where
  "dashboard_data_for cfg now r h =
     fold (add_row now) (agents_list h)
       \<lparr>dd_version = hc_version cfg, dd_rows = [], dd_connected = 0, dd_messages = 0, dd_email = trim_space (rq_header r header_exe_email)\<rparr>"

definition row_json :: "dashboard_row \<Rightarrow> json" where
  "row_json row = (let a = dr_info row in JObj
     [(''Name'', JStr (ai_name a)), (''Connected'', JBool (ai_connected a)), (''Since'', JStr (dr_since row)),
      (''RemoteAddr'', JStr (ai_remote a)), (''Version'', JStr (ai_version a)), (''Messages'', JInt (int (ai_messages a)))])"

definition handle_dashboard :: "hub_config \<Rightarrow> time \<Rightarrow> request \<Rightarrow> hub \<Rightarrow> response" where
  "handle_dashboard cfg now r h =
     (let d = dashboard_data_for cfg now r h
      in respond 200 [(''Content-Type'', ''text/html; charset=utf-8''), (''Cache-Control'', ''no-store'')]
           (Page ''dashboard''
             [(''Version'', JStr (dd_version d)), (''Rows'', JArr (map row_json (dd_rows d))),
              (''Connected'', JInt (int (dd_connected d))), (''Messages'', JInt (int (dd_messages d))), (''Email'', JStr (dd_email d))]))"

section \<open>The totals\<close>

lemma fold_rows:
  "map dr_info (dd_rows (fold (add_row now) as d)) = map dr_info (dd_rows d) @ as"
  "dd_connected (fold (add_row now) as d) = dd_connected d + length (filter ai_connected as)"
  "dd_messages (fold (add_row now) as d) = dd_messages d + sum_list (map ai_messages as)"
  by (induction as arbitrary: d) (simp_all add: add_row_def Let_def)

lemma dashboard_simps:
  "map dr_info (dd_rows (dashboard_data_for cfg now r h)) = agents_list h"
  "dd_connected (dashboard_data_for cfg now r h) = length (filter ai_connected (agents_list h))"
  "dd_messages (dashboard_data_for cfg now r h) = sum_list (map ai_messages (agents_list h))"
  by (simp_all add: dashboard_data_for_def fold_rows)

lemma agents_names: "map ai_name (agents_list h) = fm_keys (hb_registry h)"
  by (simp add: agents_list_def info_of_def o_def)

lemma connected_count:
  "length (filter ai_connected (agents_list h)) = card {n. \<exists>rec. fmlookup (hb_registry h) n = Some rec \<and> ar_connected rec}"
proof -
  let ?c = "filter ai_connected (agents_list h)"
  have "distinct (map ai_name (agents_list h))" by (simp add: agents_names)
  then have "distinct (map ai_name ?c)" by (rule distinct_map_filter)
  then have "length ?c = card (set (map ai_name ?c))" using distinct_card by fastforce
  also have "set (map ai_name ?c) = {n. \<exists>rec. fmlookup (hb_registry h) n = Some rec \<and> ar_connected rec}"
    using connected_in_list [of h] by (auto simp: image_iff) (metis)+
  finally show ?thesis .
qed

lemma messages_sum: "sum_list (map ai_messages (agents_list h)) = (\<Sum>n\<in>set (fm_keys (hb_registry h)). messages h n)"
proof -
  have "map ai_messages (agents_list h) = map (messages h) (fm_keys (hb_registry h))"
    by (auto simp: agents_list_def info_of_def messages_def set_fm_keys split: option.split)
  then show ?thesis by (simp add: sum_list_distinct_conv_sum_set)
qed

text \<open>Events counted by name are counted altogether.\<close>

lemma filter_by_key:
  assumes "finite S" and "\<And>x. x \<in> set xs \<Longrightarrow> P x \<longleftrightarrow> key x \<in> S \<and> Q x" and "\<And>n x. R n x \<longleftrightarrow> key x = n \<and> Q x"
  shows "length (filter P xs) = (\<Sum>n\<in>S. length (filter (R n) xs))"
  using assms(2)
proof (induction xs)
  case (Cons x xs)
  then have ih: "length (filter P xs) = (\<Sum>n\<in>S. length (filter (R n) xs))" by simp
  have "length (filter (R n) (x # xs)) = (if n = key x then if Q x then 1 else 0 else 0) + length (filter (R n) xs)" for n
    using assms(3) by auto
  then have "(\<Sum>n\<in>S. length (filter (R n) (x # xs))) = (if key x \<in> S \<and> Q x then 1 else 0) + (\<Sum>n\<in>S. length (filter (R n) xs))"
    using assms(1) by (simp add: sum.distrib)
  with ih Cons.prems show ?case by simp
qed simp

definition proxied :: "hub_event \<Rightarrow> bool" where
  "proxied ev = (case ev of Proxies n (Some a) \<Rightarrow> True | _ \<Rightarrow> False)"

definition event_name :: "hub_event \<Rightarrow> string" where
  "event_name ev = (case ev of Proxies n a \<Rightarrow> n | _ \<Rightarrow> [])"

lemma routed_iff: "routed n ev \<longleftrightarrow> event_name ev = n \<and> proxied ev"
  by (auto simp: routed_def proxied_def event_name_def split: hub_event.splits option.splits)

text \<open>
  The page tells the registry's history: it has one row per agent that ever registered, in
  the order of the names, as many agents connected as names are routed, and as many messages as
  requests were passed to an agent since the hub started.
\<close>

theorem dashboard_exact:
  assumes "run hub_step start_hub es s"
  shows "map (ai_name \<circ> dr_info) (dd_rows (dashboard_data_for cfg now r (hs_hub s))) = fm_keys (hb_registry (hs_hub s))
    \<and> dd_connected (dashboard_data_for cfg now r (hs_hub s)) = card {n. lookup_agent n (hs_hub s) \<noteq> None}
    \<and> dd_messages (dashboard_data_for cfg now r (hs_hub s)) = length (filter proxied es)"
proof (intro conjI)
  let ?h = "hs_hub s"
  show "map (ai_name \<circ> dr_info) (dd_rows (dashboard_data_for cfg now r ?h)) = fm_keys (hb_registry ?h)"
    using dashboard_simps(1) agents_names by (metis map_map)
  have inv: "hub_inv s" using hs.reach_inv [OF refl assms] .
  show "dd_connected (dashboard_data_for cfg now r ?h) = card {n. lookup_agent n ?h \<noteq> None}"
    unfolding dashboard_simps connected_count using connected_iff [OF inv] by simp
  have "proxied ev \<longleftrightarrow> event_name ev \<in> set (fm_keys (hb_registry ?h)) \<and> proxied ev" if "ev \<in> set es" for ev
  proof -
    have "messages ?h (event_name ev) \<noteq> 0" if "proxied ev"
      using messages_counted [OF assms] that \<open>ev \<in> set es\<close> by (auto simp: filter_empty_conv routed_iff)
    then show ?thesis by (auto simp: set_fm_keys messages_def split: option.splits)
  qed
  with filter_by_key [where key = event_name and Q = proxied]
  have "length (filter proxied es) = (\<Sum>n\<in>set (fm_keys (hb_registry ?h)). length (filter (routed n) es))"
    by (simp add: routed_iff)
  then show "dd_messages (dashboard_data_for cfg now r ?h) = length (filter proxied es)"
    by (simp add: dashboard_simps messages_sum messages_counted [OF assms])
qed

end
