(* ===== verification/Hub_Examples.thy ===== *)
theory Hub_Examples
  imports Hub_Dashboard
begin

text \<open>The theorems about the hub on small traces and requests.\<close>

definition web :: "string \<Rightarrow> agent_conn" where
  "web remote = \<lparr>ac_name = ''web'', ac_remote = remote, ac_version = [], ac_auth = [], ac_connected_at = 0, ac_closed = False\<rparr>"

definition one_agent :: hub_sys where
  "one_agent = \<lparr>hs_hub = snd (register (web ''a'') new_hub), hs_closing = []\<rparr>"

definition two_channels :: hub_sys where
  "two_channels = \<lparr>hs_hub = snd (register (web ''b'') (hs_hub one_agent)), hs_closing = [0]\<rparr>"

lemma join_one: "hub_step start_hub (Joins (web ''a'') 0) one_agent"
proof -
  have "hub_step start_hub (Joins (web ''a'') 0) \<lparr>hs_hub = snd (register (web ''a'') new_hub),
      hs_closing = (case None of None \<Rightarrow> [] | Some b \<Rightarrow> [b]) @ hs_closing start_hub\<rparr>"
    by (rule hub_joins) (simp_all add: web_def start_hub_def register_def new_hub_def Let_def)
  then show ?thesis by (simp add: one_agent_def start_hub_def)
qed

lemma join_two: "hub_step one_agent (Joins (web ''b'') 1) two_channels"
proof -
  have "hub_step one_agent (Joins (web ''b'') 1) \<lparr>hs_hub = snd (register (web ''b'') (hs_hub one_agent)),
      hs_closing = (case Some 0 of None \<Rightarrow> [] | Some b \<Rightarrow> [b]) @ hs_closing one_agent\<rparr>"
    by (rule hub_joins) (simp_all add: web_def one_agent_def register_def new_hub_def Let_def)
  then show ?thesis by (simp add: two_channels_def one_agent_def)
qed

lemma one_lookup: "lookup_agent ''web'' (hs_hub one_agent) = Some 0" "lookup_agent ''web'' (hs_hub two_channels) = Some 1"
  by (simp_all add: one_agent_def two_channels_def lookup_register register_conns new_hub_def web_def)

lemma registry_consistent_witness:
  "\<exists>x\<in>set (agents_list (hs_hub one_agent)). ai_name x = ''web'' \<and> ai_connected x"
  using registry_consistent [OF run_one [of hub_step, OF join_one]] one_lookup by blast

lemma reconnect_survives_witness:
  "\<exists>u. hub_step two_channels (PingFails 5 0) u \<and> lookup_agent ''web'' (hs_hub u) = Some 1"
proof -
  let ?u = "\<lparr>hs_hub = drop_locked 5 0 (hs_hub two_channels), hs_closing = 0 # hs_closing two_channels\<rparr>"
  have s: "hub_step two_channels (PingFails 5 0) ?u"
    by (rule hub_ping) (simp_all add: two_channels_def one_agent_def register_conns new_hub_def hub_conn_def web_def)
  have r: "run hub_step start_hub [Joins (web ''a'') 0, Joins (web ''b'') 1] two_channels"
    by (rule run_Cons [of hub_step, OF join_one run_one [of hub_step, OF join_two]])
  from reconnect_survives [OF r run_one [of hub_step, OF s] one_lookup(2)] s show ?thesis by auto
qed

lemma proxy_one:
  obtains u where "hub_step one_agent (Proxies ''web'' (Some 0)) u"
    and "run hub_step start_hub [Joins (web ''a'') 0, Proxies ''web'' (Some 0)] u"
proof -
  let ?r = "\<lparr>rq_method = ''GET'', rq_path = ''/'', rq_raw_path = [], rq_raw_query = [], rq_host = [], rq_tls = False,
    rq_proto_major = 1, rq_client = None, rq_header = (\<lambda>k. []), rq_form = (\<lambda>k. []), rq_query = (\<lambda>k. [])\<rparr>"
  obtain res h where t: "round_trip (\<lambda>a r. Inl []) ''web'' ?r (hs_hub one_agent) = (res :: hub_error + conn_id \<times> response, h)"
    by fastforce
  have s: "hub_step one_agent (Proxies ''web'' (Some 0)) (one_agent\<lparr>hs_hub := h\<rparr>)"
    using hub_proxies [OF t] by (simp add: one_lookup)
  with run_Cons [of hub_step, OF join_one run_one [of hub_step, OF s]] show ?thesis by (rule that [rotated])
qed

lemma messages_counted_witness: "\<exists>u. hub_step one_agent (Proxies ''web'' (Some 0)) u \<and> messages (hs_hub u) ''web'' = 1"
proof -
  obtain u where s: "hub_step one_agent (Proxies ''web'' (Some 0)) u"
    and r: "run hub_step start_hub [Joins (web ''a'') 0, Proxies ''web'' (Some 0)] u" by (rule proxy_one)
  from messages_counted [OF r] s show ?thesis by (auto simp: routed_def)
qed

lemma dashboard_exact_witness:
  "\<exists>u. hub_step one_agent (Proxies ''web'' (Some 0)) u \<and> (\<forall>cfg now r. dd_messages (dashboard_data_for cfg now r (hs_hub u)) = 1)"
proof -
  obtain u where s: "hub_step one_agent (Proxies ''web'' (Some 0)) u"
    and r: "run hub_step start_hub [Joins (web ''a'') 0, Proxies ''web'' (Some 0)] u" by (rule proxy_one)
  from dashboard_exact [OF r] s show ?thesis by (auto simp: proxied_def)
qed

definition join_request :: request where
  "join_request = \<lparr>rq_method = ''GET'', rq_path = connect_path, rq_raw_path = [], rq_raw_query = [], rq_host = [], rq_tls = True,
    rq_proto_major = 1, rq_client = None,
    rq_header = (\<lambda>k. if k = ''Authorization'' then ''Bearer t'' else if k = ''Upgrade'' then upgrade_protocol
      else if k = ''Connection'' then ''Upgrade'' else if k = header_agent_name then ''other''
      else if k = header_source_vm then ''web'' else []),
    rq_form = (\<lambda>k. []), rq_query = (\<lambda>k. [])\<rparr>"

definition token_config :: hub_config where
  "token_config = \<lparr>hc_agent_token = ''t'', hc_owner_email = [], hc_advertise_url = [], hc_version = []\<rparr>"

lemma join_checks: "connect_checks id (\<lambda>s t. False) id token_config join_request = Inr (''web'', ''token,verified-name'')"
  by code_simp

lemma registration_authenticated_witness:
  "\<exists>h. handle_connect id (\<lambda>s t. False) id token_config 0 join_request (Upgraded ''r'') new_hub = (Joined 0, h)
     \<and> ac_name (hub_conn h 0) = ''web''"
proof -
  have "\<exists>h. handle_connect id (\<lambda>s t. False) id token_config 0 join_request (Upgraded ''r'') new_hub = (Joined 0, h)"
    by (simp add: handle_connect_def join_checks register_def new_hub_def Let_def)
  then obtain h where h: "handle_connect id (\<lambda>s t. False) id token_config 0 join_request (Upgraded ''r'') new_hub = (Joined 0, h)" ..
  have "to_lower id (trim_space (rq_header join_request header_source_vm)) = ''web''" by code_simp
  with registration_authenticated [OF h] h show ?thesis by auto
qed

lemma proxy_exact_witness:
  "fst (serve_proxy id (\<lambda>a r. Inr (respond 200 [] (Plain (rq_path r)))) ''web'' (join_request\<lparr>rq_path := ''/vm/web/mcp''\<rparr>)
     (hs_hub one_agent)) = respond 200 [] (Plain ''/mcp'')"
  using proxy_exact [of "join_request\<lparr>rq_path := ''/vm/web/mcp''\<rparr>" "''web''" "''mcp''" id
      "\<lambda>a r. Inr (respond 200 [] (Plain (rq_path r)))" "hs_hub one_agent"]
  by (simp add: one_lookup)

end
