(* ===== verification/Fleet.thy ===== *)
theory Fleet
  imports Hub
begin

text \<open>
  The fleet dispatcher, \<^verbatim>\<open>internal/hub/dispatch.go\<close>: one MCP endpoint for all agents.
  It keeps a table of session bindings that expire and a cache of client sessions, each
  tied to the channel it was dialled on. A call leaves the mutex while it dials; what other
  calls do meanwhile is an argument, as are the outcomes of dials and calls.
\<close>

section \<open>Data\<close>

definition local_vm :: string where "local_vm = ''local''"

datatype item = TextItem string | OtherItem string

record call_result =
  cr_content :: "item list"
  cr_error :: bool

type_synonym client = nat

record backend_client =
  bc_sess :: client
  bc_conn :: "conn_id option"

record vm_binding =
  vb_vm :: string
  vb_last_used :: time

record dispatcher =
  dp_clients :: "(string, backend_client) fmap"
  dp_bindings :: "(string, vm_binding) fmap"
  dp_closed :: "client list"

record dispatch_config =
  dc_ttl :: duration
  dc_quote :: "string \<Rightarrow> string"
  dc_indent :: "json \<Rightarrow> string"
  dc_parse :: "string \<Rightarrow> (string, json) fmap option"
  dc_print :: "(string, json) fmap \<Rightarrow> string option"

definition json_tool_result :: "dispatch_config \<Rightarrow> json \<Rightarrow> bool \<Rightarrow> call_result" where
  "json_tool_result cfg v isError = \<lparr>cr_content = [TextItem (dc_indent cfg v)], cr_error = isError\<rparr>"

section \<open>Bindings\<close>

definition binding_key :: "string \<Rightarrow> string" where
  "binding_key s = (if s = [] then ''default'' else s)"

definition get_binding :: "dispatcher \<Rightarrow> string \<Rightarrow> vm_binding option" where
  "get_binding d k = fmlookup (dp_bindings d) k"

definition put_binding :: "string \<Rightarrow> vm_binding \<Rightarrow> dispatcher \<Rightarrow> dispatcher" where
  "put_binding k b d = d\<lparr>dp_bindings := fmupd k b (dp_bindings d)\<rparr>"

definition del_binding :: "string \<Rightarrow> dispatcher \<Rightarrow> dispatcher" where
  "del_binding k d = d\<lparr>dp_bindings := fmdrop k (dp_bindings d)\<rparr>"

definition prune_bindings :: "(vm_binding \<Rightarrow> bool) \<Rightarrow> dispatcher \<Rightarrow> dispatcher" where
  "prune_bindings keep d = d\<lparr>dp_bindings := fm_prune keep (dp_bindings d)\<rparr>"

definition prune_locked :: "dispatch_config \<Rightarrow> time \<Rightarrow> dispatcher \<Rightarrow> dispatcher" where
  "prune_locked cfg now d =
     (if dc_ttl cfg \<le> 0 then d
      else prune_bindings (\<lambda>b. \<not> vb_last_used b < now - dc_ttl cfg) d)"

definition bind :: "dispatch_config \<Rightarrow> time \<Rightarrow> string \<Rightarrow> string \<Rightarrow> dispatcher \<Rightarrow> dispatcher" where
  "bind cfg now key vm d = put_binding key \<lparr>vb_vm = vm, vb_last_used = now\<rparr> (prune_locked cfg now d)"

definition bound_vm :: "dispatch_config \<Rightarrow> time \<Rightarrow> string \<Rightarrow> dispatcher \<Rightarrow> string \<times> dispatcher" where
  "bound_vm cfg now key d =
     (let d1 = prune_locked cfg now d
      in case get_binding d1 key of None \<Rightarrow> ([], d1)
         | Some b \<Rightarrow> (vb_vm b, put_binding key (b\<lparr>vb_last_used := now\<rparr>) d1))"

definition bindings_view :: "dispatch_config \<Rightarrow> time \<Rightarrow> dispatcher \<Rightarrow> members \<times> dispatcher" where
  "bindings_view cfg now d =
     (let d1 = prune_locked cfg now d
      in (map (\<lambda>k. (k, JStr (vb_vm (the (get_binding d1 k))))) (fm_keys (dp_bindings d1)), d1))"

definition resolve_explicit_vm :: "dispatch_config \<Rightarrow> string \<Rightarrow> call_result + string" where
  "resolve_explicit_vm cfg explicit =
     (if explicit = [] \<or> explicit = local_vm then Inr local_vm
      else if \<not> valid_name explicit
      then Inl (json_tool_result cfg (JObj
        [(''error'', JStr ''invalid_vm''),
         (''message'', JStr (''invalid vm handle '' @ dc_quote cfg explicit @ '': want '' @ dc_quote cfg local_vm @
            '' or 1-63 chars of [a-z0-9-], not starting/ending with -'')),
         (''vm'', JStr explicit)]) True)
      else Inr explicit)"

definition resolve_vm :: "dispatch_config \<Rightarrow> time \<Rightarrow> string \<Rightarrow> string \<Rightarrow> dispatcher \<Rightarrow> (call_result + string) \<times> dispatcher" where
  "resolve_vm cfg now explicit sid d =
     (if explicit \<noteq> [] then (resolve_explicit_vm cfg explicit, d)
      else case bound_vm cfg now (binding_key sid) d of
             (vm, d') \<Rightarrow> (Inr (if vm \<noteq> [] then vm else local_vm), d'))"

section \<open>Clients\<close>

datatype dispatch_failure = VmNotConnected string | CallFailed string

definition failure_text :: "dispatch_config \<Rightarrow> dispatch_failure \<Rightarrow> string" where
  "failure_text cfg e = (case e of VmNotConnected n \<Rightarrow> hub_error_text (dc_quote cfg) (NotConnected n) | CallFailed m \<Rightarrow> m)"

definition close_quietly :: "client \<Rightarrow> dispatcher \<Rightarrow> dispatcher" where
  "close_quietly c d = d\<lparr>dp_closed := c # dp_closed d\<rparr>"

definition get_client :: "dispatcher \<Rightarrow> string \<Rightarrow> backend_client option" where
  "get_client d vm = fmlookup (dp_clients d) vm"

definition put_client :: "string \<Rightarrow> backend_client \<Rightarrow> dispatcher \<Rightarrow> dispatcher" where
  "put_client vm bc d = d\<lparr>dp_clients := fmupd vm bc (dp_clients d)\<rparr>"

definition del_client :: "string \<Rightarrow> dispatcher \<Rightarrow> dispatcher" where
  "del_client vm d = d\<lparr>dp_clients := fmdrop vm (dp_clients d)\<rparr>"

text \<open>
  What happens around one use of a client: the hub at the lookup, the dial's outcome and
  the other calls that ran during the dial.
\<close>

record dial_world =
  dw_hub :: hub
  dw_dial :: "string + client"
  dw_others :: "dispatcher \<Rightarrow> dispatcher"

definition dial_vm :: "dispatch_config \<Rightarrow> string \<Rightarrow> dial_world \<Rightarrow> dispatch_failure + client" where
  "dial_vm cfg vm w =
     (case dw_dial w of
        Inl e \<Rightarrow> Inl (CallFailed (if vm = local_vm then e else ''dial vm '' @ dc_quote cfg vm @ '': '' @ e))
      | Inr s \<Rightarrow> Inr s)"

definition install_client :: "string \<Rightarrow> client \<Rightarrow> conn_id option \<Rightarrow> dispatcher \<Rightarrow> client \<times> dispatcher" where
  "install_client vm s cur d =
     (case get_client d vm of
        Some bc \<Rightarrow> if bc_conn bc = cur then (bc_sess bc, close_quietly s d)
                   else (s, put_client vm \<lparr>bc_sess = s, bc_conn = cur\<rparr> d)
      | None \<Rightarrow> (s, put_client vm \<lparr>bc_sess = s, bc_conn = cur\<rparr> d))"

definition dial_client :: "dispatch_config \<Rightarrow> string \<Rightarrow> dial_world \<Rightarrow> conn_id option \<Rightarrow> dispatcher \<Rightarrow> (dispatch_failure + client) \<times> dispatcher" where
  "dial_client cfg vm w cur d =
     (case dial_vm cfg vm w of
        Inl e \<Rightarrow> (Inl e, dw_others w d)
      | Inr s \<Rightarrow> (case install_client vm s cur (dw_others w d) of (c, d') \<Rightarrow> (Inr c, d')))"

definition client_for :: "dispatch_config \<Rightarrow> string \<Rightarrow> dial_world \<Rightarrow> dispatcher \<Rightarrow> (dispatch_failure + client) \<times> dispatcher" where
  "client_for cfg vm w d =
     (let cur = (if vm = local_vm then None else lookup_agent vm (dw_hub w));
          cached = get_client d vm
      in if vm \<noteq> local_vm \<and> cur = None then (Inl (VmNotConnected vm), d)
         else case cached of
           Some bc \<Rightarrow>
             if bc_conn bc = cur then (Inr (bc_sess bc), d)
             else dial_client cfg vm w cur (close_quietly (bc_sess bc) (del_client vm d))
         | None \<Rightarrow> dial_client cfg vm w cur d)"

definition invalidate :: "string \<Rightarrow> client \<Rightarrow> dispatcher \<Rightarrow> dispatcher" where
  "invalidate vm s d =
     close_quietly s (case get_client d vm of
       Some bc \<Rightarrow> if bc_sess bc = s then del_client vm d else d | None \<Rightarrow> d)"

section \<open>Forwarding a call\<close>

definition stale_session_err :: "string \<Rightarrow> bool" where
  "stale_session_err msg = (str_contains msg ''404'' \<or> str_contains msg ''session not found'')"

text \<open>
  The world of one forwarded call: two rounds of dialling and calling, and whether the
  caller has gone away by the time the first fails. The last component of the result is
  the list of clients the tool call was sent to.
\<close>

record call_world =
  cw_dial1 :: dial_world
  cw_reply1 :: "string + call_result"
  cw_cancelled :: bool
  cw_dial2 :: dial_world
  cw_reply2 :: "string + call_result"

definition call_tool :: "dispatch_config \<Rightarrow> string \<Rightarrow> call_world \<Rightarrow> dispatcher
    \<Rightarrow> (dispatch_failure + call_result) \<times> dispatcher \<times> client list" where
  "call_tool cfg vm w d =
     (case client_for cfg vm (cw_dial1 w) d of
        (Inl e, d1) \<Rightarrow> (Inl e, d1, [])
      | (Inr cs, d1) \<Rightarrow>
          (case cw_reply1 w of
             Inr res \<Rightarrow> (Inr res, d1, [cs])
           | Inl err \<Rightarrow>
               let d2 = invalidate vm cs d1
               in if \<not> cw_cancelled w \<and> stale_session_err err
                  then (case client_for cfg vm (cw_dial2 w) d2 of
                          (Inl rerr, d3) \<Rightarrow>
                            (Inl (CallFailed (err @ '' (re-dial after stale session: '' @ failure_text cfg rerr @ '')'')), d3, [cs])
                        | (Inr cs2, d3) \<Rightarrow>
                            (case cw_reply2 w of
                               Inl rerr \<Rightarrow> (Inl (CallFailed rerr), invalidate vm cs2 d3, [cs, cs2])
                             | Inr res \<Rightarrow> (Inr res, d3, [cs, cs2])))
                  else (Inl (CallFailed err), d2, [cs])))"

definition dispatch_error :: "dispatch_config \<Rightarrow> string \<Rightarrow> dispatch_failure \<Rightarrow> call_result" where
  "dispatch_error cfg vm e = json_tool_result cfg (JObj
     [(''error'', JStr (case e of VmNotConnected n \<Rightarrow> ''vm_not_connected'' | CallFailed m \<Rightarrow> ''vm_unreachable'')),
      (''message'', JStr (failure_text cfg e)), (''vm'', JStr vm)]) True"

definition augment :: "dispatch_config \<Rightarrow> call_result \<Rightarrow> members \<Rightarrow> call_result" where
  "augment cfg res extra =
     (case cr_content res of
        TextItem t # rest \<Rightarrow>
          (case dc_parse cfg t of None \<Rightarrow> res
           | Some obj \<Rightarrow>
               (case dc_print cfg (fold (\<lambda>(k, v). fmupd k v) extra obj) of None \<Rightarrow> res
                | Some b \<Rightarrow> res\<lparr>cr_content := TextItem b # rest\<rparr>))
      | _ \<Rightarrow> res)"

section \<open>The handlers\<close>

text \<open>The arguments of the forwarded call, without those left empty.\<close>

definition forward_args :: "string \<Rightarrow> members option \<Rightarrow> string \<Rightarrow> members" where
  "forward_args tool input sid =
     (case input of None \<Rightarrow> [] | Some i \<Rightarrow> [(''input'', JObj i)]) @
     (if sid \<noteq> [] then [(''session'', JStr sid)] else []) @ [(''tool'', JStr tool)]"

definition fleet_invoke :: "dispatch_config \<Rightarrow> time \<Rightarrow> string \<Rightarrow> members option \<Rightarrow> string \<Rightarrow> string \<Rightarrow> (members \<Rightarrow> call_world) \<Rightarrow> dispatcher
    \<Rightarrow> call_result \<times> dispatcher" where
  "fleet_invoke cfg now tool input sid vm world d =
     (case resolve_vm cfg now vm sid d of
        (Inl e, d1) \<Rightarrow> (e, d1)
      | (Inr target, d1) \<Rightarrow>
          (case call_tool cfg target (world (forward_args tool input sid)) d1 of
             (Inl e, d2, cs) \<Rightarrow> (dispatch_error cfg target e, d2)
           | (Inr res, d2, cs) \<Rightarrow> (res, d2)))"

definition fleet_view :: "hub \<Rightarrow> json" where
  "fleet_view h = JObj
     [(''usage'', JStr (''pass {'' @ [CHR 0x22] @ ''vm'' @ [CHR 0x22] @ '': <name>} on invoke/session/describe; session {'' @
         [CHR 0x22] @ ''action'' @ [CHR 0x22] @ '': '' @ [CHR 0x22] @ ''create'' @ [CHR 0x22] @ '', '' @ [CHR 0x22] @ ''session'' @ [CHR 0x22] @
         '': <id>, '' @ [CHR 0x22] @ ''vm'' @ [CHR 0x22] @ '': <name>} binds the session so later invoke calls route automatically'')),
      (''vms'', JArr (JObj [(''connected'', JBool True), (''description'', JStr (''this hub'' @ [CHR 0x27] @ ''s own sandbox (the default target)'')), (''name'', JStr local_vm)] #
         map (\<lambda>a. JObj ([(''connected'', JBool (ai_connected a)), (''name'', JStr (ai_name a))] @
           (if ai_version a \<noteq> [] then [(''version'', JStr (ai_version a))] else []))) (agents_list h)))]"

definition fleet_describe :: "dispatch_config \<Rightarrow> hub \<Rightarrow> string \<Rightarrow> (members \<Rightarrow> call_world) \<Rightarrow> dispatcher \<Rightarrow> call_result \<times> dispatcher" where
  "fleet_describe cfg h vm w d =
     (case resolve_explicit_vm cfg vm of
        Inl e \<Rightarrow> (e, d)
      | Inr target \<Rightarrow>
          (case call_tool cfg target (w []) d of
             (Inl e, d1, cs) \<Rightarrow> (dispatch_error cfg target e, d1)
           | (Inr res, d1, cs) \<Rightarrow>
               (augment cfg res ([(''vm'', JStr target)] @ (if vm = [] then [(''fleet'', fleet_view h)] else [])), d1)))"

text \<open>\<open>t1\<close> is the time when the call is resolved, \<open>t2\<close> when its result is back.\<close>

definition fleet_session :: "dispatch_config \<Rightarrow> time \<Rightarrow> time \<Rightarrow> string \<Rightarrow> string \<Rightarrow> string \<Rightarrow> (members \<Rightarrow> call_world) \<Rightarrow> dispatcher
    \<Rightarrow> call_result \<times> dispatcher" where
  "fleet_session cfg t1 t2 action sid vm w d =
     (if action = ''create''
      then (case resolve_explicit_vm cfg vm of
              Inl e \<Rightarrow> (e, d)
            | Inr target \<Rightarrow>
                (case call_tool cfg target (w [(''action'', JStr ''create''), (''session'', JStr sid)]) d of
                   (Inl e, d1, cs) \<Rightarrow> (dispatch_error cfg target e, d1)
                 | (Inr res, d1, cs) \<Rightarrow>
                     (augment cfg res [(''vm'', JStr target)],
                      if \<not> cr_error res then bind cfg t2 (binding_key sid) target d1 else d1)))
      else if action = ''reset''
      then (case resolve_vm cfg t1 vm sid d of
              (Inl e, d0) \<Rightarrow> (e, d0)
            | (Inr target, d0) \<Rightarrow>
                (case call_tool cfg target (w [(''action'', JStr ''reset''), (''session'', JStr sid)]) d0 of
                   (Inl e, d1, cs) \<Rightarrow> (dispatch_error cfg target e, d1)
                 | (Inr res, d1, cs) \<Rightarrow> (augment cfg res [(''vm'', JStr target)], d1)))
      else if action = ''list'' \<or> action = []
      then (case resolve_explicit_vm cfg vm of
              Inl e \<Rightarrow> (e, d)
            | Inr target \<Rightarrow>
                (case call_tool cfg target (w [(''action'', JStr ''list'')]) d of
                   (Inl e, d1, cs) \<Rightarrow> (dispatch_error cfg target e, d1)
                 | (Inr res, d1, cs) \<Rightarrow>
                     if vm = []
                     then (case bindings_view cfg t2 d1 of (bs, d2) \<Rightarrow>
                             (augment cfg res [(''vm'', JStr target), (''bindings'', JObj bs)], d2))
                     else (augment cfg res [(''vm'', JStr target)], d1)))
      else (json_tool_result cfg (JObj [(''error'', JStr ''invalid_action''),
              (''message'', JStr (''unknown action '' @ dc_quote cfg action @ '': must be create, list, or reset''))]) True, d))"

end
