(* ===== verification/Fleet_Routing.thy ===== *)
theory Fleet_Routing
  imports Fleet
begin

text \<open>
  Where the dispatcher sends a call: the binding table against the history of binds and
  calls, the client cache against the hub's channels, and how often a call is sent.
\<close>

interpretation bd: expiring_table get_binding put_binding del_binding prune_bindings
  by unfold_locales (simp_all add: get_binding_def put_binding_def del_binding_def prune_bindings_def)

interpretation cl: keyed_table get_client put_client del_client
  by unfold_locales (simp_all add: get_client_def put_client_def del_client_def)

section \<open>Bindings against their history\<close>

definition live :: "duration \<Rightarrow> time \<Rightarrow> time \<Rightarrow> bool" where
  "live ttl now used = (ttl \<le> 0 \<or> now - used \<le> ttl)"

lemma get_pruned: "get_binding (prune_locked cfg now d) k =
    (case get_binding d k of None \<Rightarrow> None | Some b \<Rightarrow> if live (dc_ttl cfg) now (vb_last_used b) then Some b else None)"
  by (auto simp: prune_locked_def bd.get_prune live_def split: option.splits)

datatype binding_op = Bound time string string | Asked time string

fun op_time :: "binding_op \<Rightarrow> time" where
  "op_time (Bound t k vm) = t"
| "op_time (Asked t k) = t"

text \<open>The dispatcher: the targets of the calls, in order.\<close>

fun targets :: "dispatch_config \<Rightarrow> binding_op list \<Rightarrow> dispatcher \<Rightarrow> string list" where
  "targets cfg [] d = []"
| "targets cfg (Bound t sid vm # ops) d = targets cfg ops (bind cfg t (binding_key sid) vm d)"
| "targets cfg (Asked t sid # ops) d =
     (case resolve_vm cfg t [] sid d of (r, d') \<Rightarrow> projr r # targets cfg ops d')"

text \<open>
  The specification: what each session was used bound to and when it was used used, with
  no table, no pruning and no other session in sight.
\<close>

fun routes :: "duration \<Rightarrow> (string \<Rightarrow> (string \<times> time) option) \<Rightarrow> binding_op list \<Rightarrow> string list" where
  "routes ttl st [] = []"
| "routes ttl st (Bound t sid vm # ops) = routes ttl (st(binding_key sid := Some (vm, t))) ops"
| "routes ttl st (Asked t sid # ops) =
     (case st (binding_key sid) of
        None \<Rightarrow> local_vm # routes ttl st ops
      | Some (vm, used) \<Rightarrow>
          if live ttl t used then vm # routes ttl (st(binding_key sid := Some (vm, t))) ops
          else local_vm # routes ttl (st(binding_key sid := None)) ops)"

text \<open>A binding is as specified, or already pruned because it has expired.\<close>

definition agree_at :: "duration \<Rightarrow> time \<Rightarrow> (string \<times> time) option \<Rightarrow> vm_binding option \<Rightarrow> bool" where
  "agree_at ttl now x b = (case x of
      None \<Rightarrow> b = None
    | Some (vm, used) \<Rightarrow> vm \<noteq> [] \<and>
        (b = Some \<lparr>vb_vm = vm, vb_last_used = used\<rparr> \<or> b = None \<and> \<not> live ttl now used))"

definition agree :: "dispatch_config \<Rightarrow> time \<Rightarrow> (string \<Rightarrow> (string \<times> time) option) \<Rightarrow> dispatcher \<Rightarrow> bool" where
  "agree cfg now st d = (\<forall>k. agree_at (dc_ttl cfg) now (st k) (get_binding d k))"

lemma live_mono: "live ttl now used \<Longrightarrow> t \<le> now \<Longrightarrow> live ttl t used"
  by (auto simp: live_def)

lemma agree_at_later: "agree_at ttl t x b \<Longrightarrow> t \<le> now \<Longrightarrow> agree_at ttl now x b"
  unfolding agree_at_def by (cases x) (auto dest: live_mono)

lemma agree_at_prune: "agree_at ttl now x b \<Longrightarrow>
    agree_at ttl now x (case b of None \<Rightarrow> None | Some b \<Rightarrow> if live ttl now (vb_last_used b) then Some b else None)"
  unfolding agree_at_def by (cases x) auto

lemma agree_later: "agree cfg t st d \<Longrightarrow> t \<le> now \<Longrightarrow> agree cfg now st d"
  unfolding agree_def using agree_at_later by blast

lemma agree_prune: "agree cfg now st d \<Longrightarrow> agree cfg now st (prune_locked cfg now d)"
  unfolding agree_def get_pruned using agree_at_prune by blast

lemma agree_put: "agree cfg now st d \<Longrightarrow> vm \<noteq> [] \<Longrightarrow>
    agree cfg now (st(k := Some (vm, t))) (put_binding k \<lparr>vb_vm = vm, vb_last_used = t\<rparr> d)"
  unfolding agree_def by (simp add: bd.get_put agree_at_def)

lemma agree_dead: "agree cfg now st d \<Longrightarrow> get_binding d k = None \<Longrightarrow> agree cfg now (st(k := None)) d"
  unfolding agree_def by (simp add: agree_at_def)

lemma targets_agree:
  assumes "agree cfg t0 st d" and "sorted (t0 # map op_time ops)" and "\<forall>t sid vm. Bound t sid vm \<in> set ops \<longrightarrow> vm \<noteq> []"
  shows "targets cfg ops d = routes (dc_ttl cfg) st ops"
  using assms
proof (induction ops arbitrary: d st t0)
  case (Cons op ops)
  show ?case
  proof (cases op)
    case (Bound t sid vm)
    then have "t0 \<le> t" "vm \<noteq> []" using Cons.prems(2,3) by auto
    then have "agree cfg t (st(binding_key sid := Some (vm, t))) (bind cfg t (binding_key sid) vm d)"
      unfolding bind_def by (intro agree_put agree_prune agree_later [OF Cons.prems(1)])
    from Cons.IH [OF this] Cons.prems(2,3) Bound show ?thesis by (simp add: fun_upd_def)
  next
    case (Asked t sid)
    let ?k = "binding_key sid" and ?p = "prune_locked cfg t d"
    have p: "agree cfg t st ?p" by (rule agree_prune, rule agree_later [OF Cons.prems(1)]) (use Cons.prems(2) Asked in simp)
    have rest: "agree cfg t st' d' \<Longrightarrow> targets cfg ops d' = routes (dc_ttl cfg) st' ops" for st' d'
      using Cons.IH [of t st' d'] Cons.prems(2,3) Asked by simp
    show ?thesis
    proof (cases "st ?k")
      case None
      then have "get_binding ?p ?k = None" using spec [OF p [unfolded agree_def], of ?k] by (simp add: agree_at_def)
      then show ?thesis using Asked None rest [OF p] by (simp add: resolve_vm_def bound_vm_def)
    next
      case (Some x)
      then obtain vm used where x: "st ?k = Some (vm, used)" by (cases x) auto
      have b: "vm \<noteq> []" "get_binding ?p ?k = Some \<lparr>vb_vm = vm, vb_last_used = used\<rparr>
         \<or> get_binding ?p ?k = None \<and> \<not> live (dc_ttl cfg) t used"
        using spec [OF p [unfolded agree_def], of ?k] x by (simp_all add: agree_at_def)
      show ?thesis
      proof (cases "get_binding ?p ?k")
        case None
        then have "\<not> live (dc_ttl cfg) t used" using b by simp
        then show ?thesis using Asked x None rest [OF agree_dead [OF p None]] by (simp add: resolve_vm_def bound_vm_def)
      next
        case (Some c)
        then have c: "c = \<lparr>vb_vm = vm, vb_last_used = used\<rparr>" "live (dc_ttl cfg) t used"
          using b by (auto simp: get_pruned split: option.splits if_splits)
        have "agree cfg t (st(?k := Some (vm, t))) (put_binding ?k \<lparr>vb_vm = vm, vb_last_used = t\<rparr> ?p)"
          by (rule agree_put [OF p b(1)])
        from rest [OF this] show ?thesis using Asked x Some c b(1) by (simp add: resolve_vm_def bound_vm_def)
      qed
    qed
  qed
qed simp

text \<open>
  C37. Session routing implements its specification: for any history of binds and calls
  in time order, a call without an explicit VM goes where its session was used bound,
  as long as no gap between uses of that binding exceeded the TTL, and to the hub's own
  sandbox otherwise; what other sessions do, and when the table is pruned, never matters.
\<close>

theorem fleet_routing_refines:
  assumes "sorted (map op_time ops)" and "\<forall>t sid vm. Bound t sid vm \<in> set ops \<longrightarrow> vm \<noteq> []" and "dp_bindings d = fmempty"
  shows "targets cfg ops d = routes (dc_ttl cfg) Map.empty ops"
proof (cases ops)
  case (Cons op ops')
  have "agree cfg (op_time op) Map.empty d" using assms(3) by (simp add: agree_def agree_at_def get_binding_def)
  then show ?thesis by (rule targets_agree) (use assms Cons in auto)
qed simp

section \<open>Clients\<close>

definition current_channel :: "string \<Rightarrow> dial_world \<Rightarrow> conn_id option" where
  "current_channel vm w = (if vm = local_vm then None else lookup_agent vm (dw_hub w))"

lemma install_current: "install_client vm s cur d = (c, d') \<Longrightarrow> get_client d' vm = Some \<lparr>bc_sess = c, bc_conn = cur\<rparr>"
  by (auto simp: install_client_def cl.get_put close_quietly_def get_client_def put_client_def split: option.splits if_splits)

lemma dial_current: "dial_client cfg vm w cur d = (Inr c, d') \<Longrightarrow> get_client d' vm = Some \<lparr>bc_sess = c, bc_conn = cur\<rparr>"
  by (auto simp: dial_client_def dest!: install_current split: sum.splits prod.splits)

lemma client_current:
  assumes "client_for cfg vm w d = (Inr c, d')"
  shows "get_client d' vm = Some \<lparr>bc_sess = c, bc_conn = current_channel vm w\<rparr> \<and> (vm = local_vm \<or> current_channel vm w \<noteq> None)"
  using assms
  by (auto simp: client_for_def current_channel_def Let_def dest: dial_current split: option.splits if_splits)


lemma contains_trans: "str_contains a b \<Longrightarrow> str_contains b c \<Longrightarrow> str_contains a c"
  unfolding str_contains_iff by (metis append.assoc)

text \<open>
  The retry is not limited to calls that never ran: any failure text that mentions
  a VM whose name contains \<^verbatim>\<open>404\<close> passes for a stale session, and transport errors do
  mention it, so a call that may have run on the agent is sent to it again.
\<close>

theorem retry_resends:
  assumes "str_contains vm ''404''" and "cw_reply1 w = Inl err" and "str_contains err vm" and "\<not> cw_cancelled w"
    and "client_for cfg vm (cw_dial1 w) d = (Inr c1, d1)"
    and "client_for cfg vm (cw_dial2 w) (invalidate vm c1 d1) = (Inr c2, d2)"
  shows "\<exists>r d'. call_tool cfg vm w d = (r, d', [c1, c2]) \<and> (\<forall>res. cw_reply2 w = Inr res \<longrightarrow> r = Inr res)"
proof -
  have "stale_session_err err" using contains_trans [OF assms(3,1)] by (simp add: stale_session_err_def)
  then show ?thesis using assms(2,4-6) by (auto simp: call_tool_def Let_def split: sum.split)
qed

text \<open>
  Two calls that dial the same VM on different channels: the later one to finish
  overwrites the cache entry of the other, whose session is neither cached nor closed.
\<close>

lemma overwritten_client_leaks:
  assumes "get_client d vm = Some bc" and "bc_conn bc \<noteq> cur"
  shows "install_client vm s cur d = (s, put_client vm \<lparr>bc_sess = s, bc_conn = cur\<rparr> d)
    \<and> dp_closed (snd (install_client vm s cur d)) = dp_closed d"
  using assms by (simp add: install_client_def put_client_def)

text \<open>An agent may register under the reserved handle, and is then out of the dispatcher's reach.\<close>

lemma local_name_shadowed: "valid_name ''local'' \<and> resolve_explicit_vm cfg ''local'' = Inr local_vm"
  by (simp add: valid_name_def resolve_explicit_vm_def local_vm_def list_all_iff upt_rec)

section \<open>Pass-through\<close>

text \<open>
  The dispatcher never touches tool output: the answer to an invoke call is the
  backend's reply itself, for the tool, input and session given, or a refusal of its own
  when the VM is not valid, not connected or fails.
\<close>

theorem invoke_passes_through:
  assumes "fleet_invoke cfg now tool input sid vm world d = (res, d')"
  shows "let target = projr (fst (resolve_vm cfg now vm sid d)); w = world (forward_args tool input sid)
    in cw_reply1 w = Inr res \<or> cw_reply2 w = Inr res
      \<or> resolve_vm cfg now vm sid d = (Inl res, d')
      \<or> (\<exists>e. res = dispatch_error cfg target e)"
proof (cases "resolve_vm cfg now vm sid d")
  case (Pair x d1)
  show ?thesis
  proof (cases x)
    case (Inl e)
    with Pair assms show ?thesis by (simp add: fleet_invoke_def Let_def)
  next
    case (Inr target)
    with Pair assms show ?thesis
      by (auto simp: fleet_invoke_def call_tool_def Let_def split: sum.splits prod.splits if_splits)
  qed
qed

end
