(* ===== verification/Fleet_Examples.thy ===== *)
theory Fleet_Examples
  imports Fleet_Routing Hub_Registry
begin

text \<open>The theorems about the dispatcher on small histories and calls.\<close>

definition empty_dispatcher :: dispatcher where
  "empty_dispatcher = \<lparr>dp_clients = fmempty, dp_bindings = fmempty, dp_closed = []\<rparr>"

definition small_config :: dispatch_config where
  "small_config = \<lparr>dc_ttl = 10, dc_quote = id, dc_indent = (\<lambda>j. []), dc_parse = (\<lambda>t. None), dc_print = (\<lambda>m. None)\<rparr>"

definition small_history :: "binding_op list" where
  "small_history = [Bound 0 ''s'' ''web'', Asked 8 ''s'', Asked 9 ''other'', Asked 18 ''s'', Asked 29 ''s'', Asked 30 ''s'']"

lemma fleet_routing_refines_witness:
  "targets small_config small_history empty_dispatcher = [''web'', ''local'', ''web'', ''local'', ''local'']"
  using fleet_routing_refines [of small_history empty_dispatcher small_config]
  by (simp add: small_history_def empty_dispatcher_def small_config_def live_def binding_key_def local_vm_def)

definition web_hub :: hub where
  "web_hub = snd (register \<lparr>ac_name = ''web404'', ac_remote = ''a'', ac_version = [], ac_auth = [],
     ac_connected_at = 0, ac_closed = False\<rparr> new_hub)"

definition web_dial :: "client \<Rightarrow> dial_world" where
  "web_dial c = \<lparr>dw_hub = web_hub, dw_dial = Inr c, dw_others = id\<rparr>"

definition done_result :: call_result where
  "done_result = \<lparr>cr_content = [TextItem ''ok''], cr_error = False\<rparr>"

definition web_world :: "string + call_result \<Rightarrow> call_world" where
  "web_world r = \<lparr>cw_dial1 = web_dial 1, cw_reply1 = r, cw_cancelled = False,
     cw_dial2 = web_dial 2, cw_reply2 = Inr done_result\<rparr>"

lemma web_lookup: "lookup_agent ''web404'' web_hub = Some 0"
  by (simp add: web_hub_def lookup_register new_hub_def)

lemmas web_simps = web_dial_def web_world_def empty_dispatcher_def client_for_def dial_client_def dial_vm_def
  install_client_def get_client_def put_client_def del_client_def close_quietly_def invalidate_def web_lookup local_vm_def Let_def

lemma web_first: "\<exists>d1. client_for small_config ''web404'' (web_dial 1) empty_dispatcher = (Inr 1, d1)"
  by (simp add: web_simps)


lemma retry_resends_witness:
  "\<exists>d'. call_tool small_config ''web404'' (web_world (Inl ''dial web404: unexpected EOF'')) empty_dispatcher
     = (Inr done_result, d', [1, 2])"
proof -
  obtain d1 where d1: "client_for small_config ''web404'' (web_dial 1) empty_dispatcher = (Inr 1, d1)"
    using web_first ..
  moreover have "\<exists>d2. client_for small_config ''web404'' (web_dial 2) (invalidate ''web404'' 1 d1) = (Inr 2, d2)"
    using d1 by (auto simp: web_simps)
  then obtain d2 where "client_for small_config ''web404'' (web_dial 2) (invalidate ''web404'' 1 d1) = (Inr 2, d2)" ..
  moreover have "str_contains ''web404'' ''404''" "str_contains ''dial web404: unexpected EOF'' ''web404''" by code_simp+
  ultimately show ?thesis
    using retry_resends [of "''web404''" "web_world (Inl ''dial web404: unexpected EOF'')" "''dial web404: unexpected EOF''"
        small_config empty_dispatcher 1 d1 2 d2]
    by (auto simp: web_world_def)
qed

lemma invoke_passes_through_witness:
  "\<exists>d'. fleet_invoke small_config 5 ''Bash'' None [] ''web404'' (\<lambda>args. web_world (Inr done_result)) empty_dispatcher = (done_result, d')"
proof -
  obtain res d' where r: "fleet_invoke small_config 5 ''Bash'' None [] ''web404'' (\<lambda>args. web_world (Inr done_result)) empty_dispatcher = (res, d')"
    by fastforce
  have v: "resolve_vm small_config 5 ''web404'' [] empty_dispatcher = (Inr ''web404'', empty_dispatcher)"
    by (simp add: resolve_vm_def resolve_explicit_vm_def local_vm_def valid_name_def list_all_iff upt_rec)
  obtain d1 where "client_for small_config ''web404'' (web_dial 1) empty_dispatcher = (Inr 1, d1)"
    using web_first ..
  then have "res = done_result" if "\<exists>e. res = dispatch_error small_config ''web404'' e"
    using r v that by (simp add: fleet_invoke_def call_tool_def web_world_def)
  with invoke_passes_through [OF r] v r show ?thesis by (auto simp: web_world_def Let_def)
qed

end
