(* ===== verification/Base64.thy ===== *)
theory Base64
  imports Go_Text
begin

text \<open>
  \<^verbatim>\<open>base64.RawURLEncoding\<close>, which the identity provider writes as \<^verbatim>\<open>b64u\<close>: the URL
  alphabet without padding. The decoder skips line breaks and ignores the spare bits of a
  short last group, as Go's does.
\<close>

definition b64_digit :: "nat \<Rightarrow> char" where
  "b64_digit n = (if n < 26 then char_of (65 + n) else if n < 52 then char_of (71 + n)
     else if n < 62 then char_of (n - 4) else if n = 62 then CHR ''-'' else CHR ''_'')"

definition b64_value :: "char \<Rightarrow> nat option" where
  "b64_value c =
     (let n = byte c
      in if 65 \<le> n \<and> n \<le> 90 then Some (n - 65) else if 97 \<le> n \<and> n \<le> 122 then Some (n - 71)
         else if 48 \<le> n \<and> n \<le> 57 then Some (n + 4) else if c = CHR ''-'' then Some 62
         else if c = CHR ''_'' then Some 63 else None)"

fun b64u :: "string \<Rightarrow> string" where
  "b64u [] = []"
| "b64u [a] = [b64_digit (byte a div 4), b64_digit (byte a mod 4 * 16)]"
| "b64u [a, b] = [b64_digit (byte a div 4), b64_digit (byte a mod 4 * 16 + byte b div 16), b64_digit (byte b mod 16 * 4)]"
| "b64u (a # b # c # r) =
     b64_digit (byte a div 4) # b64_digit (byte a mod 4 * 16 + byte b div 16)
     # b64_digit (byte b mod 16 * 4 + byte c div 64) # b64_digit (byte c mod 64) # b64u r"

fun b64_bytes :: "nat list \<Rightarrow> string option" where
  "b64_bytes [] = Some []"
| "b64_bytes [w] = None"
| "b64_bytes [w, x] = Some [char_of (w * 4 + x div 16)]"
| "b64_bytes [w, x, y] = Some [char_of (w * 4 + x div 16), char_of (x mod 16 * 16 + y div 4)]"
| "b64_bytes (w # x # y # z # r) =
     map_option (\<lambda>s. char_of (w * 4 + x div 16) # char_of (x mod 16 * 16 + y div 4) # char_of (y mod 4 * 64 + z) # s)
       (b64_bytes r)"

definition b64u_decode :: "string \<Rightarrow> string option" where
  "b64u_decode s =
     Option.bind (those (map b64_value (filter (\<lambda>c. c \<noteq> CHR 0x0A \<and> c \<noteq> CHR 0x0D) s))) b64_bytes"

lemma byte_less [simp]: "byte c < 256"
  using of_char_mod_256 [of c] by (metis mod_less_divisor zero_less_numeral)

lemma byte_char_of [simp]: "n < 256 \<Longrightarrow> byte (char_of n) = n"
  by simp

lemma b64_value_digit: "n < 64 \<Longrightarrow> b64_value (b64_digit n) = Some n"
  unfolding b64_value_def b64_digit_def Let_def by (auto simp: char_of_eq_iff)

lemma b64_digit_plain:
  assumes "n < 64"
  shows "b64_digit n \<noteq> CHR 0x0A" "b64_digit n \<noteq> CHR 0x0D" "b64_digit n \<noteq> CHR ''.''"
  using b64_value_digit [OF assms] by (auto simp: b64_value_def)

lemma b64_values:
  "ns = filter (\<lambda>c. c \<noteq> CHR 0x0A \<and> c \<noteq> CHR 0x0D) (map b64_digit ns') \<Longrightarrow> list_all (\<lambda>n. n < 64) ns' \<Longrightarrow>
    those (map b64_value ns) = Some ns'"
  by (induction ns' arbitrary: ns) (auto simp: b64_value_digit b64_digit_plain)

fun b64_sextets :: "string \<Rightarrow> nat list" where
  "b64_sextets [] = []"
| "b64_sextets [a] = [byte a div 4, byte a mod 4 * 16]"
| "b64_sextets [a, b] = [byte a div 4, byte a mod 4 * 16 + byte b div 16, byte b mod 16 * 4]"
| "b64_sextets (a # b # c # r) =
     byte a div 4 # (byte a mod 4 * 16 + byte b div 16) # (byte b mod 16 * 4 + byte c div 64) # (byte c mod 64) # b64_sextets r"

lemma b64u_sextets: "b64u s = map b64_digit (b64_sextets s)"
  by (induction s rule: b64u.induct) auto

lemma byte_div: "byte c div 4 < 64" "byte c div 16 < 16" "byte c div 64 < 4"
  using byte_less [of c] by linarith+

lemma pack_less: "x < (m::nat) \<Longrightarrow> y < k \<Longrightarrow> x * k + y < m * k"
  using mult_le_mono1 [of "Suc x" m k] by simp

lemma pack_div: "y < m \<Longrightarrow> (x * m + y) div m = (x::nat)"
  by simp

lemma pack_mod: "y < m \<Longrightarrow> (x * m + y) mod m = (y::nat)"
  by simp

lemma sextet_bounds:
  "byte a mod 4 * 16 < 64" "byte a mod 4 * 16 + byte b div 16 < 64" "byte b mod 16 * 4 < 64" "byte b mod 16 * 4 + byte c div 64 < 64"
  using pack_less [of "byte a mod 4" 4 "byte b div 16" 16] pack_less [of "byte b mod 16" 16 "byte c div 64" 4]
    pack_less [of "byte a mod 4" 4 0 16] pack_less [of "byte b mod 16" 16 0 4] byte_div
  by simp_all

lemma b64_sextets_less: "list_all (\<lambda>n. n < 64) (b64_sextets s)"
  by (induction s rule: b64_sextets.induct) (simp_all add: sextet_bounds byte_div)

lemma sextets_back:
  "byte a div 4 * 4 + byte a mod 4 * 16 div 16 = byte a"
  "byte a div 4 * 4 + (byte a mod 4 * 16 + byte b div 16) div 16 = byte a"
  "(byte a mod 4 * 16 + byte b div 16) mod 16 * 16 + byte b mod 16 * 4 div 4 = byte b"
  "(byte a mod 4 * 16 + byte b div 16) mod 16 * 16 + (byte b mod 16 * 4 + byte c div 64) div 4 = byte b"
  "(byte b mod 16 * 4 + byte c div 64) mod 4 * 64 + byte c mod 64 = byte c"
  by (simp_all only: pack_div pack_mod byte_div nonzero_mult_div_cancel_right zero_neq_numeral [symmetric] not_False_eq_True div_mult_mod_eq)

lemma b64_bytes_sextets: "b64_bytes (b64_sextets s) = Some s"
  by (induction s rule: b64_sextets.induct) (simp_all only: b64_sextets.simps b64_bytes.simps sextets_back char_of_char option.map)

lemma b64u_decode_b64u: "b64u_decode (b64u s) = Some s"
  unfolding b64u_decode_def b64u_sextets by (simp add: b64_values [OF refl b64_sextets_less] b64_bytes_sextets)

lemma b64u_no_dot: "CHR ''.'' \<notin> set (b64u s)"
  using b64_sextets_less [of s] by (auto simp: b64u_sextets list_all_iff dest!: b64_digit_plain(3))

lemma b64u_inj: "b64u s = b64u t \<longleftrightarrow> s = t"
  by (metis b64u_decode_b64u option.inject)

end
