(* ===== verification/Jwt.thy ===== *)
theory Jwt
  imports Http Interfaces Base64
begin

text \<open>
  The tokens of \<^verbatim>\<open>internal/idp/jwt.go\<close>: claim sets, signing and verification, and the
  JWK of the signing key. ECDSA, SHA-256, HMAC and the text form of JSON are outside
  (\<open>jwt_env\<close>); the structure of a token, the base64 layer, the header checks, the claim
  accessors and the time checks are here. Signing is randomised, so the signature is
  an argument of each call: \<open>sg\<close> maps a digest to its 64 bytes, or fails.
\<close>

section \<open>Outside\<close>

record pub_key =
  pk_x :: nat
  pk_y :: nat

record jwt_env =
  je_encode :: "json \<Rightarrow> string option"
  je_decode :: "string \<Rightarrow> json option"
  je_real :: "string \<Rightarrow> int"
  je_sha256 :: "string \<Rightarrow> string"
  je_hmac :: "string \<Rightarrow> string \<Rightarrow> string"
  je_verify :: "pub_key \<Rightarrow> string \<Rightarrow> string \<Rightarrow> bool"

definition clock_skew :: duration where "clock_skew = 60 * second"

section \<open>Claims\<close>

text \<open>A claim set as the members of a JSON object; the last of equal keys counts.\<close>

type_synonym claims = members

definition claim :: "claims \<Rightarrow> string \<Rightarrow> json option" where
  "claim c k = map_of (rev c) k"

definition claim_str :: "claims \<Rightarrow> string \<Rightarrow> string" where
  "claim_str c k = (case claim c k of Some (JStr s) \<Rightarrow> s | _ \<Rightarrow> [])"

text \<open>
  A JSON number becomes a \<^verbatim>\<open>float64\<close> (53 bits, ties to even) and is then converted to
  \<^verbatim>\<open>int64\<close>, which on amd64 gives the smallest integer when it does not fit.
\<close>

fun bit_len :: "nat \<Rightarrow> nat" where
  "bit_len n = (if n = 0 then 0 else Suc (bit_len (n div 2)))"

declare bit_len.simps [simp del]

definition round53 :: "nat \<Rightarrow> nat" where
  "round53 n =
     (let e = bit_len n - 53; q = n div 2 ^ e; r = n mod 2 ^ e; half = 2 ^ e div 2
      in if e = 0 then n else if r > half \<or> (r = half \<and> odd q) then (q + 1) * 2 ^ e else q * 2 ^ e)"

definition float64_int :: "int \<Rightarrow> int" where
  "float64_int i =
     (let v = sgn i * int (round53 (nat \<bar>i\<bar>)) in if int64_range v then v else - (2 ^ 63))"

definition claim_num :: "jwt_env \<Rightarrow> claims \<Rightarrow> string \<Rightarrow> int" where
  "claim_num je c k = (case claim c k of Some (JInt i) \<Rightarrow> float64_int i | Some (JReal s) \<Rightarrow> je_real je s | _ \<Rightarrow> 0)"

definition claim_aud :: "claims \<Rightarrow> string list" where
  "claim_aud c =
     (case claim c ''aud'' of
        Some (JStr s) \<Rightarrow> [s]
      | Some (JArr vs) \<Rightarrow> concat (map (\<lambda>v. case v of JStr s \<Rightarrow> [s] | _ \<Rightarrow> []) vs)
      | _ \<Rightarrow> [])"

section \<open>Keys\<close>

text \<open>\<^verbatim>\<open>FillBytes\<close> of 32 bytes, big endian; coordinates of P-256 points fit.\<close>

fun fill_bytes :: "nat \<Rightarrow> nat \<Rightarrow> string" where
  "fill_bytes 0 n = []"
| "fill_bytes (Suc k) n = fill_bytes k (n div 256) @ [char_of (n mod 256)]"

definition ec_jwk :: "pub_key \<Rightarrow> string \<Rightarrow> json" where
  "ec_jwk pub kid = JObj
     [(''kty'', JStr ''EC''), (''crv'', JStr ''P-256''), (''x'', JStr (b64u (fill_bytes 32 (pk_x pub)))),
      (''y'', JStr (b64u (fill_bytes 32 (pk_y pub)))), (''kid'', JStr kid), (''alg'', JStr ''ES256''), (''use'', JStr ''sig'')]"

definition key_id :: "jwt_env \<Rightarrow> pub_key \<Rightarrow> string" where
  "key_id je pub = b64u (take 8 (je_sha256 je (fill_bytes 32 (pk_x pub) @ fill_bytes 32 (pk_y pub))))"

section \<open>Signing\<close>

text \<open>\<^verbatim>\<open>json.Marshal\<close> of a map writes the members in the order of their keys.\<close>

definition marshal_claims :: "jwt_env \<Rightarrow> claims \<Rightarrow> string option" where
  "marshal_claims je c = je_encode je (JObj (sort_key fst c))"

definition jwt_header :: "string \<Rightarrow> json" where
  "jwt_header kid = JObj [(''alg'', JStr ''ES256''), (''kid'', JStr kid), (''typ'', JStr ''JWT'')]"

definition signing_input :: "jwt_env \<Rightarrow> string \<Rightarrow> claims \<Rightarrow> string option" where
  "signing_input je kid c =
     Option.bind (je_encode je (jwt_header kid)) (\<lambda>h.
       map_option (\<lambda>p. b64u h @ ''.'' @ b64u p) (marshal_claims je c))"

definition sign_jwt :: "jwt_env \<Rightarrow> string \<Rightarrow> (string \<Rightarrow> string option) \<Rightarrow> claims \<Rightarrow> string option" where
  "sign_jwt je kid sg c =
     Option.bind (signing_input je kid c) (\<lambda>input.
       map_option (\<lambda>s. input @ ''.'' @ b64u s) (sg (je_sha256 je input)))"

section \<open>Verification\<close>

datatype token_error =
    Malformed | BadHeader | UnsupportedAlg string | UnknownKey string | MalformedSignature
  | InvalidSignature | BadPayload | MissingExp | Expired | NotYetValid
  | WrongIssuerOrType | NoBearer | WrongIssuer string | NotAccess | NoSubject | WrongAudience "string list"

text \<open>Decoding into \<^verbatim>\<open>claims\<close>, a map: \<^verbatim>\<open>null\<close> leaves it empty.\<close>

definition unmarshal_claims :: "jwt_env \<Rightarrow> string \<Rightarrow> claims option" where
  "unmarshal_claims je b =
     (case je_decode je b of Some (JObj ms) \<Rightarrow> Some ms | Some JNull \<Rightarrow> Some [] | _ \<Rightarrow> None)"

definition header_field :: "jwt_env \<Rightarrow> string \<Rightarrow> (string \<times> string) option" where
  "header_field je b =
     (case je_decode je b of None \<Rightarrow> None
      | Some j \<Rightarrow>
          (case raw_members (Some j) of Inl e \<Rightarrow> None
           | Inr ms \<Rightarrow>
               (case (dec_string ''alg'' ms, dec_string ''kid'' ms) of
                  (Inr alg, Inr kid) \<Rightarrow> Some (alg, kid) | _ \<Rightarrow> None)))"

text \<open>The time checks on a decoded claim set.\<close>

definition check_times :: "jwt_env \<Rightarrow> time \<Rightarrow> claims \<Rightarrow> token_error + claims" where
  "check_times je now c =
     (let expiry = claim_num je c ''exp''; nbf = claim_num je c ''nbf''
      in if expiry = 0 then Inl MissingExp
         else if expiry * second + clock_skew < now then Inl Expired
         else if nbf \<noteq> 0 \<and> now + clock_skew < nbf * second then Inl NotYetValid
         else Inr c)"

definition verify_jwt :: "jwt_env \<Rightarrow> time \<Rightarrow> (string \<Rightarrow> token_error + pub_key) \<Rightarrow> string \<Rightarrow> token_error + claims" where
  "verify_jwt je now key_for token =
     (case split_char CHR ''.'' token of
        [h, p, s] \<Rightarrow>
          (case b64u_decode h of None \<Rightarrow> Inl BadHeader
           | Some hb \<Rightarrow>
          (case header_field je hb of None \<Rightarrow> Inl BadHeader
           | Some (alg, kid) \<Rightarrow>
               if alg \<noteq> ''ES256'' then Inl (UnsupportedAlg alg)
               else
          (case key_for kid of Inl e \<Rightarrow> Inl e
           | Inr pub \<Rightarrow>
          (case b64u_decode s of None \<Rightarrow> Inl MalformedSignature
           | Some sig \<Rightarrow>
               if length sig \<noteq> 64 then Inl MalformedSignature
               else if \<not> je_verify je pub (je_sha256 je (h @ ''.'' @ p)) sig then Inl InvalidSignature
               else
          (case b64u_decode p of None \<Rightarrow> Inl BadPayload
           | Some pb \<Rightarrow>
          (case unmarshal_claims je pb of None \<Rightarrow> Inl BadPayload
           | Some c \<Rightarrow> check_times je now c))))))
      | _ \<Rightarrow> Inl Malformed)"

section \<open>Accepted tokens\<close>

text \<open>The part of a token that is signed, and when nobody but the holder of the key signs.\<close>

definition token_input :: "string \<Rightarrow> string" where
  "token_input t = (case split_char CHR ''.'' t of [h, p, s] \<Rightarrow> h @ ''.'' @ p | _ \<Rightarrow> [])"

lemma check_times_ok: "check_times je now c = Inr d \<longleftrightarrow>
    d = c \<and> claim_num je c ''exp'' \<noteq> 0 \<and> now \<le> claim_num je c ''exp'' * second + clock_skew
    \<and> (claim_num je c ''nbf'' \<noteq> 0 \<longrightarrow> claim_num je c ''nbf'' * second \<le> now + clock_skew)"
  by (auto simp: check_times_def Let_def)

lemma three_parts: "(\<exists>h p s. split_char CHR ''.'' t = [h, p, s]) \<or> verify_jwt je now kf t = Inl Malformed"
  by (auto simp: verify_jwt_def split: list.split)

lemma verify_jwt_ok:
  assumes "verify_jwt je now kf t = Inr c"
  obtains h p s hb kid pub sig pb where "split_char CHR ''.'' t = [h, p, s]" "b64u_decode h = Some hb"
    "header_field je hb = Some (''ES256'', kid)" "kf kid = Inr pub" "b64u_decode s = Some sig" "length sig = 64"
    "je_verify je pub (je_sha256 je (token_input t)) sig" "b64u_decode p = Some pb" "unmarshal_claims je pb = Some c"
    "check_times je now c = Inr c"
proof -
  obtain h p s where t: "split_char CHR ''.'' t = [h, p, s]"
    using three_parts [of t je now kf] assms by auto
  note v = assms [unfolded verify_jwt_def t, simplified]
  obtain hb where hb: "b64u_decode h = Some hb" using v by (cases "b64u_decode h") auto
  obtain kid where kid: "header_field je hb = Some (''ES256'', kid)"
    using v hb by (cases "header_field je hb") (auto split: if_splits)
  obtain pub where pub: "kf kid = Inr pub" using v hb kid by (cases "kf kid") auto
  obtain sig where sig: "b64u_decode s = Some sig" using v hb kid pub by (cases "b64u_decode s") auto
  have len: "length sig = 64" and ok: "je_verify je pub (je_sha256 je (h @ ''.'' @ p)) sig"
    using v hb kid pub sig by (auto split: if_splits)
  obtain pb where pb: "b64u_decode p = Some pb" using v hb kid pub sig len ok by (cases "b64u_decode p") auto
  obtain d where d: "unmarshal_claims je pb = Some d" "check_times je now d = Inr c"
    using v hb kid pub sig len ok pb by (cases "unmarshal_claims je pb") auto
  moreover have "d = c" using d(2) by (simp add: check_times_ok)
  ultimately show thesis
    using that t hb kid pub sig len ok pb by (simp add: token_input_def)
qed

lemma signing_input_parts:
  assumes "signing_input je kid c = Some i"
  obtains h p where "je_encode je (jwt_header kid) = Some h" "marshal_claims je c = Some p" "i = b64u h @ ''.'' @ b64u p"
  using assms by (auto simp: signing_input_def bind_eq_Some_conv)

lemma split_token: "split_char CHR ''.'' (b64u h @ CHR ''.'' # b64u p @ CHR ''.'' # b64u s) = [b64u h, b64u p, b64u s]"
  by (simp add: split_char_append split_char_no_sep b64u_no_dot)

section \<open>The JSON layer\<close>

text \<open>
  \<^verbatim>\<open>json.Marshal\<close> replaces what is not valid UTF-8 in a string by U+FFFD, byte by byte;
  reading the text back gives the coerced value. (Keys are ASCII constants here.)
\<close>

definition to_valid :: "string \<Rightarrow> string" where
  "to_valid s = string_of_runes (runes s)"

lemma runes_all_ascii: "ascii s \<Longrightarrow> runes s = map byte s"
proof (induction s)
  case (Cons c s)
  then show ?case by (subst runes.simps) (auto simp: ascii_def decode_rune_def)
qed simp

lemma encode_rune_ascii: "byte c < 128 \<Longrightarrow> encode_rune (byte c) = [c]"
  by (simp add: encode_rune_def encode_bytes_def valid_rune_def)

lemma to_valid_ascii: "ascii s \<Longrightarrow> to_valid s = s"
  unfolding to_valid_def by (induction s) (simp_all add: runes_all_ascii string_of_runes_def ascii_def encode_rune_ascii)

lemma to_valid_idem [simp]: "to_valid (to_valid s) = to_valid s"
  unfolding to_valid_def by (subst runes_string_of_runes) (auto dest: runes_valid)

fun coerce_json :: "json \<Rightarrow> json" where
  "coerce_json (JStr s) = JStr (to_valid s)"
| "coerce_json (JArr vs) = JArr (map coerce_json vs)"
| "coerce_json (JObj ms) = JObj (map (\<lambda>m. (fst m, coerce_json (snd m))) ms)"
| "coerce_json JNull = JNull"
| "coerce_json (JBool b) = JBool b"
| "coerce_json (JInt i) = JInt i"
| "coerce_json (JReal s) = JReal s"

definition codec_at :: "jwt_env \<Rightarrow> json \<Rightarrow> bool" where
  "codec_at je j = (case je_encode je j of None \<Rightarrow> True | Some b \<Rightarrow> je_decode je b = Some (coerce_json j))"

definition read_back :: "claims \<Rightarrow> claims" where
  "read_back c = map (\<lambda>m. (fst m, coerce_json (snd m))) (sort_key fst c)"

lemma map_of_same_set:
  assumes "distinct (map fst xs)" and "distinct (map fst ys)" and "set xs = set ys"
  shows "map_of xs k = map_of ys k"
  using assms by (metis map_of_eq_Some_iff not_Some_eq option.exhaust)

lemma distinct_sort_key: "distinct (map fst c) \<Longrightarrow> distinct (map fst (sort_key f c))"
  by (metis distinct_map distinct_sort set_sort)

lemma claim_sorted: "distinct (map fst c) \<Longrightarrow> claim (sort_key fst c) k = claim c k"
  unfolding claim_def
  by (rule map_of_same_set) (simp_all add: rev_map [symmetric] distinct_sort_key)

lemma map_of_values: "map_of (map (\<lambda>m. (fst m, f (snd m))) xs) k = map_option f (map_of xs k)"
  by (induction xs) auto

lemma claim_read_back: "distinct (map fst c) \<Longrightarrow> claim (read_back c) k = map_option coerce_json (claim c k)"
proof -
  assume d: "distinct (map fst c)"
  have "claim (map (\<lambda>m. (fst m, coerce_json (snd m))) c') k = map_option coerce_json (claim c' k)" for c'
    unfolding claim_def rev_map map_of_values ..
  then show ?thesis by (simp add: read_back_def claim_sorted [OF d])
qed

lemma to_valid_Nil [simp]: "to_valid [] = []"
  by (simp add: to_valid_def string_of_runes_def)

lemma claim_str_read_back: "distinct (map fst c) \<Longrightarrow> claim_str (read_back c) k = to_valid (claim_str c k)"
  by (simp add: claim_str_def claim_read_back split: option.split json.split)

lemma claim_num_read_back: "distinct (map fst c) \<Longrightarrow> claim_num je (read_back c) k = claim_num je c k"
  by (simp add: claim_num_def claim_read_back split: option.split json.split)

lemma marshal_read_back:
  assumes "codec_at je (JObj (sort_key fst c))" and "marshal_claims je c = Some b"
  shows "unmarshal_claims je b = Some (read_back c)"
  using assms by (simp add: codec_at_def marshal_claims_def unmarshal_claims_def read_back_def)

text \<open>What a signing input says, it says of one claim set only.\<close>

lemma input_parts:
  assumes "split_char CHR ''.'' t = [h, p, s]" and "signing_input je kid c = Some (token_input t)"
  obtains pb where "p = b64u pb" "marshal_claims je c = Some pb"
proof -
  obtain hh pp where i: "marshal_claims je c = Some pp" "token_input t = b64u hh @ ''.'' @ b64u pp"
    using assms(2) by (rule signing_input_parts) blast
  have "CHR ''.'' \<notin> set h" "CHR ''.'' \<notin> set p" using split_char_parts [of _ "CHR ''.''" t] assms(1) by simp_all
  then have "split_char CHR ''.'' (token_input t) = [h, p]"
    using assms(1) by (simp add: token_input_def split_char_append split_char_no_sep)
  moreover have "split_char CHR ''.'' (token_input t) = [b64u hh, b64u pp]"
    by (simp add: i(2) split_char_append split_char_no_sep b64u_no_dot)
  ultimately show thesis using that [of pp] i(1) by simp
qed

lemma header_names:
  "name_matches ''alg'' ''alg''" "\<not> name_matches ''alg'' ''kid''" "\<not> name_matches ''alg'' ''typ''"
  "\<not> name_matches ''kid'' ''alg''" "name_matches ''kid'' ''kid''" "\<not> name_matches ''kid'' ''typ''"
  unfolding name_matches_def by (simp_all add: runes_all_ascii ascii_def fold_rune_def)

text \<open>
  C17. A token signed with the server's key is accepted under the same key ID exactly within
  its time window, and gives back the claims it was signed for.
\<close>

theorem token_roundtrip:
  assumes "codec_at je (jwt_header kid)" and "codec_at je (JObj (sort_key fst c))" and "distinct (map fst c)"
    and "sign_jwt je kid sg c = Some t" and "to_valid kid = kid"
    and "\<And>d s. sg d = Some s \<Longrightarrow> length s = 64 \<and> je_verify je pub d s"
  shows "verify_jwt je now (\<lambda>k. if k \<noteq> kid then Inl (UnknownKey k) else Inr pub) t = check_times je now (read_back c)"
proof -
  obtain i s where i: "signing_input je kid c = Some i" "sg (je_sha256 je i) = Some s" "t = i @ ''.'' @ b64u s"
    using assms(4) by (auto simp: sign_jwt_def bind_eq_Some_conv)
  obtain h p where hp: "je_encode je (jwt_header kid) = Some h" "marshal_claims je c = Some p" "i = b64u h @ ''.'' @ b64u p"
    using i(1) by (rule signing_input_parts)
  have split: "split_char CHR ''.'' t = [b64u h, b64u p, b64u s]"
    using i(3) hp(3) split_token by simp
  have "je_decode je h = Some (coerce_json (jwt_header kid))" using assms(1) hp(1) by (simp add: codec_at_def)
  then have "header_field je h = Some (''ES256'', kid)"
    using assms(5) by (simp add: header_field_def jwt_header_def raw_members_def dec_field_def dec_values_def field_values_def
        header_names to_valid_ascii ascii_def)
  with split i hp assms(6) [OF i(2)] marshal_read_back [OF assms(2) hp(2)] show ?thesis
    by (simp add: verify_jwt_def b64u_decode_b64u)
qed

end
