(* ===== verification/Idp.thy ===== *)
theory Idp
  imports Jwt
begin

text \<open>
  The identity provider, \<^verbatim>\<open>internal/idp\<close>: client registration (\<^verbatim>\<open>clients.go\<close>), the
  authorization code flow and the token endpoint (\<^verbatim>\<open>idp.go\<close>) and the resource side
  (\<^verbatim>\<open>verifier.go\<close>). The only state is the table of redeemed codes. A handler that signs
  returns, beside its response, the claim sets it has signed.
\<close>

section \<open>Outside and state\<close>

text \<open>\<open>ie_set_query u kvs\<close>: the text of \<open>u\<close> after \<^verbatim>\<open>Set\<close> of each pair in its query.\<close>

record idp_env =
  ie_jwt :: jwt_env
  ie_lower :: "string \<Rightarrow> string"
  ie_quote :: "string \<Rightarrow> string"
  ie_parse :: "string \<Rightarrow> url option"
  ie_set_query :: "url \<Rightarrow> (string \<times> string) list \<Rightarrow> string"
  ie_query_escape :: "string \<Rightarrow> string"
  ie_request_uri :: "request \<Rightarrow> string"

record signing_key =
  sk_pub :: pub_key
  sk_secret :: string

record idp_config =
  ic_issuer :: string
  ic_users :: "string list"
  ic_key :: "signing_key option"
  ic_access_ttl :: duration
  ic_refresh_ttl :: duration
  ic_code_ttl :: duration

record idp_server =
  ip_cfg :: idp_config
  ip_pub :: pub_key
  ip_kid :: string
  ip_hmac_key :: string
  ip_used :: "(string, time) fmap"

text \<open>
  What one request sees of the outside: the clock at the check of its token, at the mark of
  its code and when it issues (\<open>iw_later\<close>: a second reading), the random bytes of its
  identifiers and the signatures it obtains.
\<close>

record idp_world =
  iw_verify :: time
  iw_mark :: time
  iw_now :: time
  iw_later :: time
  iw_random :: "nat \<Rightarrow> string"
  iw_sign :: "nat \<Rightarrow> string \<Rightarrow> string option"

definition rand_id :: "idp_world \<Rightarrow> nat \<Rightarrow> string" where
  "rand_id w i = b64u (iw_random w i)"

definition unix_time :: "time \<Rightarrow> int" where "unix_time t = t div second"

definition authorize_path :: string where "authorize_path = ''/idp/authorize''"
definition token_path :: string where "token_path = ''/idp/token''"
definition register_path :: string where "register_path = ''/idp/register''"
definition jwks_path :: string where "jwks_path = ''/idp/jwks''"
definition userinfo_path :: string where "userinfo_path = ''/idp/userinfo''"
definition idp_header_exe_email :: string where "idp_header_exe_email = ''X-ExeDev-Email''"
definition idp_login_path :: string where "idp_login_path = ''/__exe.dev/login''"

definition new_idp :: "idp_env \<Rightarrow> idp_config \<Rightarrow> string + idp_server" where
  "new_idp env cfg =
     (if ic_issuer cfg = [] then Inl ''idp: issuer is required''
      else if (case ie_parse env (ic_issuer cfg) of None \<Rightarrow> True
               | Some u \<Rightarrow> url_scheme u = [] \<or> url_host u = [] \<or> (url_path u \<noteq> [] \<and> url_path u \<noteq> ''/''))
      then Inl (''idp: issuer must be an absolute URL with no path, got '' @ ie_quote env (ic_issuer cfg))
      else if ic_users cfg = [] then Inl ''idp: at least one allowed user is required''
      else case ic_key cfg of
        None \<Rightarrow> Inl ''idp: signing key is required''
      | Some key \<Rightarrow>
          Inr \<lparr>ip_cfg = cfg
                 \<lparr>ic_issuer := trim_suffix (ic_issuer cfg) ''/'',
                  ic_users := map (\<lambda>e. to_lower (ie_lower env) (trim_space e)) (ic_users cfg),
                  ic_access_ttl := (if ic_access_ttl cfg \<le> 0 then 3600 * second else ic_access_ttl cfg),
                  ic_refresh_ttl := (if ic_refresh_ttl cfg \<le> 0 then 30 * 24 * 3600 * second else ic_refresh_ttl cfg),
                  ic_code_ttl := (if ic_code_ttl cfg \<le> 0 then 5 * 60 * second else ic_code_ttl cfg)\<rparr>,
               ip_pub = sk_pub key, ip_kid = key_id (ie_jwt env) (sk_pub key),
               ip_hmac_key = je_sha256 (ie_jwt env) (''boxel-idp-client-registry/'' @ sk_secret key),
               ip_used = fmempty\<rparr>)"

abbreviation ip_issuer :: "idp_server \<Rightarrow> string" where
  "ip_issuer srv \<equiv> ic_issuer (ip_cfg srv)"

section \<open>Common parts\<close>

definition cors :: "string \<Rightarrow> (request \<Rightarrow> 's \<Rightarrow> response \<times> 's) \<Rightarrow> request \<Rightarrow> 's \<Rightarrow> response \<times> 's" where
  "cors verb handler r s =
     (let hs = [(''Access-Control-Allow-Origin'', ''*''), (''Access-Control-Allow-Methods'', verb @ '', OPTIONS''),
                (''Access-Control-Allow-Headers'', ''Authorization, Content-Type, MCP-Protocol-Version'')]
      in if rq_method r = ''OPTIONS'' then (respond 204 hs NoBody, s)
         else if rq_method r \<noteq> verb \<and> \<not> (verb = ''GET'' \<and> rq_method r = ''HEAD'')
         then (http_error (hs @ [(''Allow'', verb @ '', OPTIONS'')]) ''method not allowed'' 405, s)
         else case handler r s of (res, s') \<Rightarrow> (res\<lparr>rs_header := hs @ rs_header res\<rparr>, s'))"

definition allowed :: "idp_env \<Rightarrow> idp_server \<Rightarrow> string \<Rightarrow> bool" where
  "allowed env srv email =
     (let e = to_lower (ie_lower env) (trim_space email) in e \<noteq> [] \<and> list_ex (\<lambda>u. u = e) (ic_users (ip_cfg srv)))"

definition oauth_error_with :: "(string \<times> string) list \<Rightarrow> nat \<Rightarrow> string \<Rightarrow> string \<Rightarrow> response" where
  "oauth_error_with hs code err desc =
     respond code (hs @ [(''Content-Type'', ''application/json'')])
       (JsonBody (JObj [(''error'', JStr err), (''error_description'', JStr desc)]))"

abbreviation "oauth_error \<equiv> oauth_error_with []"

definition redirect_error :: "idp_env \<Rightarrow> string \<Rightarrow> string \<Rightarrow> string \<Rightarrow> string \<Rightarrow> response" where
  "redirect_error env uri state err desc =
     (case ie_parse env uri of
        None \<Rightarrow> http_error [] desc 400
      | Some u \<Rightarrow> redirect_to (ie_set_query env u
          ([(''error'', err), (''error_description'', desc)] @ (if state \<noteq> [] then [(''state'', state)] else []))) 302)"

definition verify_own :: "idp_env \<Rightarrow> time \<Rightarrow> idp_server \<Rightarrow> string \<Rightarrow> string \<Rightarrow> token_error + claims" where
  "verify_own env now srv token typ =
     (case verify_jwt (ie_jwt env) now (\<lambda>kid. if kid \<noteq> ip_kid srv then Inl (UnknownKey kid) else Inr (ip_pub srv)) token of
        Inl e \<Rightarrow> Inl e
      | Inr c \<Rightarrow> if claim_str c ''iss'' \<noteq> ip_issuer srv \<or> claim_str c ''typ'' \<noteq> typ then Inl WrongIssuerOrType else Inr c)"

text \<open>Signing with the server's key: the token and the record that it exists.\<close>

definition issue :: "idp_env \<Rightarrow> idp_world \<Rightarrow> nat \<Rightarrow> idp_server \<Rightarrow> claims \<Rightarrow> string option" where
  "issue env w i srv c = sign_jwt (ie_jwt env) (ip_kid srv) (iw_sign w i) c"

section \<open>Discovery\<close>

definition metadata_json :: "idp_server \<Rightarrow> json" where
  "metadata_json srv =
     (let iss = ip_issuer srv; strs = (\<lambda>xs. JArr (map JStr xs))
      in JObj
        [(''issuer'', JStr iss), (''authorization_endpoint'', JStr (iss @ authorize_path)),
         (''token_endpoint'', JStr (iss @ token_path)), (''registration_endpoint'', JStr (iss @ register_path)),
         (''jwks_uri'', JStr (iss @ jwks_path)), (''userinfo_endpoint'', JStr (iss @ userinfo_path)),
         (''response_types_supported'', strs [''code'']),
         (''grant_types_supported'', strs [''authorization_code'', ''refresh_token'']),
         (''code_challenge_methods_supported'', strs [''S256'']),
         (''token_endpoint_auth_methods_supported'', strs [''none'']),
         (''scopes_supported'', strs [''openid'', ''email'']),
         (''subject_types_supported'', strs [''public'']),
         (''id_token_signing_alg_values_supported'', strs [''ES256''])])"

definition handle_metadata :: "idp_server \<Rightarrow> response" where
  "handle_metadata srv = respond 200 [(''Content-Type'', ''application/json'')] (JsonBody (metadata_json srv))"

definition handle_jwks :: "idp_server \<Rightarrow> response" where
  "handle_jwks srv = respond 200 [(''Content-Type'', ''application/json'')]
     (JsonBody (JObj [(''keys'', JArr [ec_jwk (ip_pub srv) (ip_kid srv)])]))"

section \<open>Clients\<close>

record client_reg =
  rg_uris :: "string list"
  rg_name :: string
  rg_issued_at :: int

definition reg_json :: "client_reg \<Rightarrow> json" where
  "reg_json c = JObj ([(''r'', JArr (map JStr (rg_uris c)))] @ (if rg_name c \<noteq> [] then [(''n'', JStr (rg_name c))] else [])
     @ [(''t'', JInt (rg_issued_at c))])"

fun as_strings :: "json \<Rightarrow> string list option" where
  "as_strings (JArr vs) = those (map (\<lambda>v. case v of JStr s \<Rightarrow> Some s | JNull \<Rightarrow> Some [] | _ \<Rightarrow> None) vs)"
| "as_strings _ = None"

definition mac_of :: "idp_env \<Rightarrow> idp_server \<Rightarrow> string \<Rightarrow> string" where
  "mac_of env srv payload = take 16 (je_hmac (ie_jwt env) (ip_hmac_key srv) payload)"

definition encode_client_id :: "idp_env \<Rightarrow> idp_server \<Rightarrow> client_reg \<Rightarrow> string option" where
  "encode_client_id env srv c =
     map_option (\<lambda>payload. b64u payload @ ''.'' @ b64u (mac_of env srv payload)) (je_encode (ie_jwt env) (reg_json c))"

definition reg_of_json :: "json \<Rightarrow> client_reg option" where
  "reg_of_json j =
     (case raw_members (Some j) of Inl e \<Rightarrow> None
      | Inr ms \<Rightarrow>
          (case (dec_field as_strings [] ''r'' ms, dec_string ''n'' ms, dec_int ''t'' ms) of
             (Inr uris, Inr name, Inr t) \<Rightarrow> Some \<lparr>rg_uris = uris, rg_name = name, rg_issued_at = t\<rparr>
           | _ \<Rightarrow> None))"

definition decode_client_id :: "idp_env \<Rightarrow> idp_server \<Rightarrow> string \<Rightarrow> client_reg option" where
  "decode_client_id env srv cid =
     (case cut_char CHR ''.'' cid of (p, sig, ok) \<Rightarrow>
        if \<not> ok then None
        else case (b64u_decode p, b64u_decode sig) of
          (Some payload, Some got) \<Rightarrow>
            if got \<noteq> mac_of env srv payload then None
            else Option.bind (je_decode (ie_jwt env) payload) reg_of_json
        | _ \<Rightarrow> None)"

definition valid_redirect_uri :: "idp_env \<Rightarrow> string \<Rightarrow> bool" where
  "valid_redirect_uri env raw =
     (case ie_parse env raw of None \<Rightarrow> False
      | Some u \<Rightarrow>
          if url_fragment u \<noteq> [] \<or> url_host u = [] then False
          else if url_scheme u = ''https'' then True
          else if url_scheme u = ''http''
          then url_hostname u = ''localhost'' \<or> url_hostname u = ''127.0.0.1'' \<or> url_hostname u = ''::1''
          else False)"

text \<open>\<open>body\<close>: the JSON value at the start of the first 64 KiB of the request body.\<close>

definition handle_register :: "idp_env \<Rightarrow> idp_world \<Rightarrow> idp_server \<Rightarrow> json option \<Rightarrow> response \<times> client_reg list" where
  "handle_register env w srv body =
     (case (case body of None \<Rightarrow> None
            | Some j \<Rightarrow>
                (case raw_members (Some j) of Inl e \<Rightarrow> None
                 | Inr ms \<Rightarrow>
                     (case (dec_field as_strings [] ''redirect_uris'' ms, dec_string ''client_name'' ms) of
                        (Inr uris, Inr name) \<Rightarrow> Some (uris, name) | _ \<Rightarrow> None))) of
        None \<Rightarrow> (oauth_error 400 ''invalid_client_metadata'' ''malformed registration request'', [])
      | Some (uris, client_name) \<Rightarrow>
          if uris = [] \<or> 8 < length uris
          then (oauth_error 400 ''invalid_redirect_uri'' ''between 1 and 8 redirect_uris required'', [])
          else case find (\<lambda>u. \<not> valid_redirect_uri env u) uris of
            Some u \<Rightarrow> (oauth_error 400 ''invalid_redirect_uri''
              (''invalid redirect_uri '' @ ie_quote env u @ '' (https required, http only on loopback)''), [])
          | None \<Rightarrow>
              let name = take 128 client_name;
                  reg = \<lparr>rg_uris = uris, rg_name = name, rg_issued_at = unix_time (iw_now w)\<rparr>
              in (case encode_client_id env srv reg of
                    None \<Rightarrow> (oauth_error 500 ''server_error'' ''registration failed'', [])
                  | Some cid \<Rightarrow>
                      (respond 201 [(''Content-Type'', ''application/json'')]
                         (JsonBody (JObj
                           [(''client_id'', JStr cid), (''client_id_issued_at'', JInt (unix_time (iw_now w))),
                            (''client_name'', JStr name), (''redirect_uris'', JArr (map JStr uris)),
                            (''token_endpoint_auth_method'', JStr ''none''),
                            (''grant_types'', JArr [JStr ''authorization_code'', JStr ''refresh_token'']),
                            (''response_types'', JArr [JStr ''code''])])),
                       [reg])))"

section \<open>Authorization\<close>

definition request_claims :: "idp_env \<Rightarrow> idp_world \<Rightarrow> idp_server \<Rightarrow> string \<Rightarrow> request \<Rightarrow> claims" where
  "request_claims env w srv email r =
     (let q = rq_query r
      in [(''iss'', JStr (ip_issuer srv)), (''typ'', JStr ''authzreq''), (''jti'', JStr (rand_id w 0)),
          (''email'', JStr (to_lower (ie_lower env) email)), (''cid'', JStr (q ''client_id'')),
          (''ruri'', JStr (q ''redirect_uri'')), (''cc'', JStr (q ''code_challenge'')),
          (''state'', JStr (q ''state'')), (''nonce'', JStr (q ''nonce'')),
          (''scope'', JStr (q ''scope'')), (''resource'', JStr (q ''resource'')),
          (''iat'', JInt (unix_time (iw_now w))), (''exp'', JInt (unix_time (iw_later w + 600 * second)))])"

definition authorize_get :: "idp_env \<Rightarrow> idp_world \<Rightarrow> idp_server \<Rightarrow> request \<Rightarrow> response \<times> claims list" where
  "authorize_get env w srv r =
     (let q = rq_query r
      in case decode_client_id env srv (q ''client_id'') of
        None \<Rightarrow> (http_error [] (''invalid client_id (register at '' @ register_path @ '')'') 400, [])
      | Some client \<Rightarrow>
          let uri = q ''redirect_uri''; fail = redirect_error env uri (q ''state'')
          in if uri \<notin> set (rg_uris client) then (http_error [] ''redirect_uri is not registered for this client'' 400, [])
             else if q ''response_type'' \<noteq> ''code'' then (fail ''unsupported_response_type'' ''only response_type=code is supported'', [])
             else if q ''code_challenge_method'' \<noteq> ''S256'' \<or> q ''code_challenge'' = []
             then (fail ''invalid_request'' ''PKCE with code_challenge_method=S256 is required'', [])
             else let email = trim_space (rq_header r idp_header_exe_email)
             in if email = []
                then (redirect_to (idp_login_path @ ''?redirect='' @ ie_query_escape env (ie_request_uri env r)) 302, [])
                else if \<not> allowed env srv email
                then (fail ''access_denied'' ''this exe.dev user is not authorized for this IDP'', [])
                else let c = request_claims env w srv email r
                in (case issue env w 0 srv c of
                      None \<Rightarrow> (http_error [] ''internal error'' 500, [])
                    | Some req \<Rightarrow>
                        (respond 200 [(''Content-Type'', ''text/html; charset=utf-8'')]
                           (Page ''consent''
                             [(''ClientName'', JStr (if rg_name client = [] then ''An OAuth client'' else rg_name client)),
                              (''Email'', JStr email), (''RedirectURI'', JStr uri), (''Action'', JStr authorize_path),
                              (''Req'', JStr req)]),
                         [c])))"

text \<open>
  \<open>form\<close> is \<^verbatim>\<open>r.PostFormValue\<close>, \<^const>\<open>None\<close> when the form does not parse. The response
  is \<^const>\<open>None\<close> when the handler panics: the parse error of the redirect URI is dropped.
\<close>

definition code_claims :: "idp_world \<Rightarrow> idp_server \<Rightarrow> string \<Rightarrow> claims \<Rightarrow> claims" where
  "code_claims w srv email c =
     [(''iss'', JStr (ip_issuer srv)), (''typ'', JStr ''code''), (''jti'', JStr (rand_id w 0)),
      (''sub'', JStr email), (''email'', JStr email), (''cid'', JStr (claim_str c ''cid'')),
      (''ruri'', JStr (claim_str c ''ruri'')), (''cc'', JStr (claim_str c ''cc'')), (''nonce'', JStr (claim_str c ''nonce'')),
      (''scope'', JStr (claim_str c ''scope'')), (''resource'', JStr (claim_str c ''resource'')),
      (''iat'', JInt (unix_time (iw_now w))), (''exp'', JInt (unix_time (iw_now w + ic_code_ttl (ip_cfg srv))))]"

definition authorize_post :: "idp_env \<Rightarrow> idp_world \<Rightarrow> idp_server \<Rightarrow> (string \<Rightarrow> string) option \<Rightarrow> request
    \<Rightarrow> response option \<times> claims list" where
  "authorize_post env w srv form r =
     (case form of None \<Rightarrow> (Some (http_error [] ''malformed form'' 400), [])
      | Some f \<Rightarrow>
     (case verify_own env (iw_verify w) srv (f ''req'') ''authzreq'' of
        Inl e \<Rightarrow> (Some (http_error [] ''invalid or expired consent form; restart the authorization'' 400), [])
      | Inr c \<Rightarrow>
          let email = to_lower (ie_lower env) (trim_space (rq_header r idp_header_exe_email))
          in if email = [] \<or> email \<noteq> claim_str c ''email'' \<or> \<not> allowed env srv email
             then (Some (http_error [] ''identity changed during consent; restart the authorization'' 403), [])
             else if f ''decision'' \<noteq> ''approve''
             then (Some (redirect_error env (claim_str c ''ruri'') (claim_str c ''state'') ''access_denied'' ''the user denied the request''), [])
             else let cc = code_claims w srv email c
             in (case issue env w 0 srv cc of
                   None \<Rightarrow> (Some (http_error [] ''internal error'' 500), [])
                 | Some code \<Rightarrow>
                     (map_option (\<lambda>u. redirect_to (ie_set_query env u ([(''code'', code)] @
                          (if claim_str c ''state'' \<noteq> [] then [(''state'', claim_str c ''state'')] else []))) 302)
                        (ie_parse env (claim_str c ''ruri'')),
                      [cc]))))"

section \<open>Tokens\<close>

definition mark_code_used :: "time \<Rightarrow> string \<Rightarrow> time \<Rightarrow> idp_server \<Rightarrow> bool \<times> idp_server" where
  "mark_code_used now jti expiry srv =
     (if jti = [] then (False, srv)
      else let used = fm_prune (\<lambda>e. \<not> e + clock_skew < now) (ip_used srv)
      in if fmlookup used jti \<noteq> None then (False, srv\<lparr>ip_used := used\<rparr>)
         else (True, srv\<lparr>ip_used := fmupd jti expiry used\<rparr>))"

definition access_claims :: "idp_world \<Rightarrow> idp_server \<Rightarrow> string \<Rightarrow> string \<Rightarrow> string \<Rightarrow> string \<Rightarrow> claims" where
  "access_claims w srv email cid scope resource =
     [(''iss'', JStr (ip_issuer srv)), (''typ'', JStr ''access''), (''jti'', JStr (rand_id w 0)),
      (''sub'', JStr email), (''email'', JStr email), (''client_id'', JStr cid),
      (''iat'', JInt (unix_time (iw_now w))), (''exp'', JInt (unix_time (iw_now w + ic_access_ttl (ip_cfg srv))))]
     @ (if scope \<noteq> [] then [(''scope'', JStr scope)] else []) @ (if resource \<noteq> [] then [(''aud'', JStr resource)] else [])"

definition refresh_claims :: "idp_world \<Rightarrow> idp_server \<Rightarrow> string \<Rightarrow> string \<Rightarrow> string \<Rightarrow> string \<Rightarrow> claims" where
  "refresh_claims w srv email cid scope resource =
     [(''iss'', JStr (ip_issuer srv)), (''typ'', JStr ''refresh''), (''jti'', JStr (rand_id w 1)),
      (''email'', JStr email), (''cid'', JStr cid), (''scope'', JStr scope), (''resource'', JStr resource),
      (''iat'', JInt (unix_time (iw_now w))), (''exp'', JInt (unix_time (iw_now w + ic_refresh_ttl (ip_cfg srv))))]"

definition id_claims :: "idp_world \<Rightarrow> idp_server \<Rightarrow> string \<Rightarrow> string \<Rightarrow> string \<Rightarrow> claims" where
  "id_claims w srv email cid nonce =
     [(''iss'', JStr (ip_issuer srv)), (''aud'', JStr cid), (''sub'', JStr email), (''email'', JStr email),
      (''iat'', JInt (unix_time (iw_now w))), (''exp'', JInt (unix_time (iw_now w + ic_access_ttl (ip_cfg srv))))]
     @ (if nonce \<noteq> [] then [(''nonce'', JStr nonce)] else [])"

text \<open>
  The steps after the access token: each either signs one more token and adds its member,
  or gives up; what was signed before stays signed.
\<close>

definition sign_more :: "bool \<Rightarrow> string \<Rightarrow> string option \<Rightarrow> claims \<Rightarrow> members \<times> claims list \<Rightarrow> (members \<times> claims list) option" where
  "sign_more wanted key tok c acc =
     (if \<not> wanted then Some acc
      else case tok of None \<Rightarrow> None | Some t \<Rightarrow> Some (fst acc @ [(key, JStr t)], snd acc @ [c]))"

definition issue_tokens :: "idp_env \<Rightarrow> idp_world \<Rightarrow> idp_server \<Rightarrow> string \<Rightarrow> string \<Rightarrow> string \<Rightarrow> string \<Rightarrow> string \<Rightarrow> bool
    \<Rightarrow> response \<times> claims list" where
  "issue_tokens env w srv email cid scope resource nonce with_refresh =
     (let failed = oauth_error 500 ''server_error'' ''signing failed'';
          ac = access_claims w srv email cid scope resource;
          rc = refresh_claims w srv email cid scope resource;
          ic = id_claims w srv email cid nonce
      in case issue env w 0 srv ac of
        None \<Rightarrow> (failed, [])
      | Some access \<Rightarrow>
          let acc0 = ([(''access_token'', JStr access), (''token_type'', JStr ''Bearer''),
                       (''expires_in'', JInt (ic_access_ttl (ip_cfg srv) div second))]
                      @ (if scope \<noteq> [] then [(''scope'', JStr scope)] else []), [ac])
          in (case sign_more with_refresh ''refresh_token'' (issue env w 1 srv rc) rc acc0 of
                None \<Rightarrow> (failed, snd acc0)
              | Some acc1 \<Rightarrow>
                  (case sign_more (str_contains ('' '' @ scope @ '' '') '' openid '') ''id_token'' (issue env w 2 srv ic) ic acc1 of
                     None \<Rightarrow> (failed, snd acc1)
                   | Some acc2 \<Rightarrow>
                       (respond 200 [(''Content-Type'', ''application/json''), (''Cache-Control'', ''no-store'')]
                          (JsonBody (JObj (fst acc2))), snd acc2))))"

definition token_from_code :: "idp_env \<Rightarrow> idp_world \<Rightarrow> (string \<Rightarrow> string) \<Rightarrow> idp_server
    \<Rightarrow> (response \<times> claims list) \<times> idp_server" where
  "token_from_code env w f srv =
     (case verify_own env (iw_verify w) srv (f ''code'') ''code'' of
        Inl e \<Rightarrow> ((oauth_error 400 ''invalid_grant'' ''invalid or expired code'', []), srv)
      | Inr c \<Rightarrow>
          (case mark_code_used (iw_mark w) (claim_str c ''jti'') (claim_num (ie_jwt env) c ''exp'' * second) srv of
             (fresh, srv') \<Rightarrow>
               (if \<not> fresh then (oauth_error 400 ''invalid_grant'' ''code already redeemed'', [])
                else if f ''client_id'' \<noteq> claim_str c ''cid'' then (oauth_error 400 ''invalid_grant'' ''client_id mismatch'', [])
                else if f ''redirect_uri'' \<noteq> [] \<and> f ''redirect_uri'' \<noteq> claim_str c ''ruri''
                then (oauth_error 400 ''invalid_grant'' ''redirect_uri mismatch'', [])
                else if f ''code_verifier'' = [] then (oauth_error 400 ''invalid_request'' ''code_verifier is required'', [])
                else if b64u (je_sha256 (ie_jwt env) (f ''code_verifier'')) \<noteq> claim_str c ''cc''
                then (oauth_error 400 ''invalid_grant'' ''PKCE verification failed'', [])
                else issue_tokens env w srv' (claim_str c ''email'') (claim_str c ''cid'') (claim_str c ''scope'')
                       (claim_str c ''resource'') (claim_str c ''nonce'') True, srv')))"

definition token_from_refresh :: "idp_env \<Rightarrow> idp_world \<Rightarrow> (string \<Rightarrow> string) \<Rightarrow> idp_server \<Rightarrow> response \<times> claims list" where
  "token_from_refresh env w f srv =
     (case verify_own env (iw_verify w) srv (f ''refresh_token'') ''refresh'' of
        Inl e \<Rightarrow> (oauth_error 400 ''invalid_grant'' ''invalid or expired refresh token'', [])
      | Inr c \<Rightarrow>
          if f ''client_id'' \<noteq> claim_str c ''cid'' then (oauth_error 400 ''invalid_grant'' ''client_id mismatch'', [])
          else if \<not> allowed env srv (claim_str c ''email'') then (oauth_error 400 ''invalid_grant'' ''user no longer authorized'', [])
          else issue_tokens env w srv (claim_str c ''email'') (claim_str c ''cid'') (claim_str c ''scope'')
                 (claim_str c ''resource'') [] False)"

definition handle_token :: "idp_env \<Rightarrow> idp_world \<Rightarrow> (string \<Rightarrow> string) option \<Rightarrow> idp_server
    \<Rightarrow> (response \<times> claims list) \<times> idp_server" where
  "handle_token env w form srv =
     (case form of None \<Rightarrow> ((oauth_error 400 ''invalid_request'' ''malformed form'', []), srv)
      | Some f \<Rightarrow>
          if f ''grant_type'' = ''authorization_code'' then token_from_code env w f srv
          else if f ''grant_type'' = ''refresh_token'' then (token_from_refresh env w f srv, srv)
          else ((oauth_error 400 ''unsupported_grant_type'' ''use authorization_code or refresh_token'', []), srv))"

definition handle_userinfo :: "idp_env \<Rightarrow> time \<Rightarrow> idp_server \<Rightarrow> request \<Rightarrow> response" where
  "handle_userinfo env now srv r =
     (let auth = rq_header r ''Authorization''; realm = ''Bearer realm='' @ [CHR 0x22] @ ''boxel-idp'' @ [CHR 0x22]
      in if \<not> has_prefix auth ''Bearer ''
         then oauth_error_with [(''WWW-Authenticate'', realm)] 401 ''invalid_token'' ''bearer access token required''
         else case verify_own env now srv (trim_prefix auth ''Bearer '') ''access'' of
           Inl e \<Rightarrow> oauth_error_with [(''WWW-Authenticate'', realm @ '', error='' @ [CHR 0x22] @ ''invalid_token'' @ [CHR 0x22])]
             401 ''invalid_token'' ''invalid or expired access token''
         | Inr c \<Rightarrow> respond 200 [(''Content-Type'', ''application/json'')]
             (JsonBody (JObj [(''sub'', JStr (claim_str c ''sub'')), (''email'', JStr (claim_str c ''email''))])))"

section \<open>The resource side\<close>

record verifier =
  vf_issuer :: string
  vf_pub :: pub_key
  vf_kid :: string

definition idp_verifier :: "idp_server \<Rightarrow> verifier" where
  "idp_verifier srv = \<lparr>vf_issuer = ip_issuer srv, vf_pub = ip_pub srv, vf_kid = ip_kid srv\<rparr>"

definition normalize_host :: "idp_env \<Rightarrow> string \<Rightarrow> string" where
  "normalize_host env h = trim_suffix (trim_suffix (to_lower (ie_lower env) (trim_space h)) '':443'') '':80''"

definition aud_matches_request :: "idp_env \<Rightarrow> string list \<Rightarrow> request \<Rightarrow> bool" where
  "aud_matches_request env auds r =
     (let fh = rq_header r ''X-Forwarded-Host'';
          hosts = [normalize_host env (rq_host r)] @ (if fh \<noteq> [] then [normalize_host env fh] else [])
      in list_ex (\<lambda>a. case ie_parse env a of None \<Rightarrow> False
           | Some u \<Rightarrow> url_host u \<noteq> [] \<and>
               (let ah = normalize_host env (url_host u) in list_ex (\<lambda>h. h \<noteq> [] \<and> h = ah) hosts)) auds)"

definition verify_request :: "idp_env \<Rightarrow> time \<Rightarrow> verifier \<Rightarrow> request \<Rightarrow> token_error + string" where
  "verify_request env now v r =
     (let auth = rq_header r ''Authorization''
      in if \<not> has_prefix auth ''Bearer '' then Inl NoBearer
         else case verify_jwt (ie_jwt env) now (\<lambda>kid. if kid \<noteq> vf_kid v then Inl (UnknownKey kid) else Inr (vf_pub v))
                     (trim_prefix auth ''Bearer '') of
           Inl e \<Rightarrow> Inl e
         | Inr c \<Rightarrow>
             if claim_str c ''iss'' \<noteq> vf_issuer v then Inl (WrongIssuer (claim_str c ''iss''))
             else if claim_str c ''typ'' \<noteq> ''access'' then Inl NotAccess
             else let e0 = to_lower (ie_lower env) (claim_str c ''email'');
                      email = (if e0 = [] then to_lower (ie_lower env) (claim_str c ''sub'') else e0)
                  in if email = [] then Inl NoSubject
                     else if claim_aud c \<noteq> [] \<and> \<not> aud_matches_request env (claim_aud c) r then Inl (WrongAudience (claim_aud c))
                     else Inr email)"

section \<open>Routes\<close>

datatype idp_route = Metadata | Jwks | RegisterClient | AuthorizeGet | AuthorizePost | TokenRoute | Userinfo

definition idp_route_of :: "string \<Rightarrow> string \<Rightarrow> idp_route option" where
  "idp_route_of verb path =
     (if path = ''/.well-known/openid-configuration'' \<or> path = ''/.well-known/oauth-authorization-server'' then Some Metadata
      else if path = jwks_path then Some Jwks
      else if path = register_path then Some RegisterClient
      else if path = authorize_path
      then (if verb = ''GET'' \<or> verb = ''HEAD'' then Some AuthorizeGet else if verb = ''POST'' then Some AuthorizePost else None)
      else if path = token_path then Some TokenRoute
      else if path = userinfo_path then Some Userinfo
      else None)"

end
