(* ===== verification/Hubagent.thy ===== *)
theory Hubagent
  imports Hub
begin

text \<open>
  The agent side of the pull-mode channel, \<^verbatim>\<open>internal/hubagent\<close>: the reconnecting loop
  (\<^verbatim>\<open>Run\<close>), discovery of the hub, one dial-register-serve cycle, and what the agent
  answers on the channel: its status page, its own diagnostics, or the forwarded request.
  Dialling, TLS, the replies of peers and the clock are the \<open>cycle\<close> a step runs in.
\<close>

section \<open>Configuration\<close>

record agent_config =
  gc_hub_url :: string
  gc_reflection_url :: string
  gc_hub_integration :: string
  gc_token :: string
  gc_name :: string
  gc_handler :: "(request \<Rightarrow> response) option"
  gc_target :: string
  gc_target_token :: string
  gc_version :: string
  gc_min_backoff :: duration
  gc_max_backoff :: duration
  gc_dial_timeout :: duration

text \<open>\<open>ag_escaped\<close> is \<^verbatim>\<open>EscapedPath\<close> of a path and its raw form, \<open>ag_url\<close> and \<open>ag_duration\<close> are \<^verbatim>\<open>String()\<close>.\<close>

record agent_env =
  ag_parse :: "string \<Rightarrow> url option"
  ag_quote :: "string \<Rightarrow> string"
  ag_escaped :: "string \<Rightarrow> string \<Rightarrow> string"
  ag_url :: "url \<Rightarrow> string"
  ag_duration :: "duration \<Rightarrow> string"

definition default_reflection :: string where "default_reflection = ''https://reflection.int.exe.xyz''"

definition with_defaults :: "agent_config \<Rightarrow> agent_config" where
  "with_defaults cfg = cfg\<lparr>
     gc_min_backoff := (if gc_min_backoff cfg \<le> 0 then second else gc_min_backoff cfg),
     gc_max_backoff := (if gc_max_backoff cfg \<le> 0 then 30 * second else gc_max_backoff cfg),
     gc_dial_timeout := (if gc_dial_timeout cfg \<le> 0 then 15 * second else gc_dial_timeout cfg),
     gc_reflection_url := (if gc_reflection_url cfg = [] then default_reflection else gc_reflection_url cfg),
     gc_hub_integration := (if gc_hub_integration cfg = [] then ''boxel'' else gc_hub_integration cfg)\<rparr>"

definition base_url_of :: "agent_env \<Rightarrow> string \<Rightarrow> url option" where
  "base_url_of env s =
     (case ag_parse env s of None \<Rightarrow> None
      | Some u \<Rightarrow> if url_scheme u \<noteq> ''http'' \<and> url_scheme u \<noteq> ''https'' \<or> url_host u = [] then None else Some u)"

definition validate_base_url :: "agent_env \<Rightarrow> string \<Rightarrow> string option" where
  "validate_base_url env s =
     (if base_url_of env s = None then Some (ag_quote env s @ '': want http(s)://host[:port][/base]'') else None)"

section \<open>Discovery\<close>

record integration =
  in_name :: string
  in_type :: string
  in_help :: string

datatype reflection_reply = Unaskable string | NoReply string | Status nat string | BadList string | Listed "integration list"

definition url_char :: "char \<Rightarrow> bool" where
  "url_char c = (c \<notin> {CHR 0x09, CHR 0x0A, CHR 0x0C, CHR 0x0D, CHR 0x20, CHR 0x22, CHR 0x27})"

text \<open>The leftmost match of \<^verbatim>\<open>helpURLRe\<close>: the scheme and the longest run of other characters.\<close>

definition url_here :: "string \<Rightarrow> string" where
  "url_here s =
     (let p = (if has_prefix s ''https://'' then ''https://'' else ''http://''); w = takeWhile url_char (drop (length p) s)
      in if has_prefix s p \<and> w \<noteq> [] then p @ w else [])"

fun find_url :: "string \<Rightarrow> string" where
  "find_url [] = []"
| "find_url (c # s) = (if url_here (c # s) \<noteq> [] then url_here (c # s) else find_url s)"

definition hub_integration :: "string \<Rightarrow> integration \<Rightarrow> bool" where
  "hub_integration name i = (\<not> (in_type i \<noteq> ''http-proxy'' \<or> in_name i \<noteq> name))"

definition not_attached :: "agent_env \<Rightarrow> string \<Rightarrow> string \<Rightarrow> string" where
  "not_attached env name reflection =
     ''the hub'' @ [CHR 0x27] @ ''s peer integration '' @ ag_quote env name @ '' is not attached to this VM yet (checked '' @ reflection @
     '') '' @ [CHR 0xE2, CHR 0x80, CHR 0x94] @ '' create it (ssh exe.dev integrations add http-proxy --name '' @ name @
     '' --target https://<hub-vm>.exe.xyz/ --peer --attach tag:boxel) and tag this VM (ssh exe.dev tag <vm> boxel); the agent will connect automatically once attached''"

definition discover_hub_url :: "agent_env \<Rightarrow> (string \<Rightarrow> reflection_reply) \<Rightarrow> string \<Rightarrow> string \<Rightarrow> string + string" where
  "discover_hub_url env get reflection0 name =
     (let reflection = (if reflection0 = [] then default_reflection else reflection0)
      in case get (trim_suffix reflection ''/'' @ ''/integrations'') of
           Unaskable e \<Rightarrow> Inl e
         | NoReply e \<Rightarrow> Inl (''query reflection: '' @ e)
         | Status code s \<Rightarrow> Inl (''reflection returned '' @ s)
         | BadList e \<Rightarrow> Inl (''parse reflection response: '' @ e)
         | Listed xs \<Rightarrow>
             (case find (hub_integration name) xs of
                None \<Rightarrow> Inl (not_attached env name reflection)
              | Some i \<Rightarrow>
                  if find_url (in_help i) \<noteq> [] then Inr (trim_suffix (find_url (in_help i)) ''/'')
                  else (case ag_parse env reflection of
                          None \<Rightarrow> Inl (not_attached env name reflection)
                        | Some u \<Rightarrow>
                            (case cut_char CHR ''.'' (url_host u) of
                               (_, domain, found) \<Rightarrow>
                                 if found then Inr (''http://'' @ name @ ''.'' @ domain)
                                 else Inl (not_attached env name reflection)))))"

section \<open>One cycle\<close>

definition join_host_port :: "string \<Rightarrow> string \<Rightarrow> string" where
  "join_host_port host port =
     (if CHR '':'' \<in> set host then ''['' @ host @ '']:'' @ port else host @ '':'' @ port)"

definition default_port :: "url \<Rightarrow> string" where
  "default_port u = (if url_scheme u = ''https'' then ''443'' else ''80'')"

definition dial_addr :: "url \<Rightarrow> string" where
  "dial_addr u = (if url_port u = [] then join_host_port (url_hostname u) (default_port u) else url_host u)"

datatype hub_reply = SendFails string | ReadFails string | Answered nat string string

record channel_world =
  ch_reflection :: "string \<Rightarrow> reflection_reply"
  ch_dial :: "string \<Rightarrow> string option"
  ch_tls :: "string \<Rightarrow> string option"
  ch_hub :: "string \<Rightarrow> request \<Rightarrow> hub_reply"

definition registration_request :: "agent_config \<Rightarrow> url \<Rightarrow> request" where
  "registration_request cfg u =
     \<lparr>rq_method = ''GET'', rq_path = trim_suffix (url_path u) ''/'' @ connect_path, rq_raw_path = [], rq_raw_query = [],
      rq_host = url_host u, rq_tls = (url_scheme u = ''https''), rq_proto_major = 1, rq_client = None,
      rq_header = (\<lambda>k. [])
        (''Upgrade'' := upgrade_protocol, ''Connection'' := ''Upgrade'', header_agent_name := gc_name cfg,
         header_agent_version := gc_version cfg,
         ''Authorization'' := (if gc_token cfg \<noteq> [] then ''Bearer '' @ gc_token cfg else [])),
      rq_form = (\<lambda>k. []), rq_query = (\<lambda>k. [])\<rparr>"

text \<open>How a cycle ends; a served channel has been registered before it closed.\<close>

datatype cycle_end = DiscoveryFails string | BadURL string | DialFails string string | TLSFails string string
  | Unsent string | Unread string | RefusedBy string string | ServedUntilClosed

definition cycle_error :: "agent_env \<Rightarrow> cycle_end \<Rightarrow> string" where
  "cycle_error env e = (case e of
     DiscoveryFails m \<Rightarrow> ''hub autodiscovery: '' @ m @ '' (pass --hub / BOXEL_HUB_URL to skip discovery)''
   | BadURL s \<Rightarrow> ''invalid hub URL '' @ ag_quote env s
   | DialFails addr m \<Rightarrow> ''dial '' @ addr @ '': '' @ m
   | TLSFails addr m \<Rightarrow> ''tls handshake with '' @ addr @ '': '' @ m
   | Unsent m \<Rightarrow> ''send registration: '' @ m
   | Unread m \<Rightarrow> ''read registration response: '' @ m
   | RefusedBy status b \<Rightarrow> ''hub refused registration: '' @ status @ '': '' @ trim_space b
   | ServedUntilClosed \<Rightarrow> ''channel closed by hub'')"

definition registered_line :: "agent_env \<Rightarrow> agent_config \<Rightarrow> string" where
  "registered_line env cfg =
     ''boxel-agent: registered with hub '' @ gc_hub_url cfg @ '' as '' @ ag_quote env (gc_name cfg) @ '', '' @
       (case gc_handler cfg of None \<Rightarrow> ''forwarding to '' @ gc_target cfg | Some h \<Rightarrow> ''in-process handler'')"

definition run_once :: "agent_env \<Rightarrow> agent_config \<Rightarrow> channel_world \<Rightarrow> url \<Rightarrow> string list \<times> cycle_end" where
  "run_once env cfg w u =
     (let addr = dial_addr u
      in case ch_dial w addr of
           Some e \<Rightarrow> ([], DialFails addr e)
         | None \<Rightarrow>
             (case (if url_scheme u = ''https'' then ch_tls w (url_hostname u) else None) of
                Some e \<Rightarrow> ([], TLSFails addr e)
              | None \<Rightarrow>
                  (case ch_hub w addr (registration_request cfg u) of
                     SendFails e \<Rightarrow> ([], Unsent e)
                   | ReadFails e \<Rightarrow> ([], Unread e)
                   | Answered code status b \<Rightarrow>
                       if code \<noteq> 101 then ([], RefusedBy status (take 4096 b))
                       else ([registered_line env cfg], ServedUntilClosed))))"

text \<open>The log lines, the hub URL the status page shows from now on, and the end of the cycle.\<close>

definition connect_cycle :: "agent_env \<Rightarrow> agent_config \<Rightarrow> channel_world \<Rightarrow> string \<Rightarrow> string list \<times> string \<times> cycle_end" where
  "connect_cycle env cfg w shown =
     (case (if gc_hub_url cfg = []
            then map_sum id (\<lambda>d. ([''boxel-agent: discovered hub '' @ d @ '' via reflection integration '' @ ag_quote env (gc_hub_integration cfg)], d))
                   (discover_hub_url env (ch_reflection w) (gc_reflection_url cfg) (gc_hub_integration cfg))
            else Inr ([], gc_hub_url cfg)) of
        Inl e \<Rightarrow> ([], shown, DiscoveryFails e)
      | Inr (logs, hub_url) \<Rightarrow>
          (case base_url_of env hub_url of
             None \<Rightarrow> (logs, shown, BadURL hub_url)
           | Some u \<Rightarrow> (case run_once env cfg w u of (logs', e) \<Rightarrow> (logs @ logs', hub_url, e))))"

section \<open>The loop\<close>

record agent_loop =
  al_backoff :: duration
  al_last_err :: string
  al_last_logged :: "time option"
  al_shown :: string

text \<open>
  One turn of the loop: the clock when the cycle starts and at the three readings after it,
  and whether the context is cancelled during the cycle or while the loop waits.
\<close>

record cycle =
  cy_start :: time
  cy_world :: channel_world
  cy_end :: time
  cy_check :: time
  cy_logged :: time
  cy_cancelled :: bool
  cy_cancelled_waiting :: bool

record turn =
  tn_logs :: "string list"
  tn_end :: cycle_end
  tn_wait :: "duration option"

definition start_loop :: "agent_config \<Rightarrow> agent_loop" where
  "start_loop cfg = \<lparr>al_backoff = gc_min_backoff cfg, al_last_err = [], al_last_logged = None, al_shown = gc_hub_url cfg\<rparr>"

definition minute :: duration where "minute = 60 * second"

definition next_backoff :: "agent_config \<Rightarrow> duration \<Rightarrow> duration" where
  "next_backoff cfg b = (let d = wrap64 (2 * b) in if gc_max_backoff cfg < d then gc_max_backoff cfg else d)"

text \<open>\<^const>\<open>None\<close>: the context was cancelled and \<^verbatim>\<open>Run\<close> returned.\<close>

definition agent_turn :: "agent_env \<Rightarrow> agent_config \<Rightarrow> cycle \<Rightarrow> agent_loop \<Rightarrow> turn \<times> agent_loop option" where
  "agent_turn env cfg c l =
     (case connect_cycle env cfg (cy_world c) (al_shown l) of
        (logs, shown, e) \<Rightarrow>
          if cy_cancelled c then (\<lparr>tn_logs = logs, tn_end = e, tn_wait = None\<rparr>, None)
          else
            let b = (if minute < cy_end c - cy_start c then gc_min_backoff cfg else al_backoff l);
                msg = cycle_error env e;
                stale = (case al_last_logged l of None \<Rightarrow> True | Some t \<Rightarrow> 5 * minute < cy_check c - t);
                say = (msg \<noteq> al_last_err l \<or> stale)
            in (\<lparr>tn_logs = logs @ (if say then [''boxel-agent: hub connection: '' @ msg @ ''; retrying (backoff '' @ ag_duration env b @ '', repeats suppressed)''] else []), tn_end = e, tn_wait = Some b\<rparr>,
                if cy_cancelled_waiting c then None
                else Some \<lparr>al_backoff = next_backoff cfg b,
                           al_last_err = (if say then msg else al_last_err l),
                           al_last_logged = (if say then Some (cy_logged c) else al_last_logged l), al_shown = shown\<rparr>))"

fun agent_turns :: "agent_env \<Rightarrow> agent_config \<Rightarrow> cycle list \<Rightarrow> agent_loop \<Rightarrow> turn list \<times> agent_loop option" where
  "agent_turns env cfg [] l = ([], Some l)"
| "agent_turns env cfg (c # cs) l =
     (case agent_turn env cfg c l of
        (t, None) \<Rightarrow> ([t], None)
      | (t, Some l') \<Rightarrow> (case agent_turns env cfg cs l' of (ts, fin) \<Rightarrow> (t # ts, fin)))"

section \<open>Answering on the channel\<close>

text \<open>The in-process mode: the agent's status page on \<^verbatim>\<open>GET /\<close>, the handler otherwise.\<close>

definition dashboard_serve :: "agent_config \<Rightarrow> string \<Rightarrow> (request \<Rightarrow> response) \<Rightarrow> request \<Rightarrow> response" where
  "dashboard_serve cfg shown inner r =
     (if rq_path r \<noteq> ''/'' \<or> rq_method r \<noteq> ''GET'' \<and> rq_method r \<noteq> ''HEAD'' then inner r
      else respond 200 [(''Content-Type'', ''text/html; charset=utf-8''), (''Cache-Control'', ''no-store'')]
        (Page ''agent-dashboard'' [(''Name'', JStr (gc_name cfg)), (''Version'', JStr (gc_version cfg)), (''HubURL'', JStr shown)]))"

text \<open>\<^verbatim>\<open>ProxyRequest.SetURL\<close>: the target's path, then the request's, with one slash between.\<close>

definition join_url_path :: "agent_env \<Rightarrow> url \<Rightarrow> request \<Rightarrow> string \<times> string" where
  "join_url_path env u r =
     (if url_raw_path u = [] \<and> rq_raw_path r = []
      then ((if has_suffix (url_path u) ''/'' \<and> has_prefix (rq_path r) ''/'' then url_path u @ tl (rq_path r)
             else if \<not> has_suffix (url_path u) ''/'' \<and> \<not> has_prefix (rq_path r) ''/'' then url_path u @ ''/'' @ rq_path r
             else url_path u @ rq_path r), [])
      else let a = ag_escaped env (url_path u) (url_raw_path u); b = ag_escaped env (rq_path r) (rq_raw_path r)
      in if has_suffix a ''/'' \<and> has_prefix b ''/'' then (url_path u @ tl (rq_path r), a @ tl b)
         else if \<not> has_suffix a ''/'' \<and> \<not> has_prefix b ''/'' then (url_path u @ ''/'' @ rq_path r, a @ ''/'' @ b)
         else (url_path u @ rq_path r, a @ b))"

definition set_url :: "agent_env \<Rightarrow> url \<Rightarrow> request \<Rightarrow> request" where
  "set_url env u r =
     r\<lparr>rq_host := url_host u, rq_tls := (url_scheme u = ''https''),
       rq_path := fst (join_url_path env u r), rq_raw_path := snd (join_url_path env u r),
       rq_raw_query := (if url_raw_query u = [] \<or> rq_raw_query r = [] then url_raw_query u @ rq_raw_query r
                        else url_raw_query u @ ''&'' @ rq_raw_query r)\<rparr>"

definition forwarded_request :: "agent_env \<Rightarrow> url \<Rightarrow> string \<Rightarrow> request \<Rightarrow> request" where
  "forwarded_request env u token r =
     (let out = set_url env u (set_x_forwarded r)
      in if token \<noteq> [] then set_header ''Authorization'' (''Bearer '' @ token) out else out)"

definition forward_error :: "agent_env \<Rightarrow> agent_config \<Rightarrow> url \<Rightarrow> string \<Rightarrow> response" where
  "forward_error env cfg u e =
     respond 502 [(''Content-Type'', ''application/json'')]
       (JsonBody (JObj
         [(''agent'', JStr (gc_name cfg)), (''error'', JStr ''agent_forward_failed''),
          (''hint'', JStr ''boxel-agent is connected but could not reach its local forward target; check that a server is listening there and that --target matches its address''),
          (''message'', JStr e), (''target'', JStr (ag_url env u))]))"

text \<open>What the agent's own machine answers: the dial of an address, a plain GET (\<^const>\<open>None\<close> when
  the request cannot be built), a forwarded request.\<close>

record local_world =
  lw_dial :: "string \<Rightarrow> string option"
  lw_get :: "string \<Rightarrow> (string + nat) option"
  lw_serve :: "request \<Rightarrow> string + response"

definition probe_target :: "agent_env \<Rightarrow> local_world \<Rightarrow> url \<Rightarrow> json" where
  "probe_target env w u =
     (let port = (if url_port u = [] then default_port u else url_port u);
          addr = join_host_port (url_hostname u) port
      in case lw_dial w addr of
           Some e \<Rightarrow> JObj [(''addr'', JStr addr), (''error'', JStr e), (''reachable'', JBool False)]
         | None \<Rightarrow>
             JObj ([(''addr'', JStr addr)]
               @ (case lw_get w (ag_url env u) of None \<Rightarrow> []
                  | Some (Inr code) \<Rightarrow> [(''http_status'', JInt (int code))] | Some (Inl e) \<Rightarrow> [(''http_error'', JStr e)])
               @ [(''reachable'', JBool True)]))"

definition diag_serve :: "agent_env \<Rightarrow> local_world \<Rightarrow> agent_config \<Rightarrow> url \<Rightarrow> response" where
  "diag_serve env w cfg u =
     respond 200 [(''Content-Type'', ''application/json'')]
       (JsonBody (JObj
         [(''agent'', JStr (gc_name cfg)), (''agent_ok'', JBool True), (''target'', JStr (ag_url env u)),
          (''target_check'', probe_target env w u), (''version'', JStr (gc_version cfg))]))"

definition diag_path :: string where "diag_path = ''/__boxel-agent''"

definition proxy_handler :: "agent_env \<Rightarrow> local_world \<Rightarrow> agent_config \<Rightarrow> url \<Rightarrow> string \<Rightarrow> request \<Rightarrow> response" where
  "proxy_handler env w cfg u token r =
     (if rq_path r = diag_path \<or> has_prefix (rq_path r) (diag_path @ ''/'') then diag_serve env w cfg u
      else case lw_serve w (forwarded_request env u token r) of
             Inl e \<Rightarrow> forward_error env cfg u e
           | Inr res \<Rightarrow> res)"

section \<open>Starting\<close>

datatype serving = InProcess "request \<Rightarrow> response" | Forwarding url string

definition start_agent :: "agent_env \<Rightarrow> agent_config \<Rightarrow> string + agent_config \<times> serving" where
  "start_agent env cfg0 =
     (let cfg = with_defaults cfg0
      in check_that (valid_name (gc_name cfg))
           (''invalid agent name '' @ ag_quote env (gc_name cfg) @ '': want 1-63 chars of [a-z0-9-], not starting/ending with -'')
         (case (if gc_hub_url cfg \<noteq> [] then validate_base_url env (gc_hub_url cfg) else None) of
            Some e \<Rightarrow> Inl (''invalid hub URL: '' @ e)
          | None \<Rightarrow>
              (case gc_handler cfg of
                 Some h \<Rightarrow> Inr (cfg, InProcess h)
               | None \<Rightarrow>
                   (case base_url_of env (gc_target cfg) of
                      None \<Rightarrow> Inl (''invalid target URL '' @ ag_quote env (gc_target cfg) @ '': want http(s)://host[:port][/base]'')
                    | Some u \<Rightarrow> Inr (cfg, Forwarding u (gc_target_token cfg))))))"

definition agent_answers :: "agent_env \<Rightarrow> local_world \<Rightarrow> agent_config \<Rightarrow> agent_loop \<Rightarrow> serving \<Rightarrow> request \<Rightarrow> response" where
  "agent_answers env w cfg l sv r =
     (case sv of InProcess h \<Rightarrow> dashboard_serve cfg (al_shown l) h r
      | Forwarding u token \<Rightarrow> proxy_handler env w cfg u token r)"

text \<open>\<^verbatim>\<open>Run\<close>: refused at once, or a turn per cycle until the context is cancelled.\<close>

definition run_agent :: "agent_env \<Rightarrow> agent_config \<Rightarrow> cycle list \<Rightarrow> string + turn list \<times> agent_loop option" where
  "run_agent env cfg0 cs = map_sum id (\<lambda>(cfg, sv). agent_turns env cfg cs (start_loop cfg)) (start_agent env cfg0)"

end
