(* ===== verification/Hub_Installer.thy ===== *)
theory Hub_Installer
  imports Hub
begin

text \<open>
  The installer of \<^verbatim>\<open>internal/hub/installer.go\<close>: the data of a request and the script made of
  it, line by line as the template has it. What the script does when a shell runs it is not
  modelled; what it discloses, and what of a request ends up in it, is.
\<close>

section \<open>The data\<close>

record installer_data =
  id_hub_url :: string
  id_public_url :: string
  id_token :: string
  id_token_required :: bool
  id_module :: string
  id_module_version :: string
  id_version :: string

definition request_base_url :: "request \<Rightarrow> string" where
  "request_base_url r =
     (let proto0 = (if rq_tls r then ''https'' else ''http'');
          xf = rq_header r ''X-Forwarded-Proto'';
          proto = (if xf \<noteq> [] then xf else proto0)
      in proto @ ''://'' @ rq_host r)"

definition installer_data_for :: "hub_config \<Rightarrow> (request \<Rightarrow> bool) option \<Rightarrow> request \<Rightarrow> installer_data" where
  "installer_data_for cfg auth r =
     (let public = request_base_url r; required = (hc_owner_email cfg = []);
          hub0 = hc_advertise_url cfg;
          hub = (if hub0 = [] \<and> required then public else hub0);
          token = (case auth of None \<Rightarrow> [] | Some ok \<Rightarrow> if ok r then hc_agent_token cfg else [])
      in \<lparr>id_hub_url = hub, id_public_url = public, id_token = token, id_token_required = required,
          id_module = ''github.com/mkmik/boxel'', id_module_version = ''latest'', id_version = hc_version cfg\<rparr>)"

section \<open>The template\<close>

definition script_intro :: "installer_data \<Rightarrow> string list" where
  \<open>script_intro d =
    [''#!/usr/bin/env bash'',
     ''# boxel agent installer, generated by the boxel hub ('' @ id_version d @ '').'',
     ''#'',
     ''# Installs boxel on this VM as a SINGLE pull-mode agent process:'',
     ''#   - builds tunnel-mcp with '' @ [CHR 0x27] @ ''go install'' @ [CHR 0x27],
     ''#   - runs it as the VM'' @ [CHR 0x27] @ ''s MAIN user (default: exedev, override with'',
     ''#     BOXEL_AGENT_USER) in that user'' @ [CHR 0x27] @ ''s natural home directory '' @ [CHR 0xE2, CHR 0x80, CHR 0x94] @ '' no dedicated'',
     ''#     service user is created'',
     ''#   - registers and starts a systemd unit (boxel-agent.service) running'',
     ''#     '' @ [CHR 0x27] @ ''tunnel-mcp --hub-connect'' @ [CHR 0x27] @ '': the process dials OUT to the hub and serves'',
     ''#     its MCP in-process over the reverse channel '' @ [CHR 0xE2, CHR 0x80, CHR 0x94] @ '' no local port, no'',
     ''#     separate boxel-agent forwarder process. The unit carries no systemd'',
     ''#     sandboxing and the agent defaults to bypassPermissions: the VM is the'',
     ''#     sandbox'',
     ''#   - enables a self-update timer (boxel-agent-update.timer) that polls for'',
     ''#     newer releases every 5 minutes and installs them'',
     ''# The VM then becomes reachable at '' @ id_public_url d @ ''/vm/<hostname>/'',
     ''# (MCP endpoint: '' @ id_public_url d @ ''/vm/<hostname>/mcp) with no inbound port.'',
     ''#'',
     ''# Usage:'',
     ''#   curl -fsSL '' @ id_public_url d @ ''/install-agent'' @ '' | sudo bash'',
     ''#'',
     ''# Overridable environment:'',
     ''#   BOXEL_HUB_URL          hub URL the agent dials      '' @ (if id_hub_url d \<noteq> [] then ''(default: '' @ id_hub_url d @ '')'' else ''(default: autodiscovered via reflection.int.exe.xyz)''),
     ''#   BOXEL_HUB_INTEGRATION  peer integration name to discover (default: boxel)'',
     ''#   BOXEL_AGENT_TOKEN      registration token           '' @ (if id_token d \<noteq> [] then ''(embedded in this script)'' else (if id_token_required d then ''(REQUIRED: this copy was served unauthenticated)'' else ''(not needed: the hub accepts exe.dev identity)'')),
     ''#   BOXEL_AGENT_NAME       handle to register under     (default: short hostname; overridden by the platform-verified VM name on exe.dev)'',
     ''#   BOXEL_AGENT_USER       user the agent runs as       (default: exedev '' @ [CHR 0xE2, CHR 0x80, CHR 0x94] @ '' the VM'' @ [CHR 0x27] @ ''s main user)'',
     ''#   BOXEL_WORKSPACE        workspace jail root          (default: the agent user'' @ [CHR 0x27] @ ''s home directory)'']\<close>

definition script_settings :: "installer_data \<Rightarrow> string list" where
  \<open>script_settings d =
    [''set -euo pipefail'',
     [],
     ''HUB_URL="${BOXEL_HUB_URL:-'' @ id_hub_url d @ ''}"'',
     ''HUB_INTEGRATION="${BOXEL_HUB_INTEGRATION:-}"'',
     ''AGENT_TOKEN="${BOXEL_AGENT_TOKEN:-'' @ id_token d @ ''}"'',
     ''AGENT_NAME="${BOXEL_AGENT_NAME:-$(hostname -s | tr '' @ [CHR 0x27] @ ''[:upper:]'' @ [CHR 0x27] @ '' '' @ [CHR 0x27] @ ''[:lower:]'' @ [CHR 0x27] @ '')}"'',
     ''SERVICE_USER="${BOXEL_AGENT_USER:-exedev}"'',
     ''MODULE="'' @ id_module d @ ''/cmd/tunnel-mcp@'' @ id_module_version d @ ''"'',
     []]\<close>

definition script_token_check :: "installer_data \<Rightarrow> string list" where
  \<open>script_token_check d =
    [''if [ -z "$AGENT_TOKEN" ]; then'',
     ''  echo "error: no registration token." >&2'',
     ''  echo "This hub only accepts token-based registration, and it embeds the token only" >&2'',
     ''  echo "when the installer request is authenticated (e.g. fetched with the hub'' @ [CHR 0x27] @ ''s" >&2'',
     ''  echo "bearer token). Otherwise pass it explicitly:" >&2'',
     ''  echo "  curl -fsSL '' @ id_public_url d @ ''/install-agent'' @ '' | sudo BOXEL_AGENT_TOKEN=<token> bash" >&2'',
     ''  exit 1'',
     ''fi'']\<close>

definition script_checks :: "installer_data \<Rightarrow> string list" where
  \<open>script_checks d =
    [''if [ "$(id -u)" -ne 0 ]; then'',
     ''  echo "error: run as root (installs to /usr/local/bin and registers a systemd unit):" >&2'',
     ''  echo "  curl -fsSL '' @ id_public_url d @ ''/install-agent'' @ '' | sudo bash" >&2'',
     ''  exit 1'',
     ''fi'',
     ''command -v systemctl >/dev/null 2>&1 || { echo "error: systemd is required" >&2; exit 1; }'',
     ''command -v go >/dev/null 2>&1 || { echo "error: Go toolchain not found (needed for '' @ [CHR 0x27] @ ''go install'' @ [CHR 0x27] @ ''); install Go first" >&2; exit 1; }'',
     ''if ! id "$SERVICE_USER" >/dev/null 2>&1; then'',
     ''  echo "error: user '' @ [CHR 0x27] @ ''$SERVICE_USER'' @ [CHR 0x27] @ '' not found. The agent runs as the VM'' @ [CHR 0x27] @ ''s main user;" >&2'',
     ''  echo "pass the right one explicitly:" >&2'',
     ''  echo "  curl -fsSL '' @ id_public_url d @ ''/install-agent'' @ '' | sudo BOXEL_AGENT_USER=<user> bash" >&2'',
     ''  exit 1'',
     ''fi'',
     ''SERVICE_GROUP="$(id -gn "$SERVICE_USER")"'',
     ''USER_HOME="$(getent passwd "$SERVICE_USER" | cut -d: -f6)"'',
     ''WORKSPACE="${BOXEL_WORKSPACE:-$USER_HOME}"'',
     []]\<close>

definition script_install :: "string list" where
  \<open>script_install =
    [''echo "==> go install $MODULE"'',
     ''GOBIN=/usr/local/bin go install "$MODULE"'',
     [],
     ''echo "==> agent runs as $SERVICE_USER (home: $USER_HOME, workspace: $WORKSPACE)"'',
     ''if [ ! -d "$WORKSPACE" ]; then'',
     ''  install -d -o "$SERVICE_USER" -g "$SERVICE_GROUP" "$WORKSPACE"'',
     ''fi'',
     [],
     ''echo "==> writing /etc/boxel-agent/env"'',
     ''mkdir -p /etc/boxel-agent'',
     ''{'',
     ''  if [ -n "$HUB_URL" ]; then echo "BOXEL_HUB_URL=$HUB_URL"; fi'',
     ''  if [ -n "$HUB_INTEGRATION" ]; then echo "BOXEL_HUB_INTEGRATION=$HUB_INTEGRATION"; fi'',
     ''  if [ -n "$AGENT_TOKEN" ]; then echo "BOXEL_AGENT_TOKEN=$AGENT_TOKEN"; fi'',
     ''  echo "BOXEL_AGENT_NAME=$AGENT_NAME"'',
     ''} > /etc/boxel-agent/env'',
     ''chown "root:$SERVICE_GROUP" /etc/boxel-agent /etc/boxel-agent/env'',
     ''chmod 750 /etc/boxel-agent'',
     ''chmod 640 /etc/boxel-agent/env'',
     []]\<close>

definition script_service :: "string list" where
  \<open>script_service =
    [''echo "==> installing boxel-agent.service (single tunnel-mcp --hub-connect process)"'',
     ''cat > /etc/systemd/system/boxel-agent.service <<EOF'',
     ''[Unit]'',
     ''Description=boxel pull-mode agent (tunnel-mcp --hub-connect: serves MCP to the hub in-process)'',
     ''After=network-online.target'',
     ''Wants=network-online.target'',
     [],
     ''[Service]'',
     ''User=$SERVICE_USER'',
     ''Group=$SERVICE_GROUP'',
     ''EnvironmentFile=/etc/boxel-agent/env'',
     ''Environment=HOME=$USER_HOME'',
     ''WorkingDirectory=$WORKSPACE'',
     ''ExecStart=/usr/local/bin/tunnel-mcp --hub-connect --workspace $WORKSPACE'',
     ''Restart=always'',
     ''RestartSec=2'',
     [],
     ''# Deliberately NO systemd sandboxing (ProtectSystem & friends): the whole VM'',
     ''# is the sandbox. The agent runs in bypassPermissions mode by default, and'',
     ''# dev tools must be free to use the entire machine.'',
     [],
     ''[Install]'',
     ''WantedBy=multi-user.target'',
     ''EOF'',
     []]\<close>

definition script_update :: "string list" where
  \<open>script_update =
    [''echo "==> installing self-update (boxel-agent-update.timer, every 5 minutes)"'',
     ''cat > /usr/local/bin/boxel-agent-update <<'' @ [CHR 0x27] @ ''EOF'' @ [CHR 0x27],
     ''#!/usr/bin/env bash'',
     ''# boxel agent self-update: rebuild tunnel-mcp at its latest release and'',
     ''# restart boxel-agent.service when the binary actually changes. Installed by'',
     ''# the boxel hub installer; run as root by boxel-agent-update.timer.'',
     ''set -euo pipefail'',
     ''BIN=/usr/local/bin/tunnel-mcp'',
     ''UNIT=boxel-agent.service'',
     ''export HOME="${HOME:-/var/cache/boxel-agent-update}"'',
     ''mkdir -p "$HOME"'',
     ''GO=""'',
     ''for p in go /usr/local/go/bin/go /usr/local/bin/go /usr/bin/go; do'',
     ''  if command -v "$p" >/dev/null 2>&1; then GO="$(command -v "$p")"; break; fi'',
     ''done'',
     ''if [ -z "$GO" ]; then echo "go toolchain not found; not self-updating" >&2; exit 0; fi'',
     ''# Derive the module from the installed binary (so forks self-update from'',
     ''# their own module), and never clobber a source build (non-release version).'',
     ''mod="$("$GO" version -m "$BIN" | awk '' @ [CHR 0x27] @ ''$1 == "mod" { print $2; exit }'' @ [CHR 0x27] @ '')"'',
     ''ver="$("$GO" version -m "$BIN" | awk '' @ [CHR 0x27] @ ''$1 == "mod" { print $3; exit }'' @ [CHR 0x27] @ '')"'',
     ''case "$ver" in'',
     ''  v*) ;;'',
     ''  *) echo "installed version $ver is not a released module version (source build?); not self-updating"; exit 0 ;;'',
     ''esac'',
     ''staging="$(mktemp -d /usr/local/bin/.tunnel-mcp-update-XXXXXX)"'',
     ''trap '' @ [CHR 0x27] @ ''rm -rf "$staging"'' @ [CHR 0x27] @ '' EXIT'',
     ''GOBIN="$staging" "$GO" install "$mod/cmd/tunnel-mcp@latest"'',
     ''if ! cmp -s "$staging/tunnel-mcp" "$BIN"; then'',
     ''  mv "$staging/tunnel-mcp" "$BIN"'',
     ''  # try-restart: pick up the new binary only if the service is running, so an'',
     ''  # operator who stopped it deliberately doesn'' @ [CHR 0x27] @ ''t get it back.'',
     ''  systemctl try-restart "$UNIT"'',
     ''  echo "updated $BIN"'',
     ''fi'',
     ''EOF'',
     ''chmod 755 /usr/local/bin/boxel-agent-update'',
     []]\<close>

definition script_units :: "string list" where
  \<open>script_units =
    [''cat > /etc/systemd/system/boxel-agent-update.service <<EOF'',
     ''[Unit]'',
     ''Description=boxel agent self-update (installs the latest tunnel-mcp release)'',
     ''After=network-online.target'',
     ''Wants=network-online.target'',
     [],
     ''[Service]'',
     ''Type=oneshot'',
     ''ExecStart=/usr/local/bin/boxel-agent-update'',
     ''Environment=HOME=/var/cache/boxel-agent-update'',
     ''PrivateTmp=true'',
     ''EOF'',
     [],
     ''cat > /etc/systemd/system/boxel-agent-update.timer <<EOF'',
     ''[Unit]'',
     ''Description=poll for boxel agent updates every 5 minutes'',
     [],
     ''[Timer]'',
     ''OnBootSec=2min'',
     ''OnUnitActiveSec=5min'',
     ''RandomizedDelaySec=30s'',
     [],
     ''[Install]'',
     ''WantedBy=timers.target'',
     ''EOF'',
     []]\<close>

definition script_start :: "string list" where
  \<open>script_start =
    [''echo "==> starting boxel-agent.service"'',
     ''systemctl daemon-reload'',
     ''systemctl enable boxel-agent.service'',
     ''systemctl restart boxel-agent.service'',
     ''systemctl enable --now boxel-agent-update.timer'',
     []]\<close>

definition script_farewell :: "installer_data \<Rightarrow> string list" where
  \<open>script_farewell d =
    [''echo'',
     ''echo "boxel-agent.service is running a single tunnel-mcp process that dials the"'',
     ''echo "hub and serves this VM'' @ [CHR 0x27] @ ''s MCP in-process (no local port, no forwarder)."'',
     ''if [ -z "$HUB_URL" ]; then'',
     ''  echo'',
     ''  echo "No hub URL was configured: the agent autodiscovers the hub'' @ [CHR 0x27] @ ''s peer"'',
     ''  echo "integration (name: ${HUB_INTEGRATION:-boxel}) via reflection and retries until it"'',
     ''  echo "connects '' @ [CHR 0xE2, CHR 0x80, CHR 0x94] @ '' the installation has SUCCEEDED even if the hub is not"'',
     ''  echo "reachable yet; do not retry or roll back. If this VM is not in the"'',
     ''  echo "fleet yet, the exe.dev account owner attaches it with:"'',
     ''  echo "  ssh exe.dev integrations add http-proxy --name ${HUB_INTEGRATION:-boxel} '' @ [CHR 0x5C, CHR 0x5C] @ ''"'',
     ''  echo "    --target '' @ id_public_url d @ ''/ --peer --attach tag:boxel    # once per account"'',
     ''  echo "  ssh exe.dev tag <this-vm> boxel"'',
     ''fi'',
     ''echo'',
     ''echo "Verify with: journalctl -u boxel-agent.service -n 5   (look for '' @ [CHR 0x5C] @ ''"registered with hub'' @ [CHR 0x5C] @ ''")"'',
     ''echo "Once registered, this VM is reachable through the hub at:"'',
     ''echo "  '' @ id_public_url d @ ''/vm/$AGENT_NAME/"'',
     ''echo "MCP endpoint:"'',
     ''echo "  '' @ id_public_url d @ ''/vm/$AGENT_NAME/mcp"'']\<close>

definition script_lines :: "installer_data \<Rightarrow> string list" where
  "script_lines d =
     script_intro d @ script_settings d @ (if id_token_required d then script_token_check d else [])
     @ script_checks d @ script_install @ script_service @ script_update @ script_units @ script_start @ script_farewell d"

definition installer_script :: "installer_data \<Rightarrow> string" where
  "installer_script d = concat (map (\<lambda>l. l @ [nl]) (script_lines d))"

definition handle_installer :: "hub_config \<Rightarrow> (request \<Rightarrow> bool) option \<Rightarrow> request \<Rightarrow> response" where
  "handle_installer cfg auth r =
     respond 200 [(''Content-Type'', ''text/x-shellscript; charset=utf-8''), (''Cache-Control'', ''no-store'')]
       (Script (installer_script (installer_data_for cfg auth r)))"

section \<open>What it discloses\<close>

lemma hidden_token: "(case auth of None \<Rightarrow> True | Some ok \<Rightarrow> \<not> ok r) \<Longrightarrow>
    handle_installer (cfg\<lparr>hc_agent_token := t\<rparr>) auth r = handle_installer cfg auth r"
  by (simp add: handle_installer_def installer_data_for_def Let_def split: option.splits)

lemma token_line: "''AGENT_TOKEN='' @ [CHR 0x22] @ ''${BOXEL_AGENT_TOKEN:-'' @ id_token d @ ''}'' @ [CHR 0x22] \<in> set (script_lines d)"
  by (simp add: script_lines_def script_settings_def)

lemma embedded_token: "ok r \<Longrightarrow> handle_installer cfg (Some ok) r =
    respond 200 [(''Content-Type'', ''text/x-shellscript; charset=utf-8''), (''Cache-Control'', ''no-store'')]
      (Script (installer_script ((installer_data_for cfg (Some ok) r)\<lparr>id_token := hc_agent_token cfg\<rparr>)))"
  by (simp add: handle_installer_def installer_data_for_def Let_def)

text \<open>The forwarded protocol of the request is a part of a command line, between double quotes, as it came.\<close>

lemma embedded_protocol:
  assumes "rq_header r ''X-Forwarded-Proto'' \<noteq> []"
  shows "''  echo '' @ [CHR 0x22] @ ''  curl -fsSL '' @ rq_header r ''X-Forwarded-Proto'' @ ''://'' @ rq_host r @ ''/install-agent | sudo bash'' @
    [CHR 0x22] @ '' >&2'' \<in> set (script_lines (installer_data_for cfg auth r))"
  using assms by (simp add: script_lines_def script_checks_def installer_data_for_def request_base_url_def Let_def)

end
