(* ===== verification/Guard.thy ===== *)
theory Guard
  imports Idp Hubagent Hub_Installer Policy Audit_Log Session Metrics
begin

text \<open>
  The command \<^verbatim>\<open>cmd/tunnel-mcp/main.go\<close>: what the flags add up to (\<^verbatim>\<open>run\<close> up to the
  point where it serves), the authentication layers around the HTTP transport and the
  routes behind them. Files, environment, host name and the like are outside (\<open>startup\<close>).
\<close>

section \<open>Flags\<close>

record opts =
  o_http_addr :: string
  o_workspace :: string
  o_perms_file :: string
  o_mode :: string
  o_audit_path :: string
  o_metrics_addr :: string
  o_token :: string
  o_token_file :: string
  o_owner_email :: string
  o_session_ttl :: duration
  o_hub_agent_token :: string
  o_hub_agent_token_file :: string
  o_hub_agent_owner_email :: string
  o_hub_agent_listen :: string
  o_hub_advertise_url :: string
  o_hub_connect :: bool
  o_hub_url :: string
  o_hub_name :: string
  o_hub_token :: string
  o_hub_token_file :: string
  o_hub_integration :: string
  o_reflection_url :: string
  o_idp_issuer :: string
  o_idp_users :: string
  o_idp_key_file :: string

definition effective_mode :: "string \<Rightarrow> bool \<Rightarrow> bool \<Rightarrow> string" where
  "effective_mode m explicit hub_connect =
     (if hub_connect \<and> \<not> explicit then mode_string ModeBypassPermissions else m)"

record startup =
  su_getwd :: "string + string"
  su_abs :: "string \<Rightarrow> string + string"
  su_is_dir :: "string \<Rightarrow> bool"
  su_load_config :: "string \<Rightarrow> string + config"
  su_eval_symlinks :: "string \<Rightarrow> string option"
  su_working_dir :: "string option"
  su_home :: "string option"
  su_open_audit :: "string \<Rightarrow> string + entry list"
  su_read_file :: "string \<Rightarrow> string + string"
  su_env :: "string \<Rightarrow> string"
  su_hostname :: "string + string"
  su_config_dir :: "string + string"
  su_mkdir :: "string \<Rightarrow> string option"
  su_load_key :: "string \<Rightarrow> string + signing_key"

datatype startup_error = Failure string | PolicyFailure policy_error

text \<open>The three token flags: the flag, the file, the environment.\<close>

definition resolve_from :: "startup \<Rightarrow> string \<Rightarrow> string \<Rightarrow> string \<Rightarrow> string \<Rightarrow> string + string" where
  "resolve_from su what var token token_file =
     (if token \<noteq> [] then Inr token
      else if token_file \<noteq> []
      then (case su_read_file su token_file of
              Inl e \<Rightarrow> Inl (''read '' @ what @ '' file: '' @ e)
            | Inr b \<Rightarrow> Inr (trim_space b))
      else Inr (su_env su var))"

definition resolve_token :: "startup \<Rightarrow> string \<Rightarrow> string \<Rightarrow> string + string" where
  "resolve_token su = resolve_from su ''token'' ''BOXEL_TOKEN''"

definition resolve_agent_token :: "startup \<Rightarrow> string \<Rightarrow> string \<Rightarrow> string + string" where
  "resolve_agent_token su = resolve_from su ''hub token'' ''BOXEL_AGENT_TOKEN''"

definition resolve_hub_token :: "startup \<Rightarrow> opts \<Rightarrow> string + string" where
  "resolve_hub_token su fl =
     then_ok (if o_hub_agent_token fl = [] \<and> o_hub_agent_token_file fl \<noteq> []
              then (case su_read_file su (o_hub_agent_token_file fl) of
                      Inl e \<Rightarrow> Inl (''read hub agent token file: '' @ e)
                    | Inr b \<Rightarrow> Inr (trim_space b))
              else Inr (o_hub_agent_token fl))
       (\<lambda>t. let token = (if t = [] then su_env su ''BOXEL_HUB_AGENT_TOKEN'' else t)
            in if token = [] \<and> o_hub_agent_owner_email fl = [] \<and> (o_hub_agent_listen fl \<noteq> [] \<or> o_hub_advertise_url fl \<noteq> [])
               then Inl ''--hub-agent-listen/--hub-advertise-url require a registration method: pass --hub-agent-token/--hub-agent-token-file/$BOXEL_HUB_AGENT_TOKEN and/or --hub-agent-owner-email''
               else Inr token)"

definition default_idp_issuer :: "(string \<Rightarrow> string) \<Rightarrow> startup \<Rightarrow> string" where
  "default_idp_issuer ul su =
     (case su_hostname su of Inl e \<Rightarrow> []
      | Inr h \<Rightarrow>
          let short = to_lower ul (fst (cut_char CHR ''.'' h))
          in if short = [] then [] else ''https://'' @ short @ ''.exe.xyz'')"

definition split_emails :: "string \<Rightarrow> string list" where
  "split_emails s = filter (\<lambda>e. e \<noteq> []) (map trim_space (split_char CHR '','' s))"

section \<open>Credentials\<close>

definition exe_email_header :: string where "exe_email_header = ''X-ExeDev-Email''"
definition exe_login_path :: string where "exe_login_path = ''/__exe.dev/login''"
definition exe_logout_path :: string where "exe_logout_path = ''/__exe.dev/logout''"

definition bearer_ok :: "request \<Rightarrow> string \<Rightarrow> bool" where
  "bearer_ok r token =
     (has_prefix (rq_header r ''Authorization'') ''Bearer '' \<and> trim_prefix (rq_header r ''Authorization'') ''Bearer '' = token)"

definition exe_identity_ok :: "(string \<Rightarrow> string) \<Rightarrow> request \<Rightarrow> string \<Rightarrow> bool" where
  "exe_identity_ok ul r owner =
     (let want = to_lower ul (trim_space owner); got = to_lower ul (trim_space (rq_header r exe_email_header))
      in got \<noteq> [] \<and> got = want)"

definition browser_navigation :: "request \<Rightarrow> bool" where
  "browser_navigation r =
     (if rq_method r \<noteq> ''GET'' \<and> rq_method r \<noteq> ''HEAD'' then False else str_contains (rq_header r ''Accept'') ''text/html'')"

definition request_origin :: "request \<Rightarrow> string" where
  "request_origin r =
     (let xp = rq_header r ''X-Forwarded-Proto'';
          scheme = (if xp = [] then (if rq_tls r then ''https'' else ''http'') else xp);
          xh = rq_header r ''X-Forwarded-Host'';
          host = (if xh = [] then rq_host r else xh)
      in scheme @ ''://'' @ host)"

definition serve_sign_in_page :: "idp_env \<Rightarrow> (string \<times> string) list \<Rightarrow> request \<Rightarrow> string \<Rightarrow> nat \<Rightarrow> response" where
  "serve_sign_in_page env hs r email code =
     (let uri = ie_request_uri env r;
          target = (if \<not> has_prefix uri ''/'' \<or> has_prefix uri ''//'' then ''/'' else uri)
      in respond code (hs @ [(''Content-Type'', ''text/html; charset=utf-8''), (''Cache-Control'', ''no-store'')])
           (Page ''signin''
             [(''Email'', JStr email), (''LoginURL'', JStr (exe_login_path @ ''?redirect='' @ ie_query_escape env target)),
              (''LogoutPath'', JStr exe_logout_path)]))"

section \<open>The layers\<close>

record auth =
  au_bearer :: string
  au_owner :: string
  au_oauth :: "verifier option"

definition static_methods :: "string \<Rightarrow> string \<Rightarrow> string list" where
  "static_methods bearer owner =
     (if bearer \<noteq> [] then [''bearer''] else []) @ (if owner \<noteq> [] then [''exe-identity('' @ owner @ '')''] else [])"

definition auth_layers :: "string \<Rightarrow> string \<Rightarrow> verifier option \<Rightarrow> string + auth \<times> string" where
  "auth_layers bearer owner oauth =
     (let static = static_methods bearer owner;
          methods = (if static \<noteq> [] then [join_with ''+'' static] else [])
            @ (case oauth of None \<Rightarrow> [] | Some v \<Rightarrow> [''oauth('' @ vf_issuer v @ '')''])
      in if methods = []
         then Inl ''HTTP transport requires authentication: pass --token/--token-file/$BOXEL_TOKEN, --owner-email, and/or --idp-issuer (the invoke tool is authenticated RCE; refusing to listen unauthenticated)''
         else Inr (\<lparr>au_bearer = bearer, au_owner = owner, au_oauth = oauth\<rparr>, join_with '' or '' methods))"

definition static_ok :: "(string \<Rightarrow> string) \<Rightarrow> auth \<Rightarrow> request \<Rightarrow> bool" where
  "static_ok ul a r =
     (if static_methods (au_bearer a) (au_owner a) = [] then False
      else if au_bearer a \<noteq> [] \<and> \<not> bearer_ok r (au_bearer a) then False
      else if au_owner a \<noteq> [] \<and> \<not> exe_identity_ok ul r (au_owner a) then False
      else True)"

definition oauth_ok :: "idp_env \<Rightarrow> time \<Rightarrow> auth \<Rightarrow> request \<Rightarrow> bool" where
  "oauth_ok env now a r =
     (case au_oauth a of None \<Rightarrow> False
      | Some v \<Rightarrow> (case verify_request env now v r of Inl e \<Rightarrow> False | Inr email \<Rightarrow> True))"

definition auth_ok :: "idp_env \<Rightarrow> time \<Rightarrow> auth \<Rightarrow> request \<Rightarrow> bool" where
  "auth_ok env now a r = (static_ok (ie_lower env) a r \<or> oauth_ok env now a r)"

text \<open>What the guard answers itself, \<^const>\<open>None\<close> when it passes the request on.\<close>

definition refuse :: "idp_env \<Rightarrow> auth \<Rightarrow> request \<Rightarrow> response" where
  "refuse env a r =
     (let plain = ''Bearer realm='' @ [CHR 0x22] @ ''tunnel-mcp'' @ [CHR 0x22];
          challenge = (case au_oauth a of None \<Rightarrow> plain
            | Some v \<Rightarrow> plain @ '', resource_metadata='' @
                ie_quote env (request_origin r @ ''/.well-known/oauth-protected-resource'' @ rq_path r));
          hs = [(''WWW-Authenticate'', challenge)];
          who = trim_space (rq_header r exe_email_header)
      in if au_bearer a \<noteq> [] \<and> \<not> bearer_ok r (au_bearer a) then http_error hs ''unauthorized'' 401
         else if au_owner a \<noteq> [] \<and> who = []
         then (if browser_navigation r then serve_sign_in_page env hs r [] 401
               else http_error hs ''unauthorized: missing exe.dev identity'' 401)
         else if au_owner a \<noteq> []
         then (if browser_navigation r then serve_sign_in_page env hs r who 403
               else http_error hs ''forbidden: not the authorized owner'' 403)
         else http_error hs ''unauthorized'' 401)"

definition guard :: "idp_env \<Rightarrow> time \<Rightarrow> auth \<Rightarrow> request \<Rightarrow> response option" where
  "guard env now a r = (if auth_ok env now a r then None else Some (refuse env a r))"

definition is_public_path :: "string \<Rightarrow> bool" where
  "is_public_path p =
     (if p = ''/healthz'' \<or> p = connect_path \<or> p = installer_path then True
      else has_prefix p ''/.well-known/'' \<or> has_prefix p ''/idp/'')"

definition with_guard :: "idp_env \<Rightarrow> time \<Rightarrow> auth \<Rightarrow> request \<Rightarrow> response option" where
  "with_guard env now a r = (if is_public_path (rq_path r) then None else guard env now a r)"

section \<open>Routes\<close>

definition metadata_path :: string where "metadata_path = ''/.well-known/oauth-protected-resource''"

definition resource_metadata :: "string \<Rightarrow> request \<Rightarrow> response" where
  "resource_metadata issuer r =
     (let s = trim_prefix (rq_path r) metadata_path;
          suffix = (if s = [] \<or> s = ''/'' then ''/mcp'' else s)
      in respond 200 [(''Access-Control-Allow-Origin'', ''*''), (''Content-Type'', ''application/json'')]
           (JsonBody (JObj [(''resource'', JStr (request_origin r @ suffix)),
              (''authorization_servers'', JArr [JStr issuer]), (''bearer_methods_supported'', JArr [JStr ''header''])])))"

datatype route = Mcp | Healthz | IdpRoute idp_route | ResourceMetadata | HubRoute hub_route

text \<open>
  The patterns \<^verbatim>\<open>run\<close> registers. The mux matches the escaped path segment by segment and
  compares the decoded segments, so a decoded segment may contain a slash; \<open>segs\<close> are the
  decoded segments, and the decoded path the guard sees is their concatenation.
\<close>

definition slashed :: "string list \<Rightarrow> string" where
  "slashed segs = concat (map (\<lambda>s. slash # s) segs)"

definition hub_route_segs :: "string \<Rightarrow> string list \<Rightarrow> hub_route option" where
  "hub_route_segs verb segs =
     (let get = (verb = ''GET'' \<or> verb = ''HEAD'')
      in case segs of
           [a] \<Rightarrow> if a = [] \<and> get then Some Dashboard else if a = ''agents'' \<and> get then Some AgentsRoute
                  else if a = ''install-agent'' \<and> get then Some InstallerRoute else None
         | [a, b] \<Rightarrow> if a = ''hub'' \<and> b = ''connect'' \<and> get then Some Connect
                     else if a = ''vm'' \<and> b \<noteq> [] then Some (RedirectVM b) else None
         | a # b # c # rest \<Rightarrow> if a = ''vm'' \<and> b \<noteq> [] then Some (ProxyVM b) else None
         | [] \<Rightarrow> None)"

definition main_route :: "bool \<Rightarrow> bool \<Rightarrow> string \<Rightarrow> string list \<Rightarrow> route option" where
  "main_route idp hub verb segs =
     (if segs = [''mcp''] then Some Mcp
      else if segs = [''healthz''] then Some Healthz
      else if idp \<and> (verb = ''GET'' \<or> verb = ''HEAD'') \<and> 2 \<le> length segs \<and> take 2 segs = [''.well-known'', ''oauth-protected-resource'']
      then Some ResourceMetadata
      else case (if idp \<and> list_all (\<lambda>s. slash \<notin> set s) segs then idp_route_of verb (slashed segs) else None) of
        Some ir \<Rightarrow> Some (IdpRoute ir)
      | None \<Rightarrow> if hub then map_option HubRoute (hub_route_segs verb segs) else None)"

definition public_route :: "route \<Rightarrow> bool" where
  "public_route rt = (case rt of Mcp \<Rightarrow> False | Healthz \<Rightarrow> True | IdpRoute ir \<Rightarrow> True | ResourceMetadata \<Rightarrow> True
     | HubRoute h \<Rightarrow> \<not> guarded h)"

section \<open>Start-up\<close>

record http_plan =
  hp_auth :: auth
  hp_idp :: "idp_server option"
  hp_hub :: "hub_config option"
  hp_dials :: bool

datatype run_plan = AgentOnly | Stdio | ServeHttp http_plan

definition build_idp :: "idp_env \<Rightarrow> startup \<Rightarrow> opts \<Rightarrow> string + idp_server" where
  "build_idp env su fl =
     (if o_idp_issuer fl = [] then Inl ''the built-in IDP requires --idp-issuer (the external base URL, e.g. https://myvm.exe.xyz)''
      else let users0 = split_emails (o_idp_users fl);
               users = (if users0 = [] \<and> o_owner_email fl \<noteq> [] then [o_owner_email fl] else users0)
      in if users = [] then Inl ''the built-in IDP requires an allowlist: pass --idp-users (or --owner-email)''
      else then_ok
        (if o_idp_key_file fl \<noteq> [] then Inr (o_idp_key_file fl)
         else case su_config_dir su of
           Inl e \<Rightarrow> Inl (''cannot locate the default --idp-key-file directory: '' @ e)
         | Inr d \<Rightarrow>
             (case su_mkdir su (path_join [d, ''boxel'']) of
                Some e \<Rightarrow> Inl (''create idp key directory: '' @ e)
              | None \<Rightarrow> Inr (path_join [d, ''boxel'', ''idp-key.pem''])))
        (\<lambda>key_file. then_ok (su_load_key su key_file)
        (\<lambda>key. new_idp env \<lparr>ic_issuer = o_idp_issuer fl, ic_users = users, ic_key = Some key,
           ic_access_ttl = 0, ic_refresh_ttl = 0, ic_code_ttl = 0\<rparr>)))"

text \<open>The HTTP part: the credentials, the identity provider and the hub.\<close>

definition plan_http :: "idp_env \<Rightarrow> startup \<Rightarrow> opts \<Rightarrow> bool \<Rightarrow> string \<Rightarrow> string + http_plan" where
  "plan_http env su fl idp_disabled hub_token =
     then_ok (resolve_token su (o_token fl) (o_token_file fl)) (\<lambda>bearer.
     let issuer = (if \<not> idp_disabled \<and> o_idp_issuer fl = [] \<and> o_owner_email fl \<noteq> [] \<and> bearer = []
                   then default_idp_issuer (ie_lower env) su else o_idp_issuer fl)
     in then_ok (if issuer \<noteq> [] then map_sum id Some (build_idp env su (fl\<lparr>o_idp_issuer := issuer\<rparr>)) else Inr None) (\<lambda>idp.
     then_ok (auth_layers bearer (o_owner_email fl) (map_option idp_verifier idp)) (\<lambda>(auth, desc).
     Inr \<lparr>hp_auth = auth, hp_idp = idp,
          hp_hub = (if hub_token \<noteq> [] \<or> o_hub_agent_owner_email fl \<noteq> []
                    then Some \<lparr>hc_agent_token = hub_token, hc_owner_email = o_hub_agent_owner_email fl,
                               hc_advertise_url = o_hub_advertise_url fl, hc_version = []\<rparr>
                    else None),
          hp_dials = o_hub_connect fl\<rparr>)))"

definition lift_error :: "string + 'a \<Rightarrow> startup_error + 'a" where
  "lift_error x = map_sum Failure id x"

text \<open>What the tunnel server is built from.\<close>

record server_parts =
  sp_engine :: engine
  sp_sessions :: manager
  sp_audit :: logger
  sp_metrics :: metrics

definition plan_run :: "idp_env \<Rightarrow> (string \<Rightarrow> string \<Rightarrow> bool) \<Rightarrow> startup \<Rightarrow> opts \<Rightarrow> startup_error + server_parts \<times> run_plan" where
  "plan_run env fold_eq su fl =
     (if \<not> ValidMode (o_mode fl) then Inl (Failure (''invalid --permission-mode '' @ ie_quote env (o_mode fl)))
      else then_ok (lift_error (if o_workspace fl = [] then su_getwd su else Inr (o_workspace fl))) (\<lambda>w0.
      then_ok (lift_error (su_abs su w0)) (\<lambda>workspace.
      check_that (su_is_dir su workspace) (Failure (''workspace '' @ ie_quote env workspace @ '' is not a directory''))
      (then_ok (lift_error (if o_perms_file fl \<noteq> [] then su_load_config su (o_perms_file fl)
                            else Inr \<lparr>cfg_allow = [], cfg_ask = [], cfg_deny = []\<rparr>)) (\<lambda>cfg.
      then_ok (map_sum PolicyFailure id (new_engine (su_eval_symlinks su) (su_working_dir su) (su_home su) cfg (o_mode fl) workspace)) (\<lambda>e.
      then_ok (lift_error (new_logger (o_audit_path fl) (su_open_audit su (o_audit_path fl)))) (\<lambda>log.
      then_ok (lift_error (resolve_hub_token su fl)) (\<lambda>hub_token.
      let srv = \<lparr>sp_engine = e, sp_sessions = new_manager workspace (o_session_ttl fl), sp_audit = log, sp_metrics = new_metrics\<rparr>;
          hub_enabled = (hub_token \<noteq> [] \<or> o_hub_agent_owner_email fl \<noteq> []);
          disabled = equal_fold fold_eq (o_idp_issuer fl) ''none'';
          fl' = (if disabled then fl\<lparr>o_idp_issuer := []\<rparr> else fl)
      in if o_idp_issuer fl' \<noteq> [] \<and> o_http_addr fl' = []
         then Inl (Failure ''the built-in IDP requires the HTTP transport: pass --http'')
         else if o_hub_connect fl' \<and> o_http_addr fl' = []
         then (if hub_enabled
               then Inl (Failure (''--hub-connect is the agent side; hub-server mode (--hub-agent-*) needs --http '' @
                 [CHR 0xE2, CHR 0x80, CHR 0x94] @ '' don'' @ [CHR 0x27] @ ''t combine them without a listener''))
               else Inr (srv, AgentOnly))
         else if o_http_addr fl' = []
         then (if hub_enabled then Inl (Failure ''the pull-mode hub requires the HTTP transport: pass --http'')
               else Inr (srv, Stdio))
         else map_sum Failure (\<lambda>p. (srv, ServeHttp p)) (plan_http env su fl' disabled hub_token)))))))))"

section \<open>The agent side\<close>

text \<open>The in-process mux of \<^verbatim>\<open>runHubAgent\<close>, on clean paths.\<close>

definition agent_mux :: "(request \<Rightarrow> response) \<Rightarrow> request \<Rightarrow> response" where
  "agent_mux mcp r =
     (if rq_path r = ''/mcp'' then mcp r
      else if rq_path r = ''/healthz'' then respond 200 [] (Plain (''ok'' @ [nl]))
      else http_error [] ''404 page not found'' 404)"

definition hub_agent_config :: "idp_env \<Rightarrow> startup \<Rightarrow> opts \<Rightarrow> string \<Rightarrow> (request \<Rightarrow> response) \<Rightarrow> string + agent_config" where
  "hub_agent_config env su fl version mcp =
     then_ok (if o_hub_name fl \<noteq> [] then Inr (o_hub_name fl)
              else case su_hostname su of
                Inl e \<Rightarrow> Inl (''cannot derive agent name from hostname ('' @ e @ ''); pass --hub-name'')
              | Inr h \<Rightarrow> Inr (to_lower (ie_lower env) (fst (cut_char CHR ''.'' h)))) (\<lambda>name.
     then_ok (resolve_agent_token su (o_hub_token fl) (o_hub_token_file fl)) (\<lambda>token.
     Inr \<lparr>gc_hub_url = o_hub_url fl, gc_reflection_url = o_reflection_url fl, gc_hub_integration = o_hub_integration fl,
          gc_token = token, gc_name = name, gc_handler = Some (agent_mux mcp), gc_target = [], gc_target_token = [],
          gc_version = version, gc_min_backoff = 0, gc_max_backoff = 0, gc_dial_timeout = 0\<rparr>))"

end
