(* ===== verification/Guard_Safety.thy ===== *)
theory Guard_Safety
  imports Guard
begin

text \<open>
  What the guard lets through, what counts as authenticated, and that no combination of
  flags serves HTTP without a credential to ask for.
\<close>

section \<open>Public paths and public routes\<close>

lemma slashed_simps [simp]: "slashed [] = []" "slashed (s # segs) = slash # s @ slashed segs"
  by (simp_all add: slashed_def)

lemma slashed_eq_Nil [simp]: "slashed segs = [] \<longleftrightarrow> segs = []"
  by (cases segs) simp_all

lemmas public_simps = is_public_path_def connect_path_def installer_path_def has_prefix_def

lemma public_vm: "\<not> is_public_path (slash # ''vm'' @ slashed segs)"
  by (cases segs) (simp_all add: public_simps)

lemma idp_paths_public:
  "is_public_path ''/.well-known/openid-configuration''" "is_public_path ''/.well-known/oauth-authorization-server''"
  "is_public_path jwks_path" "is_public_path register_path" "is_public_path authorize_path" "is_public_path token_path"
  "is_public_path userinfo_path"
  by (simp_all add: public_simps jwks_path_def register_path_def authorize_path_def token_path_def userinfo_path_def)

lemma idp_routes_public: "idp_route_of verb p = Some ir \<Longrightarrow> is_public_path p"
  unfolding idp_route_of_def using idp_paths_public by (auto split: if_splits)

lemma list_cases3: "xs = [] \<or> (\<exists>a. xs = [a]) \<or> (\<exists>a b. xs = [a, b]) \<or> (\<exists>a b c rest. xs = a # b # c # rest)"
  by (metis neq_Nil_conv)

lemma hub_routes_public:
  assumes "hub_route_segs verb segs = Some h"
  shows "is_public_path (slashed segs) \<longleftrightarrow> \<not> guarded h"
proof -
  consider "segs = []" | a where "segs = [a]" | a b where "segs = [a, b]" | a b c rest where "segs = a # b # c # rest"
    using list_cases3 [of segs] by blast
  then show ?thesis
  proof cases
    case 1
    then show ?thesis using assms by (simp add: hub_route_segs_def)
  next
    case (2 a)
    consider "a = []" "h = Dashboard" | "a = ''agents''" "h = AgentsRoute" | "a = ''install-agent''" "h = InstallerRoute"
      using 2 assms by (auto simp: hub_route_segs_def Let_def split: if_splits)
    then show ?thesis by cases (simp_all add: 2 guarded_def public_simps)
  next
    case (3 a b)
    consider "a = ''hub''" "b = ''connect''" "h = Connect" | "a = ''vm''" "h = RedirectVM b"
      using 3 assms by (auto simp: hub_route_segs_def split: if_splits)
    then show ?thesis
    proof cases
      case 1
      then show ?thesis by (simp add: 3 guarded_def public_simps)
    next
      case 2
      then show ?thesis using public_vm [of "[b]"] by (simp add: 3 guarded_def)
    qed
  next
    case (4 a b c rest)
    then have "a = ''vm''" "h = ProxyVM b" using assms by (auto simp: hub_route_segs_def split: if_splits)
    then show ?thesis using public_vm [of "b # c # rest"] by (simp add: 4 guarded_def)
  qed
qed

lemma metadata_public: "2 \<le> length segs \<Longrightarrow> take 2 segs = [''.well-known'', ''oauth-protected-resource''] \<Longrightarrow> is_public_path (slashed segs)"
  by (cases segs; cases "tl segs") (auto simp: public_simps)

lemma public_iff:
  assumes "main_route idp hub verb segs = Some rt"
  shows "is_public_path (slashed segs) \<longleftrightarrow> public_route rt"
proof -
  consider "segs = [''mcp'']" "rt = Mcp" | "segs = [''healthz'']" "rt = Healthz"
    | "2 \<le> length segs" "take 2 segs = [''.well-known'', ''oauth-protected-resource'']" "rt = ResourceMetadata"
    | ir where "idp_route_of verb (slashed segs) = Some ir" "rt = IdpRoute ir"
    | h where "hub_route_segs verb segs = Some h" "rt = HubRoute h"
    using assms by (auto simp: main_route_def split: if_splits option.splits)
  then show ?thesis
  proof cases
    case 3
    then show ?thesis using metadata_public by (simp add: public_route_def)
  next
    case 4
    then show ?thesis using idp_routes_public by (simp add: public_route_def)
  next
    case 5
    then show ?thesis using hub_routes_public by (simp add: public_route_def)
  qed (simp_all add: public_route_def public_simps)
qed

lemma with_guard_iff:
  assumes "main_route idp hub (rq_method r) segs = Some rt" and "rq_path r = slashed segs"
  shows "with_guard env now a r = None \<longleftrightarrow> public_route rt \<or> auth_ok env now a r"
  using public_iff [OF assms(1)] assms(2) by (simp add: with_guard_def guard_def)

text \<open>
  C7. Default deny: for every method and every path, encoded slashes included, the guard
  passes a request on to a route exactly when the route is one of the public ones (health,
  discovery, the OAuth endpoints, agent registration, the installer) or the request is
  authenticated. The MCP endpoint, the dashboard, the roster and the proxies are not public.
\<close>

theorem default_deny:
  assumes "main_route idp hub (rq_method r) segs = Some rt" and "rq_path r = slashed segs"
  shows "with_guard env now a r = None \<longleftrightarrow> public_route rt \<or> auth_ok env now a r"
  using assms by (rule with_guard_iff)

section \<open>What counts as authenticated\<close>

lemma bearer_ok_iff: "bearer_ok r token \<longleftrightarrow> rq_header r ''Authorization'' = ''Bearer '' @ token"
  unfolding bearer_ok_def by (rule prefix_trim_eq)

lemma static_methods_Nil: "static_methods b w = [] \<longleftrightarrow> b = [] \<and> w = []"
  by (simp add: static_methods_def)

lemma auth_ok_iff:
  assumes "auth_layers bearer owner oauth = Inr (a, desc)"
  shows "auth_ok env now a r \<longleftrightarrow>
    (bearer \<noteq> [] \<or> owner \<noteq> [])
      \<and> (bearer \<noteq> [] \<longrightarrow> rq_header r ''Authorization'' = ''Bearer '' @ bearer)
      \<and> (owner \<noteq> [] \<longrightarrow> exe_identity_ok (ie_lower env) r owner)
    \<or> (\<exists>v email. oauth = Some v \<and> verify_request env now v r = Inr email)"
proof -
  have a: "a = \<lparr>au_bearer = bearer, au_owner = owner, au_oauth = oauth\<rparr>"
    using assms by (simp add: auth_layers_def Let_def split: if_splits)
  have "static_ok (ie_lower env) a r \<longleftrightarrow> (bearer \<noteq> [] \<or> owner \<noteq> [])
      \<and> (bearer \<noteq> [] \<longrightarrow> rq_header r ''Authorization'' = ''Bearer '' @ bearer)
      \<and> (owner \<noteq> [] \<longrightarrow> exe_identity_ok (ie_lower env) r owner)"
    by (auto simp: a static_ok_def static_methods_Nil bearer_ok_iff)
  moreover have "oauth_ok env now a r \<longleftrightarrow> (\<exists>v email. oauth = Some v \<and> verify_request env now v r = Inr email)"
    by (auto simp: a oauth_ok_def split: option.split sum.split)
  ultimately show ?thesis by (simp add: auth_ok_def)
qed


lemma no_credentials:
  assumes "rq_header r ''Authorization'' = []" and "trim_space (rq_header r exe_email_header) = []"
  shows "\<not> auth_ok env now a r"
proof -
  have "\<not> has_prefix [] ''Bearer ''" by (simp add: has_prefix_iff)
  then have "\<not> oauth_ok env now a r"
    using assms(1) by (auto simp: oauth_ok_def verify_request_def Let_def split: option.split)
  moreover have "\<not> static_ok (ie_lower env) a r"
    using assms by (auto simp: static_ok_def static_methods_Nil bearer_ok_iff exe_identity_ok_def Let_def)
  ultimately show ?thesis by (simp add: auth_ok_def)
qed

section \<open>Start-up\<close>

lemma plan_http_parts:
  assumes "plan_http env su fl disabled tok = Inr p"
  obtains bearer idp desc where "resolve_token su (o_token fl) (o_token_file fl) = Inr bearer"
    "auth_layers bearer (o_owner_email fl) (map_option idp_verifier idp) = Inr (hp_auth p, desc)" "hp_idp p = idp"
    "bearer \<noteq> [] \<Longrightarrow> o_idp_issuer fl = [] \<Longrightarrow> idp = None"
proof -
  obtain bearer where b: "resolve_token su (o_token fl) (o_token_file fl) = Inr bearer"
    using assms unfolding plan_http_def by (blast dest: then_ok_Inr [THEN iffD1])
  let ?issuer = "if \<not> disabled \<and> o_idp_issuer fl = [] \<and> o_owner_email fl \<noteq> [] \<and> bearer = []
                   then default_idp_issuer (ie_lower env) su else o_idp_issuer fl"
  note p = assms [unfolded plan_http_def b then_ok_simps Let_def]
  obtain idp where i: "(if ?issuer \<noteq> [] then map_sum id Some (build_idp env su (fl\<lparr>o_idp_issuer := ?issuer\<rparr>)) else Inr None) = Inr idp"
    using iffD1 [OF then_ok_Inr, OF p] by blast
  note p = p [unfolded i then_ok_simps]
  obtain x where x: "auth_layers bearer (o_owner_email fl) (map_option idp_verifier idp) = Inr x"
    using iffD1 [OF then_ok_Inr, OF p] by blast
  with p have "auth_layers bearer (o_owner_email fl) (map_option idp_verifier idp) = Inr (hp_auth p, snd x)" "hp_idp p = idp"
    by (auto split: prod.splits)
  moreover have "idp = None" if "bearer \<noteq> []" "o_idp_issuer fl = []" using i that by simp
  ultimately show thesis using that b by blast
qed

lemma plan_run_http:
  assumes "plan_run env fe su fl = Inr (e, ServeHttp p)"
  shows "\<exists>tok. plan_http env su (if equal_fold fe (o_idp_issuer fl) ''none'' then fl\<lparr>o_idp_issuer := []\<rparr> else fl)
    (equal_fold fe (o_idp_issuer fl) ''none'') tok = Inr p"
proof -
  have m: "map_sum Failure (\<lambda>q. (e', ServeHttp q)) x = Inr (e, ServeHttp p) \<Longrightarrow> x = Inr p" for x e'
    by (cases x) auto
  show ?thesis
    using assms unfolding plan_run_def
    by (auto simp: check_that_def Let_def split: if_splits dest!: then_ok_Inr [THEN iffD1] m) blast+
qed

text \<open>
  C10. No combination of flags, files and environment serves HTTP unauthenticated: there is
  always at least one way to authenticate, a request that carries neither a token nor an
  identity is never authenticated, and a configured bearer token is not weakened by OAuth
  unless an issuer was asked for.
\<close>

theorem never_unauthenticated:
  assumes "plan_run env fe su fl = Inr (e, ServeHttp p)"
  shows "(au_bearer (hp_auth p) \<noteq> [] \<or> au_owner (hp_auth p) \<noteq> [] \<or> au_oauth (hp_auth p) \<noteq> None)
    \<and> (rq_header r ''Authorization'' = [] \<and> trim_space (rq_header r exe_email_header) = [] \<longrightarrow> \<not> auth_ok env now (hp_auth p) r)
    \<and> (au_bearer (hp_auth p) \<noteq> [] \<and> (o_idp_issuer fl = [] \<or> equal_fold fe (o_idp_issuer fl) ''none'') \<longrightarrow> au_oauth (hp_auth p) = None)"
proof -
  let ?fl = "if equal_fold fe (o_idp_issuer fl) ''none'' then fl\<lparr>o_idp_issuer := []\<rparr> else fl"
  obtain tok where p: "plan_http env su ?fl (equal_fold fe (o_idp_issuer fl) ''none'') tok = Inr p"
    using plan_run_http [OF assms] by blast
  obtain bearer idp desc where h: "auth_layers bearer (o_owner_email ?fl) (map_option idp_verifier idp) = Inr (hp_auth p, desc)"
    "bearer \<noteq> [] \<Longrightarrow> o_idp_issuer ?fl = [] \<Longrightarrow> idp = None"
    using p by (rule plan_http_parts) blast
  have a: "hp_auth p = \<lparr>au_bearer = bearer, au_owner = o_owner_email ?fl, au_oauth = map_option idp_verifier idp\<rparr>"
    "bearer \<noteq> [] \<or> o_owner_email ?fl \<noteq> [] \<or> idp \<noteq> None"
    using h(1) by (auto simp: auth_layers_def Let_def static_methods_Nil split: if_splits option.splits)
  have "au_oauth (hp_auth p) = None"
    if "au_bearer (hp_auth p) \<noteq> []" "o_idp_issuer fl = [] \<or> equal_fold fe (o_idp_issuer fl) ''none''"
    using h(2) that a(1) by auto
  with a no_credentials show ?thesis by auto
qed

text \<open>
  A token file that holds only white space configures no token, and hides the environment
  variable: with an owner e-mail beside it, the server starts with the identity layer alone.
\<close>

lemma blank_token_file: "f \<noteq> [] \<Longrightarrow> su_read_file su f = Inr b \<Longrightarrow> trim_space b = [] \<Longrightarrow> resolve_token su [] f = Inr []"
  by (simp add: resolve_token_def resolve_from_def)

end
