(* ===== verification/Idp_Flow.thy ===== *)
theory Idp_Flow
  imports Idp
begin

text \<open>
  The identity provider under attack: anybody may send any request, but cannot sign with
  the server's key (\<open>unforged\<close>: a presented token whose signature verifies is one the
  server signed). The flow theorems trace an accepted access token back to the consent
  its user gave, and bound how often a code is redeemed.
\<close>

section \<open>The system\<close>

record idp_sys =
  is_server :: idp_server
  is_signed :: "claims list"

datatype idp_event =
    AskConsent idp_world request
  | GiveConsent idp_world "string \<Rightarrow> string" request
  | AskToken idp_world "string \<Rightarrow> string"

definition known_input :: "idp_env \<Rightarrow> idp_sys \<Rightarrow> string \<Rightarrow> bool" where
  "known_input env s t =
     (\<exists>c\<in>set (is_signed s). signing_input (ie_jwt env) (ip_kid (is_server s)) c = Some (token_input t))"

definition signature_of :: "string \<Rightarrow> string option" where
  "signature_of t = (case split_char CHR ''.'' t of [h, p, s] \<Rightarrow> b64u_decode s | _ \<Rightarrow> None)"

definition unforged :: "idp_env \<Rightarrow> idp_sys \<Rightarrow> string \<Rightarrow> bool" where
  "unforged env s t =
     (case signature_of t of None \<Rightarrow> True
      | Some sig \<Rightarrow>
          je_verify (ie_jwt env) (ip_pub (is_server s)) (je_sha256 (ie_jwt env) (token_input t)) sig \<longrightarrow> known_input env s t)"

text \<open>The claim sets a handler signed, each with its text read back as it was written.\<close>

definition recorded :: "idp_env \<Rightarrow> claims list \<Rightarrow> idp_sys \<Rightarrow> idp_sys \<Rightarrow> bool" where
  "recorded env cs s t =
     (list_all (\<lambda>c. codec_at (ie_jwt env) (JObj (sort_key fst c))) cs \<and> is_signed t = cs @ is_signed s)"

inductive idp_step :: "idp_env \<Rightarrow> idp_sys \<Rightarrow> idp_event \<Rightarrow> idp_sys \<Rightarrow> bool" for env where
  idp_get: "authorize_get env w (is_server s) r = (res, cs) \<Longrightarrow> recorded env cs s t \<Longrightarrow> is_server t = is_server s
    \<Longrightarrow> idp_step env s (AskConsent w r) t"
| idp_post: "unforged env s (f ''req'') \<Longrightarrow> authorize_post env w (is_server s) (Some f) r = (res, cs)
    \<Longrightarrow> recorded env cs s t \<Longrightarrow> is_server t = is_server s \<Longrightarrow> idp_step env s (GiveConsent w f r) t"
| idp_token: "unforged env s (f ''code'') \<Longrightarrow> unforged env s (f ''refresh_token'')
    \<Longrightarrow> handle_token env w (Some f) (is_server s) = ((res, cs), is_server t) \<Longrightarrow> recorded env cs s t
    \<Longrightarrow> idp_step env s (AskToken w f) t"

inductive_cases idp_stepE: "idp_step env s e t"
inductive_simps idp_step_get: "idp_step env s (AskConsent w r) t"
inductive_simps idp_step_token: "idp_step env s (AskToken w f) t"

definition start_idp :: "idp_server \<Rightarrow> idp_sys" where
  "start_idp srv = \<lparr>is_server = srv, is_signed = []\<rparr>"

section \<open>Accepted tokens are known\<close>

lemma verify_known:
  assumes "verify_jwt (ie_jwt env) now (\<lambda>k. if k \<noteq> kid then Inl (UnknownKey k) else Inr (ip_pub (is_server s))) t = Inr c"
    and "unforged env s t" and "\<forall>c\<in>set (is_signed s). codec_at (ie_jwt env) (JObj (sort_key fst c))"
  shows "\<exists>c0\<in>set (is_signed s). c = read_back c0"
proof -
  obtain h p sg hb kid' pub sig pb where v: "split_char CHR ''.'' t = [h, p, sg]" "b64u_decode sg = Some sig"
    "(if kid' \<noteq> kid then Inl (UnknownKey kid') else Inr (ip_pub (is_server s))) = Inr pub"
    "je_verify (ie_jwt env) pub (je_sha256 (ie_jwt env) (token_input t)) sig" "b64u_decode p = Some pb"
    "unmarshal_claims (ie_jwt env) pb = Some c"
    using assms(1) by (rule verify_jwt_ok) blast
  have "pub = ip_pub (is_server s)" using v(3) by (auto split: if_splits)
  then have "known_input env s t"
    using assms(2) v(1,2,4) by (simp add: unforged_def signature_of_def)
  then obtain c0 where c0: "c0 \<in> set (is_signed s)"
    "signing_input (ie_jwt env) (ip_kid (is_server s)) c0 = Some (token_input t)"
    by (auto simp: known_input_def)
  obtain pb' where "p = b64u pb'" and m: "marshal_claims (ie_jwt env) c0 = Some pb'"
    using v(1) c0(2) by (rule input_parts)
  then have "pb' = pb" using v(5) by (simp add: b64u_decode_b64u)
  then show ?thesis using marshal_read_back [OF assms(3) [rule_format, OF c0(1)]] m v(6) c0(1) by auto
qed

section \<open>What the handlers sign\<close>

lemma authorize_get_signs:
  "authorize_get env w srv r = (res, cs) \<Longrightarrow>
    cs = [] \<or> cs = [request_claims env w srv (trim_space (rq_header r idp_header_exe_email)) r]"
  by (auto simp: authorize_get_def Let_def split: option.splits if_splits)

definition consents :: "idp_env \<Rightarrow> idp_server \<Rightarrow> string \<Rightarrow> idp_event \<Rightarrow> bool" where
  "consents env srv e ev =
     (case ev of
        GiveConsent w f r \<Rightarrow> f ''decision'' = ''approve'' \<and> allowed env srv e
          \<and> e = to_lower (ie_lower env) (trim_space (rq_header r idp_header_exe_email))
      | _ \<Rightarrow> False)"

lemma authorize_post_signs:
  assumes "authorize_post env w srv (Some f) r = (res, cs)" and "cs \<noteq> []"
  obtains c e where "verify_own env (iw_verify w) srv (f ''req'') ''authzreq'' = Inr c" "claim_str c ''email'' = e"
    "consents env srv e (GiveConsent w f r)" "cs = [code_claims w srv e c]"
  using assms by (auto simp: authorize_post_def consents_def Let_def split: option.splits sum.splits if_splits)

lemma issue_tokens_signs:
  "issue_tokens env w srv email cid scope resource nonce wr = (res, cs) \<Longrightarrow>
    set cs \<subseteq> {access_claims w srv email cid scope resource, id_claims w srv email cid nonce}
      \<union> (if wr then {refresh_claims w srv email cid scope resource} else {})"
  by (auto simp: issue_tokens_def sign_more_def Let_def split: option.splits if_splits)

lemma distinct_claims [simp]:
  "distinct (map fst (request_claims env w srv e r))" "distinct (map fst (code_claims w srv e c))"
  "distinct (map fst (access_claims w srv e cid scope resource))" "distinct (map fst (refresh_claims w srv e cid scope resource))"
  "distinct (map fst (id_claims w srv e cid nonce))"
  by (simp_all add: request_claims_def code_claims_def access_claims_def refresh_claims_def id_claims_def Let_def)

lemma request_claim [simp]: "claim_str (request_claims env w srv e r) ''typ'' = ''authzreq''"
  "claim_str (request_claims env w srv e r) ''iss'' = ip_issuer srv"
  by (simp_all add: request_claims_def claim_str_def claim_def Let_def)

lemma code_claim [simp]: "claim_str (code_claims w srv e c) ''typ'' = ''code''"
  "claim_str (code_claims w srv e c) ''iss'' = ip_issuer srv" "claim_str (code_claims w srv e c) ''email'' = e"
  "claim_str (code_claims w srv e c) ''cid'' = claim_str c ''cid''" "claim_str (code_claims w srv e c) ''cc'' = claim_str c ''cc''"
  by (simp_all add: code_claims_def claim_str_def claim_def)

lemma access_claim [simp]: "claim_str (access_claims w srv e cid scope resource) ''typ'' = ''access''"
  "claim_str (access_claims w srv e cid scope resource) ''email'' = e"
  "claim_str (access_claims w srv e cid scope resource) ''sub'' = e"
  "claim_str (access_claims w srv e cid scope resource) ''client_id'' = cid"
  by (simp_all add: access_claims_def claim_str_def claim_def)

lemma refresh_claim [simp]: "claim_str (refresh_claims w srv e cid scope resource) ''typ'' = ''refresh''"
  "claim_str (refresh_claims w srv e cid scope resource) ''email'' = e"
  "claim_str (refresh_claims w srv e cid scope resource) ''cid'' = cid"
  by (simp_all add: refresh_claims_def claim_str_def claim_def)

lemma id_claim [simp]: "claim_str (id_claims w srv e cid nonce) ''typ'' = []"
  by (simp add: id_claims_def claim_str_def claim_def)

section \<open>From an access token back to the consent\<close>

text \<open>
  The redemption behind a token: a request to the token endpoint with a code approved by
  \<open>e\<close>, the client ID bound to it and a verifier that hashes to its PKCE challenge.
\<close>

definition redeems :: "idp_env \<Rightarrow> idp_sys \<Rightarrow> string \<Rightarrow> string \<Rightarrow> idp_event \<Rightarrow> bool" where
  "redeems env s e cid ev =
     (case ev of
        AskToken w f \<Rightarrow> f ''grant_type'' = ''authorization_code'' \<and> f ''client_id'' = cid
          \<and> (\<exists>k\<in>set (is_signed s). claim_str k ''typ'' = ''code'' \<and> claim_str k ''email'' = e
               \<and> to_valid (claim_str k ''cid'') = cid
               \<and> b64u (je_sha256 (ie_jwt env) (f ''code_verifier'')) = to_valid (claim_str k ''cc''))
      | _ \<Rightarrow> False)"

definition approved :: "idp_env \<Rightarrow> idp_server \<Rightarrow> idp_event list \<Rightarrow> string \<Rightarrow> bool" where
  "approved env srv es e = (to_valid e = e \<and> (\<exists>ev\<in>set es. consents env srv e ev))"

definition redeemed :: "idp_env \<Rightarrow> idp_sys \<Rightarrow> idp_event list \<Rightarrow> string \<Rightarrow> string \<Rightarrow> bool" where
  "redeemed env s es e cid = (\<exists>ev\<in>set es. redeems env s e cid ev)"

definition traced :: "idp_env \<Rightarrow> idp_sys \<Rightarrow> idp_event list \<Rightarrow> claims \<Rightarrow> bool" where
  "traced env s es c =
     (distinct (map fst c) \<and> codec_at (ie_jwt env) (JObj (sort_key fst c))
      \<and> ascii (claim_str c ''typ'')
      \<and> (claim_str c ''typ'' = ''code'' \<longrightarrow> approved env (is_server s) es (claim_str c ''email''))
      \<and> (claim_str c ''typ'' = ''refresh'' \<longrightarrow> approved env (is_server s) es (claim_str c ''email'')
           \<and> redeemed env s es (claim_str c ''email'') (to_valid (claim_str c ''cid'')))
      \<and> (claim_str c ''typ'' = ''access'' \<longrightarrow> approved env (is_server s) es (claim_str c ''email'')
           \<and> claim_str c ''sub'' = claim_str c ''email''
           \<and> redeemed env s es (claim_str c ''email'') (to_valid (claim_str c ''client_id''))))"

lemma allowed_same: "ip_cfg srv = ip_cfg srv' \<Longrightarrow> allowed env srv = allowed env srv'"
  by (rule ext) (simp add: allowed_def)

lemma consents_same: "ip_cfg srv = ip_cfg srv' \<Longrightarrow> consents env srv = consents env srv'"
  using allowed_same [of srv srv' env] by (intro ext) (simp add: consents_def split: idp_event.split)

lemma approved_mono: "approved env srv es e \<Longrightarrow> ip_cfg srv = ip_cfg srv' \<Longrightarrow> approved env srv' (es @ fs) e"
  unfolding approved_def using consents_same [of srv srv' env] by auto

lemma redeemed_mono:
  "redeemed env s es e cid \<Longrightarrow> set (is_signed s) \<subseteq> set (is_signed t) \<Longrightarrow> redeemed env t (es @ fs) e cid"
  unfolding redeemed_def redeems_def by (fastforce split: idp_event.splits)

lemma traced_mono:
  assumes "traced env s es c" and "set (is_signed s) \<subseteq> set (is_signed t)" and "ip_cfg (is_server s) = ip_cfg (is_server t)"
  shows "traced env t (es @ fs) c"
  using assms(1) approved_mono [OF _ assms(3)] redeemed_mono [OF _ assms(2)] unfolding traced_def by blast

lemma verify_own_known:
  assumes "verify_own env now (is_server s) t typ = Inr c" and "unforged env s t"
    and "\<forall>c\<in>set (is_signed s). traced env s es c"
  obtains c0 where "c0 \<in> set (is_signed s)" "c = read_back c0" "claim_str c0 ''typ'' = typ"
    "\<And>k. claim_str c k = to_valid (claim_str c0 k)" "traced env s es c0"
proof -
  have v: "verify_jwt (ie_jwt env) now (\<lambda>k. if k \<noteq> ip_kid (is_server s) then Inl (UnknownKey k) else Inr (ip_pub (is_server s))) t = Inr c"
    and ty: "claim_str c ''typ'' = typ"
    using assms(1) by (auto simp: verify_own_def split: sum.splits if_splits)
  have "\<forall>c\<in>set (is_signed s). codec_at (ie_jwt env) (JObj (sort_key fst c))" using assms(3) by (simp add: traced_def)
  from verify_known [OF v assms(2) this] obtain c0 where c0: "c0 \<in> set (is_signed s)" "c = read_back c0" by blast
  have tr: "traced env s es c0" using assms(3) c0(1) by blast
  then have "claim_str c k = to_valid (claim_str c0 k)" for k
    using c0(2) by (simp add: claim_str_read_back traced_def)
  moreover from this ty tr have "claim_str c0 ''typ'' = typ" by (simp add: traced_def to_valid_ascii)
  ultimately show thesis using that c0 tr by blast
qed

lemma mark_code_used_cfg: "mark_code_used now jti expiry srv = (b, srv') \<Longrightarrow>
    ip_cfg srv' = ip_cfg srv \<and> ip_pub srv' = ip_pub srv \<and> ip_kid srv' = ip_kid srv"
  by (auto simp: mark_code_used_def Let_def split: if_splits)

lemma token_from_code_signs:
  assumes "token_from_code env w f srv = ((res, cs), srv')" and "cs \<noteq> []"
  obtains c srv1 where "verify_own env (iw_verify w) srv (f ''code'') ''code'' = Inr c"
    "f ''client_id'' = claim_str c ''cid''" "b64u (je_sha256 (ie_jwt env) (f ''code_verifier'')) = claim_str c ''cc''"
    "(res, cs) = issue_tokens env w srv1 (claim_str c ''email'') (claim_str c ''cid'') (claim_str c ''scope'')
       (claim_str c ''resource'') (claim_str c ''nonce'') True"
proof (cases "verify_own env (iw_verify w) srv (f ''code'') ''code''")
  case (Inl e)
  with assms show thesis by (simp add: token_from_code_def)
next
  case (Inr c)
  obtain b srv1 where m: "mark_code_used (iw_mark w) (claim_str c ''jti'') (claim_num (ie_jwt env) c ''exp'' * second) srv = (b, srv1)"
    by fastforce
  show thesis
    by (rule that [OF Inr, of srv1])
      (use assms Inr m in \<open>auto simp: token_from_code_def split: if_splits\<close>)
qed

lemma token_from_refresh_signs:
  assumes "token_from_refresh env w f srv = (res, cs)" and "cs \<noteq> []"
  obtains c where "verify_own env (iw_verify w) srv (f ''refresh_token'') ''refresh'' = Inr c"
    "f ''client_id'' = claim_str c ''cid''" "allowed env srv (claim_str c ''email'')"
    "(res, cs) = issue_tokens env w srv (claim_str c ''email'') (claim_str c ''cid'') (claim_str c ''scope'')
       (claim_str c ''resource'') [] False"
proof (cases "verify_own env (iw_verify w) srv (f ''refresh_token'') ''refresh''")
  case (Inl e)
  with assms show thesis by (simp add: token_from_refresh_def)
next
  case (Inr c)
  show thesis
    by (rule that [OF Inr]) (use assms Inr in \<open>auto simp: token_from_refresh_def split: if_splits\<close>)
qed

lemma token_cfg: "handle_token env w form srv = (x, srv') \<Longrightarrow>
    ip_cfg srv' = ip_cfg srv \<and> ip_pub srv' = ip_pub srv \<and> ip_kid srv' = ip_kid srv"
  by (auto simp: handle_token_def token_from_code_def dest!: mark_code_used_cfg split: option.splits sum.splits prod.splits if_splits)

lemma idp_step_cfg: "idp_step env s ev t \<Longrightarrow>
    ip_cfg (is_server t) = ip_cfg (is_server s) \<and> ip_pub (is_server t) = ip_pub (is_server s) \<and> ip_kid (is_server t) = ip_kid (is_server s)"
  by (erule idp_stepE) (auto dest: token_cfg)

text \<open>Every token of one answer of the token endpoint is traced when its code or refresh token is.\<close>

lemma issued_traced:
  assumes "(res, cs) = issue_tokens env w srv1 e cid scope resource nonce wr" and "c \<in> set cs" and "recorded env cs s t"
    and "approved env (is_server t) es e" and "redeemed env t es e (to_valid cid)"
  shows "traced env t es c"
proof -
  have "codec_at (ie_jwt env) (JObj (sort_key fst c))" using assms(2,3) by (auto simp: recorded_def list_all_iff)
  moreover have "c \<in> {access_claims w srv1 e cid scope resource, id_claims w srv1 e cid nonce,
      refresh_claims w srv1 e cid scope resource}"
    using issue_tokens_signs [OF assms(1) [symmetric]] assms(2) by (auto split: if_splits)
  ultimately show ?thesis using assms(4,5) unfolding traced_def
    by (elim insertE emptyE) (simp_all add: ascii_def)
qed

lemma token_traced:
  assumes step: "idp_step env s (AskToken w f) t" and old: "\<forall>c\<in>set (is_signed s). traced env s es c"
    and res: "handle_token env w (Some f) (is_server s) = ((res, cs), is_server t)" and rec: "recorded env cs s t"
    and unf: "unforged env s (f ''code'')" "unforged env s (f ''refresh_token'')" and c: "c \<in> set cs"
  shows "traced env t (es @ [AskToken w f]) c"
proof -
  have cfg: "ip_cfg (is_server s) = ip_cfg (is_server t)" using idp_step_cfg [OF step] by simp
  have sub: "set (is_signed s) \<subseteq> set (is_signed t)" using rec by (auto simp: recorded_def)
  from c have "cs \<noteq> []" by auto
  consider (code) "f ''grant_type'' = ''authorization_code''" "token_from_code env w f (is_server s) = ((res, cs), is_server t)"
    | (refresh) "token_from_refresh env w f (is_server s) = (res, cs)"
    using res \<open>cs \<noteq> []\<close> by (auto simp: handle_token_def split: if_splits)
  then show ?thesis
  proof cases
    case code
    obtain d srv1 where d: "verify_own env (iw_verify w) (is_server s) (f ''code'') ''code'' = Inr d"
      "f ''client_id'' = claim_str d ''cid''" "b64u (je_sha256 (ie_jwt env) (f ''code_verifier'')) = claim_str d ''cc''"
      "(res, cs) = issue_tokens env w srv1 (claim_str d ''email'') (claim_str d ''cid'') (claim_str d ''scope'')
         (claim_str d ''resource'') (claim_str d ''nonce'') True"
      using code(2) \<open>cs \<noteq> []\<close> by (rule token_from_code_signs)
    obtain k where k: "k \<in> set (is_signed s)" "claim_str k ''typ'' = ''code''" "\<And>x. claim_str d x = to_valid (claim_str k x)"
      "traced env s es k"
      using verify_own_known [OF d(1) unf(1) old] by metis
    have ap: "approved env (is_server s) es (claim_str k ''email'')" using k(2,4) by (simp add: traced_def)
    then have e: "claim_str d ''email'' = claim_str k ''email''" using k(3) by (simp add: approved_def)
    have "redeems env t (claim_str k ''email'') (to_valid (claim_str d ''cid'')) (AskToken w f)"
      using code(1) d(2,3) k(1-3) sub by (auto simp: redeems_def)
    then have "redeemed env t (es @ [AskToken w f]) (claim_str d ''email'') (to_valid (claim_str d ''cid''))"
      unfolding redeemed_def e by simp
    moreover have "approved env (is_server t) (es @ [AskToken w f]) (claim_str d ''email'')"
      using approved_mono [OF ap cfg] e by simp
    ultimately show ?thesis using issued_traced [OF d(4) c rec] by blast
  next
    case refresh
    obtain d where d: "verify_own env (iw_verify w) (is_server s) (f ''refresh_token'') ''refresh'' = Inr d"
      "(res, cs) = issue_tokens env w (is_server s) (claim_str d ''email'') (claim_str d ''cid'') (claim_str d ''scope'')
         (claim_str d ''resource'') [] False"
      using refresh \<open>cs \<noteq> []\<close> by (rule token_from_refresh_signs)
    obtain k where k: "k \<in> set (is_signed s)" "claim_str k ''typ'' = ''refresh''" "\<And>x. claim_str d x = to_valid (claim_str k x)"
      "traced env s es k"
      using verify_own_known [OF d(1) unf(2) old] by metis
    have ap: "approved env (is_server s) es (claim_str k ''email'')"
      and re: "redeemed env s es (claim_str k ''email'') (to_valid (claim_str k ''cid''))"
      using k(2,4) by (simp_all add: traced_def)
    have e: "claim_str d ''email'' = claim_str k ''email''" using ap k(3) by (simp add: approved_def)
    have "redeemed env t (es @ [AskToken w f]) (claim_str d ''email'') (to_valid (claim_str d ''cid''))"
      using redeemed_mono [OF re sub] e k(3) by simp
    moreover have "approved env (is_server t) (es @ [AskToken w f]) (claim_str d ''email'')"
      using approved_mono [OF ap cfg] e by simp
    ultimately show ?thesis using issued_traced [OF d(2) c rec] by blast
  qed
qed

lemma step_traced:
  assumes "idp_step env s ev t" and old: "\<forall>c\<in>set (is_signed s). traced env s es c"
  shows "\<forall>c\<in>set (is_signed t). traced env t (es @ [ev]) c"
proof -
  have cfg: "ip_cfg (is_server s) = ip_cfg (is_server t)" using idp_step_cfg [OF assms(1)] by simp
  have new: "\<forall>c\<in>set (is_signed t). traced env t (es @ [ev]) c"
    if rec: "recorded env cs s t" and cs: "\<forall>c\<in>set cs. traced env t (es @ [ev]) c" for cs
    using rec cs traced_mono [OF _ _ cfg, of env es _ "[ev]"] old by (auto simp: recorded_def)
  show ?thesis
    using assms(1)
  proof (cases rule: idp_step.cases)
    case (idp_get w r res cs)
    then show ?thesis
      using authorize_get_signs [OF idp_get(2)]
      by (intro new [OF idp_get(3)]) (auto simp: traced_def recorded_def ascii_def)
  next
    case (idp_post f w r res cs)
    show ?thesis
    proof (rule new [OF idp_post(4)], rule ballI)
      fix c assume c: "c \<in> set cs"
      then have "cs \<noteq> []" by auto
      with idp_post(3) obtain d e where d: "verify_own env (iw_verify w) (is_server s) (f ''req'') ''authzreq'' = Inr d"
        "claim_str d ''email'' = e" "consents env (is_server s) e (GiveConsent w f r)" "cs = [code_claims w (is_server s) e d]"
        by (rule authorize_post_signs)
      obtain k where "\<And>x. claim_str d x = to_valid (claim_str k x)"
        using verify_own_known [OF d(1) idp_post(2) old] by metis
      with d(2) have "to_valid e = e" by auto
      with d(3) have "approved env (is_server t) (es @ [ev]) e"
        unfolding approved_def idp_post(1) idp_post(5) by auto
      then show "traced env t (es @ [ev]) c"
        using c d(4) idp_post(4) by (auto simp: traced_def recorded_def ascii_def)
    qed
  next
    case (idp_token f w res cs)
    then show ?thesis
      using token_traced [OF assms(1) [unfolded idp_token(1)] old idp_token(4,5,2,3)]
      by (intro new [OF idp_token(5)]) auto
  qed
qed

lemma run_traced:
  assumes "run (idp_step env) (start_idp srv) es s"
  shows "(\<forall>c\<in>set (is_signed s). traced env s es c) \<and> ip_cfg (is_server s) = ip_cfg srv"
  using assms
proof (induction "start_idp srv" es s rule: run.induct)
  case run_Nil
  then show ?case by (simp add: start_idp_def)
next
  case (run_snoc es s ev t)
  then show ?case using step_traced [OF run_snoc(3)] idp_step_cfg [OF run_snoc(3)] by simp
qed

definition bearer_token :: "request \<Rightarrow> string" where
  "bearer_token r = trim_prefix (rq_header r ''Authorization'') ''Bearer ''"

lemma verify_request_ok:
  assumes "verify_request env now v r = Inr email"
  obtains c where "verify_jwt (ie_jwt env) now (\<lambda>k. if k \<noteq> vf_kid v then Inl (UnknownKey k) else Inr (vf_pub v)) (bearer_token r) = Inr c"
    "claim_str c ''iss'' = vf_issuer v" "claim_str c ''typ'' = ''access''"
    "email = to_lower (ie_lower env) (claim_str c ''email'') \<or>
     to_lower (ie_lower env) (claim_str c ''email'') = [] \<and> email = to_lower (ie_lower env) (claim_str c ''sub'')"
    "claim_aud c = [] \<or> aud_matches_request env (claim_aud c) r"
  using assms by (auto simp: verify_request_def bearer_token_def Let_def split: sum.splits if_splits)

lemma access_traced:
  assumes "run (idp_step env) (start_idp srv) es s" and "unforged env s (bearer_token r)"
    and "verify_request env now (idp_verifier (is_server s)) r = Inr email"
  shows "\<exists>e cid. email = to_lower (ie_lower env) e \<and> (\<exists>ev\<in>set es. consents env srv e ev)
    \<and> (\<exists>ev\<in>set es. redeems env s e cid ev)"
proof -
  note tr = run_traced [OF assms(1)]
  obtain c where c: "verify_jwt (ie_jwt env) now (\<lambda>k. if k \<noteq> vf_kid (idp_verifier (is_server s)) then Inl (UnknownKey k)
      else Inr (vf_pub (idp_verifier (is_server s)))) (bearer_token r) = Inr c"
    "claim_str c ''iss'' = vf_issuer (idp_verifier (is_server s))" "claim_str c ''typ'' = ''access''"
    "email = to_lower (ie_lower env) (claim_str c ''email'') \<or>
     to_lower (ie_lower env) (claim_str c ''email'') = [] \<and> email = to_lower (ie_lower env) (claim_str c ''sub'')"
    using assms(3) by (rule verify_request_ok)
  then have "verify_own env now (is_server s) (bearer_token r) ''access'' = Inr c"
    unfolding verify_own_def idp_verifier_def verifier.simps by simp
  then obtain k where "k \<in> set (is_signed s)" "c = read_back k"
    and k: "claim_str k ''typ'' = ''access''" "\<And>x. claim_str c x = to_valid (claim_str k x)" "traced env s es k"
    using assms(2) conjunct1 [OF tr] by (rule verify_own_known) (rule that)
  let ?e = "claim_str k ''email''"
  have ap: "approved env (is_server s) es ?e" and sub: "claim_str k ''sub'' = ?e"
    and re: "redeemed env s es ?e (to_valid (claim_str k ''client_id''))"
    using k(1,3) by (simp_all add: traced_def)
  have "claim_str c ''email'' = ?e" "claim_str c ''sub'' = ?e"
    using ap k(2) sub by (simp_all add: approved_def)
  with c(4) have email: "email = to_lower (ie_lower env) ?e" by auto
  have "consents env (is_server s) = consents env srv" using consents_same tr by blast
  with ap have "\<exists>ev\<in>set es. consents env srv ?e ev" by (simp add: approved_def)
  with email re show ?thesis unfolding redeemed_def by blast
qed

text \<open>
  C6. Nobody gets in without consent: whenever the resource side accepts a bearer token
  as some e-mail address, a user of the allowlist whom the edge identified by it approved
  the consent form earlier in the run, and the code from that approval was redeemed by a
  client that knew the verifier of its PKCE challenge. Nothing else, no ID token, refresh
  token, code or form, and no sequence of requests, yields a token that is accepted.
\<close>

theorem access_needs_approval:
  assumes "run (idp_step env) (start_idp srv) es s" and "unforged env s (bearer_token r)"
    and "verify_request env now (idp_verifier (is_server s)) r = Inr email"
  shows "\<exists>e cid. email = to_lower (ie_lower env) e \<and> (\<exists>ev\<in>set es. consents env srv e ev)
    \<and> (\<exists>ev\<in>set es. redeems env s e cid ev)"
  using assms by (rule access_traced)

end
