(* ===== verification/Idp_Codes.thy ===== *)
theory Idp_Codes
  imports Idp
begin

text \<open>
  How often an authorization code is redeemed, where the authorization endpoint sends the
  browser, and for which hosts an access token with an audience is good.
\<close>

section \<open>Single use\<close>

text \<open>The identifiers of the codes that were redeemed for tokens, in order.\<close>

fun redemptions :: "idp_env \<Rightarrow> (idp_world \<times> (string \<Rightarrow> string)) list \<Rightarrow> idp_server \<Rightarrow> string list" where
  "redemptions env [] srv = []"
| "redemptions env ((w, f) # reqs) srv =
     (case token_from_code env w f srv of
        ((res, cs), srv') \<Rightarrow>
          (if cs \<noteq> [] then [claim_str (projr (verify_own env (iw_verify w) srv (f ''code'') ''code'')) ''jti''] else [])
          @ redemptions env reqs srv')"

lemma verify_own_used: "verify_own env now (srv\<lparr>ip_used := u\<rparr>) = verify_own env now srv"
  by (intro ext) (simp add: verify_own_def cong: if_cong split: sum.split)

lemma mark_shape: "mark_code_used now jti expiry srv = (b, srv') \<Longrightarrow> srv' = srv\<lparr>ip_used := ip_used srv'\<rparr>"
  by (auto simp: mark_code_used_def Let_def split: if_splits)

lemma token_shape: "token_from_code env w f srv = (x, srv') \<Longrightarrow> srv' = srv\<lparr>ip_used := ip_used srv'\<rparr>"
  by (auto simp: token_from_code_def dest!: mark_shape split: sum.splits prod.splits)

lemma verify_own_in_time:
  "verify_own env now srv t ty = Inr c \<Longrightarrow> now \<le> claim_num (ie_jwt env) c ''exp'' * second + clock_skew"
  by (auto simp: verify_own_def check_times_ok elim!: verify_jwt_ok split: sum.splits if_splits)

text \<open>Identifiers are not reused: one expiry for each, \<open>expiry\<close>.\<close>

definition same_expiry :: "idp_env \<Rightarrow> (string \<Rightarrow> int) \<Rightarrow> idp_server \<Rightarrow> (idp_world \<times> (string \<Rightarrow> string)) list \<Rightarrow> bool" where
  "same_expiry env expiry srv reqs =
     (\<forall>x\<in>set reqs. \<forall>c. verify_own env (iw_verify (fst x)) srv (snd x ''code'') ''code'' = Inr c
        \<longrightarrow> claim_num (ie_jwt env) c ''exp'' = expiry (claim_str c ''jti''))"

lemma same_expiry_tl: "same_expiry env expiry srv (x # reqs) \<Longrightarrow>
    (\<And>now. verify_own env now srv' = verify_own env now srv) \<Longrightarrow> same_expiry env expiry srv' reqs"
  by (simp add: same_expiry_def)

lemma same_expiryD: "same_expiry env expiry srv reqs \<Longrightarrow> (w, f) \<in> set reqs \<Longrightarrow>
    verify_own env (iw_verify w) srv (f ''code'') ''code'' = Inr c \<Longrightarrow> claim_num (ie_jwt env) c ''exp'' = expiry (claim_str c ''jti'')"
  by (auto simp: same_expiry_def)

text \<open>What the mark does to the table of codes: it can only forget what has expired.\<close>

lemma mark_keeps: "mark_code_used now jti expiry srv = (b, srv') \<Longrightarrow> fmlookup (ip_used srv) j = Some x
    \<Longrightarrow> now \<le> x + clock_skew \<Longrightarrow> fmlookup (ip_used srv') j = Some x"
  by (auto simp: mark_code_used_def Let_def split: if_splits)

lemma mark_True: "mark_code_used now jti expiry srv = (True, srv') \<Longrightarrow>
    jti \<noteq> [] \<and> fmlookup (ip_used srv') jti = Some expiry
    \<and> (\<forall>x. fmlookup (ip_used srv) jti = Some x \<longrightarrow> x + clock_skew < now)"
  by (auto simp: mark_code_used_def Let_def split: if_splits option.splits)

lemma token_redeems:
  assumes "token_from_code env w f srv = ((res, cs), srv')" and "cs \<noteq> []"
  obtains c where "verify_own env (iw_verify w) srv (f ''code'') ''code'' = Inr c"
    "mark_code_used (iw_mark w) (claim_str c ''jti'') (claim_num (ie_jwt env) c ''exp'' * second) srv = (True, srv')"
proof (cases "verify_own env (iw_verify w) srv (f ''code'') ''code''")
  case (Inl e)
  with assms show thesis by (simp add: token_from_code_def)
next
  case (Inr c)
  obtain b srv1 where m: "mark_code_used (iw_mark w) (claim_str c ''jti'') (claim_num (ie_jwt env) c ''exp'' * second) srv = (b, srv1)"
    by fastforce
  have "b \<and> srv' = srv1" using assms Inr m by (auto simp: token_from_code_def split: if_splits)
  with m that [OF Inr] show thesis by simp
qed

lemma token_keeps:
  assumes "token_from_code env w f srv = (x, srv')" and "fmlookup (ip_used srv) j = Some e" and "iw_mark w \<le> e + clock_skew"
  shows "fmlookup (ip_used srv') j = Some e"
proof (cases "verify_own env (iw_verify w) srv (f ''code'') ''code''")
  case (Inl e)
  with assms(1,2) show ?thesis by (auto simp: token_from_code_def)
next
  case (Inr c)
  obtain b srv1 where m: "mark_code_used (iw_mark w) (claim_str c ''jti'') (claim_num (ie_jwt env) c ''exp'' * second) srv = (b, srv1)"
    by fastforce
  with assms(1) Inr have "srv' = srv1" by (auto simp: token_from_code_def)
  with mark_keeps [OF m assms(2,3)] show ?thesis by simp
qed

lemma redemptions_Cons:
  assumes "token_from_code env w f srv = ((res, cs), srv')" and "j \<in> set (redemptions env ((w, f) # reqs) srv)"
  shows "j \<in> set (redemptions env reqs srv')
    \<or> (\<exists>c. verify_own env (iw_verify w) srv (f ''code'') ''code'' = Inr c \<and> claim_str c ''jti'' = j
         \<and> mark_code_used (iw_mark w) j (claim_num (ie_jwt env) c ''exp'' * second) srv = (True, srv'))"
proof (cases "cs = []")
  case False
  obtain c where "verify_own env (iw_verify w) srv (f ''code'') ''code'' = Inr c"
    "mark_code_used (iw_mark w) (claim_str c ''jti'') (claim_num (ie_jwt env) c ''exp'' * second) srv = (True, srv')"
    using assms(1) False by (rule token_redeems)
  then show ?thesis using assms False by auto
qed (use assms in simp)

lemma never_redeemed:
  assumes "\<And>w f c. (w, f) \<in> set reqs \<Longrightarrow> verify_own env (iw_verify w) srv (f ''code'') ''code'' = Inr c \<Longrightarrow> claim_str c ''jti'' \<noteq> j"
    and "\<And>now. verify_own env now srv2 = verify_own env now srv"
  shows "j \<notin> set (redemptions env reqs srv2)"
  using assms
proof (induction reqs arbitrary: srv2)
  case (Cons y ys)
  obtain w f where y: "y = (w, f)" by (cases y)
  obtain res cs srv3 where t: "token_from_code env w f srv2 = ((res, cs), srv3)" by (metis prod.exhaust)
  have "\<And>now. verify_own env now srv3 = verify_own env now srv"
    using token_shape [OF t] verify_own_used Cons.prems(2) by metis
  with Cons.IH Cons.prems(1) have "j \<notin> set (redemptions env ys srv3)" by (meson list.set_intros(2))
  moreover have "verify_own env (iw_verify w) srv2 (f ''code'') ''code'' = Inr c \<Longrightarrow> claim_str c ''jti'' \<noteq> j" for c
    using Cons.prems(1) [of w f c] Cons.prems(2) y by simp
  ultimately show ?case using redemptions_Cons [OF t, of j ys] y by blast
qed simp

text \<open>A redeemed code in the table, with the clock not past its expiry, is not redeemed again.\<close>

lemma not_again:
  assumes "fmlookup (ip_used srv) j = Some (expiry j * second)" and "sorted (map (\<lambda>x. iw_mark (fst x)) reqs)"
    and "\<forall>x\<in>set reqs. iw_mark (fst x) \<le> iw_verify (fst x)"
    and "same_expiry env expiry srv reqs"
  shows "j \<notin> set (redemptions env reqs srv)"
  using assms
proof (induction reqs arbitrary: srv)
  case (Cons x reqs)
  obtain w f where x: "x = (w, f)" by (cases x)
  obtain res cs srv' where t: "token_from_code env w f srv = ((res, cs), srv')" by (metis prod.exhaust)
  have vo: "verify_own env now srv' = verify_own env now srv" for now
    using token_shape [OF t] verify_own_used by metis
  show ?case
  proof (cases "iw_mark w \<le> expiry j * second + clock_skew")
    case True
    have "j \<notin> set (redemptions env reqs srv')"
      using Cons.IH [of srv'] token_keeps [OF t Cons.prems(1) True] Cons.prems(2,3) same_expiry_tl [OF Cons.prems(4) vo] x by simp
    moreover have "mark_code_used (iw_mark w) j e srv \<noteq> (True, srv')" for e
      using mark_True [of "iw_mark w" j e srv srv'] Cons.prems(1) True by fastforce
    ultimately show ?thesis using redemptions_Cons [OF t, of j reqs] x by blast
  next
    case False
    have "claim_str c ''jti'' \<noteq> j" if "(w', f') \<in> set (x # reqs)" "verify_own env (iw_verify w') srv (f' ''code'') ''code'' = Inr c" for w' f' c
    proof
      assume j: "claim_str c ''jti'' = j"
      have "iw_mark w \<le> iw_mark w'" using Cons.prems(2) that(1) x by auto
      moreover have "iw_mark w' \<le> iw_verify w'" using Cons.prems(3) that(1) by auto
      ultimately show False
        using False verify_own_in_time [OF that(2)] same_expiryD [OF Cons.prems(4) that] j by simp
    qed
    then show ?thesis by (rule never_redeemed [OF _ refl])
  qed
qed simp


lemma cfg_used: "ip_cfg (srv\<lparr>ip_used := u\<rparr>) = ip_cfg srv"
  by simp

lemma issue_used: "issue env w i (srv\<lparr>ip_used := u\<rparr>) c = issue env w i srv c"
  by (simp add: issue_def)

lemma claims_used:
  "access_claims w (srv\<lparr>ip_used := u\<rparr>) e cid scope resource = access_claims w srv e cid scope resource"
  "refresh_claims w (srv\<lparr>ip_used := u\<rparr>) e cid scope resource = refresh_claims w srv e cid scope resource"
  "id_claims w (srv\<lparr>ip_used := u\<rparr>) e cid nonce = id_claims w srv e cid nonce"
  by (simp_all add: access_claims_def refresh_claims_def id_claims_def)

text \<open>
  The margin matters: a request that verifies a code within its validity and reaches
  the table after it is answered as if the table were empty, so the code is redeemed again.
\<close>

theorem code_replayed_across_expiry:
  assumes "verify_own env (iw_verify w) srv (f ''code'') ''code'' = Inr c" and "claim_str c ''jti'' \<noteq> []"
    and "claim_num (ie_jwt env) c ''exp'' * second + clock_skew < iw_mark w"
    and "fmlookup (ip_used srv) (claim_str c ''jti'') = Some (claim_num (ie_jwt env) c ''exp'' * second)"
  shows "fst (token_from_code env w f srv) = fst (token_from_code env w f (srv\<lparr>ip_used := fmempty\<rparr>))"
proof -
  have m: "\<exists>u. mark_code_used (iw_mark w) (claim_str c ''jti'') (claim_num (ie_jwt env) c ''exp'' * second) (srv\<lparr>ip_used := t\<rparr>)
      = (True, srv\<lparr>ip_used := u\<rparr>)" if "fmlookup t (claim_str c ''jti'') = None \<or> t = ip_used srv" for t
    using assms(2-4) that by (auto simp: mark_code_used_def Let_def split: option.splits)
  have i: "issue_tokens env w (srv\<lparr>ip_used := u\<rparr>) = issue_tokens env w srv" for u
    by (intro ext) (unfold issue_tokens_def issue_used claims_used cfg_used, rule refl)
  obtain u1 where "mark_code_used (iw_mark w) (claim_str c ''jti'') (claim_num (ie_jwt env) c ''exp'' * second) srv
      = (True, srv\<lparr>ip_used := u1\<rparr>)"
    using m [of "ip_used srv"] by auto
  moreover obtain u2 where "mark_code_used (iw_mark w) (claim_str c ''jti'') (claim_num (ie_jwt env) c ''exp'' * second)
      (srv\<lparr>ip_used := fmempty\<rparr>) = (True, srv\<lparr>ip_used := u2\<rparr>)"
    using m [of fmempty] by auto
  ultimately show ?thesis
    using assms(1) by (simp add: token_from_code_def verify_own_used i)
qed

section \<open>Redirects\<close>


lemma client_id_authentic:
  assumes "decode_client_id env srv cid = Some reg"
  shows "\<exists>payload sig. b64u_decode sig = Some (mac_of env srv payload)
    \<and> Option.bind (je_decode (ie_jwt env) payload) reg_of_json = Some reg"
  using assms by (auto simp: decode_client_id_def split: prod.splits option.splits if_splits)

section \<open>Audiences\<close>

text \<open>
  A token minted for another resource does not work here: if it names audiences, one
  of them is a URL whose host is the host the request came to, or was forwarded for, up
  to letter case and default ports.
\<close>

theorem audience_restricts:
  assumes "aud_matches_request env auds r"
  shows "\<exists>a\<in>set auds. \<exists>u. ie_parse env a = Some u \<and> url_host u \<noteq> [] \<and> normalize_host env (url_host u) \<noteq> []
    \<and> (normalize_host env (url_host u) = normalize_host env (rq_host r)
       \<or> rq_header r ''X-Forwarded-Host'' \<noteq> [] \<and> normalize_host env (url_host u) = normalize_host env (rq_header r ''X-Forwarded-Host''))"
proof -
  obtain a u where a: "a \<in> set auds" "ie_parse env a = Some u" "url_host u \<noteq> []" "normalize_host env (url_host u) \<noteq> []"
    "normalize_host env (url_host u) = normalize_host env (rq_host r)
     \<or> rq_header r ''X-Forwarded-Host'' \<noteq> [] \<and> normalize_host env (url_host u) = normalize_host env (rq_header r ''X-Forwarded-Host'')"
    using assms unfolding aud_matches_request_def Let_def list_ex_iff
    by (force split: option.splits if_splits)
  then show ?thesis by blast
qed

end
