(* ===== verification/Idp_Examples.thy ===== *)
theory Idp_Examples
  imports Idp_Flow Idp_Codes
begin

text \<open>
  The theorems about the identity provider on one small deployment: a registered client,
  a consent, a redemption and an access. Texts, hashes and signatures are toy functions.
\<close>

definition demo_world :: idp_world where
  "demo_world = \<lparr>iw_verify = 0, iw_mark = 0, iw_now = 0, iw_later = 0, iw_random = (\<lambda>i. ''r''),
     iw_sign = (\<lambda>i d. Some (replicate 64 CHR ''s''))\<rparr>"

definition demo_idp :: idp_server where
  "demo_idp = \<lparr>ip_cfg = \<lparr>ic_issuer = ''i'', ic_users = [''a@b''], ic_key = None, ic_access_ttl = 3600 * second,
       ic_refresh_ttl = 7200 * second, ic_code_ttl = 300 * second\<rparr>,
     ip_pub = \<lparr>pk_x = 0, pk_y = 0\<rparr>, ip_kid = ''k'', ip_hmac_key = [], ip_used = fmempty\<rparr>"

definition demo_client :: string where "demo_client = b64u ''reg'' @ ''.'' @ b64u ''reg''"

definition demo_ask :: request where
  "demo_ask = \<lparr>rq_method = ''GET'', rq_path = [], rq_raw_path = [], rq_raw_query = [], rq_host = ''h:443'', rq_tls = True, rq_proto_major = 1, rq_client = None,
     rq_header = (\<lambda>k. if k = ''X-ExeDev-Email'' then ''a@b'' else []), rq_form = (\<lambda>k. []),
     rq_query = (\<lambda>k. if k = ''client_id'' then demo_client else if k = ''redirect_uri'' then ''u''
       else if k = ''response_type'' then ''code'' else if k = ''code_challenge_method'' then ''S256''
       else if k = ''code_challenge'' then b64u ''v'' else [])\<rparr>"

definition demo_url :: url where
  "demo_url = \<lparr>url_scheme = ''https'', url_host = ''H'', url_hostname = ''H'', url_port = [], url_path = [], url_raw_path = [],
     url_raw_query = [], url_fragment = []\<rparr>"

definition demo_texts :: "(string \<Rightarrow> json option) \<Rightarrow> idp_env" where
  "demo_texts reader = \<lparr>ie_jwt = \<lparr>je_encode = (\<lambda>j. case j of JObj ms \<Rightarrow>
         (case map_of ms ''typ'' of Some (JStr t) \<Rightarrow> Some t | _ \<Rightarrow> None) | _ \<Rightarrow> None),
       je_decode = reader, je_real = (\<lambda>s. 0), je_sha256 = id, je_hmac = (\<lambda>k m. m), je_verify = (\<lambda>p d s. True)\<rparr>,
     ie_lower = id, ie_quote = id, ie_parse = (\<lambda>s. Some demo_url), ie_set_query = (\<lambda>u kvs. url_host u @ concat (map snd kvs)),
     ie_query_escape = id, ie_request_uri = rq_path\<rparr>"

definition req_claims :: claims where
  "req_claims = request_claims (demo_texts (\<lambda>s. None)) demo_world demo_idp ''a@b'' demo_ask"

definition demo_code :: claims where
  "demo_code = code_claims demo_world demo_idp ''a@b'' req_claims"

definition demo_access :: claims where
  "demo_access = access_claims demo_world demo_idp ''a@b'' demo_client [] []"

definition demo_refresh :: claims where
  "demo_refresh = refresh_claims demo_world demo_idp ''a@b'' demo_client [] []"

definition demo_reader :: "string \<Rightarrow> json option" where
  "demo_reader b =
     (if b = ''JWT'' then Some (jwt_header ''k'')
      else if b = ''reg'' then Some (JObj [(''r'', JArr [JStr ''u'']), (''t'', JInt 0)])
      else if b = ''authzreq'' then Some (JObj (read_back req_claims))
      else if b = ''code'' then Some (JObj (read_back demo_code))
      else if b = ''access'' then Some (JObj (read_back demo_access))
      else if b = ''refresh'' then Some (JObj (read_back demo_refresh)) else None)"

definition demo_env :: idp_env where "demo_env = demo_texts demo_reader"

definition demo_token :: "string \<Rightarrow> string" where
  "demo_token t = b64u ''JWT'' @ ''.'' @ b64u t @ ''.'' @ b64u (replicate 64 CHR ''s'')"

definition consent_form :: "string \<Rightarrow> string" where
  "consent_form k = (if k = ''req'' then demo_token ''authzreq'' else if k = ''decision'' then ''approve'' else [])"

definition code_form :: "string \<Rightarrow> string" where
  "code_form k = (if k = ''grant_type'' then ''authorization_code'' else if k = ''code'' then demo_token ''code''
     else if k = ''client_id'' then demo_client else if k = ''code_verifier'' then ''v'' else [])"

definition demo_use :: request where
  "demo_use = demo_ask\<lparr>rq_header := (\<lambda>k. if k = ''Authorization'' then ''Bearer '' @ demo_token ''access'' else [])\<rparr>"

section \<open>Reading the tokens\<close>

declare b64u.simps [simp del]

lemma demo_fields [simp]:
  "ie_lower demo_env = id" "ie_parse demo_env = (\<lambda>s. Some demo_url)" "ie_set_query demo_env = (\<lambda>u kvs. url_host u @ concat (map snd kvs))"
  "je_decode (ie_jwt demo_env) = demo_reader" "je_sha256 (ie_jwt demo_env) = id" "je_verify (ie_jwt demo_env) = (\<lambda>p d s. True)"
  "je_hmac (ie_jwt demo_env) = (\<lambda>k m. m)"
  "je_encode (ie_jwt demo_env) = (\<lambda>j. case j of JObj ms \<Rightarrow> (case map_of ms ''typ'' of Some (JStr t) \<Rightarrow> Some t | _ \<Rightarrow> None) | _ \<Rightarrow> None)"
  by (simp_all add: demo_env_def demo_texts_def)

lemma demo_world_fields [simp]: "iw_verify demo_world = 0" "iw_mark demo_world = 0" "iw_now demo_world = 0" "iw_later demo_world = 0"
  "iw_sign demo_world i d = Some (replicate 64 CHR ''s'')" "iw_random demo_world i = ''r''"
  by (simp_all add: demo_world_def)

lemma demo_idp_fields [simp]: "ip_kid demo_idp = ''k''" "ip_issuer demo_idp = ''i''" "ic_users (ip_cfg demo_idp) = [''a@b'']"
  "ip_used demo_idp = fmempty" "ic_access_ttl (ip_cfg demo_idp) = 3600 * second" "ic_code_ttl (ip_cfg demo_idp) = 300 * second"
  "ic_refresh_ttl (ip_cfg demo_idp) = 7200 * second"
  by (simp_all add: demo_idp_def)

lemma demo_header: "header_field (ie_jwt demo_env) ''JWT'' = Some (''ES256'', ''k'')"
  by (simp add: header_field_def demo_reader_def jwt_header_def raw_members_def dec_field_def dec_values_def field_values_def header_names)

lemma demo_open:
  assumes "demo_reader t = Some (JObj c)"
  shows "verify_jwt (ie_jwt demo_env) now (\<lambda>kid. if kid \<noteq> ''k'' then Inl (UnknownKey kid) else Inr pub) (demo_token t)
    = check_times (ie_jwt demo_env) now c"
  unfolding verify_jwt_def demo_token_def
  using assms by (simp add: split_token b64u_decode_b64u demo_header unmarshal_claims_def)

lemma demo_signed:
  assumes "distinct (map fst c)" and "map_of c ''typ'' = Some (JStr t)"
  shows "signing_input (ie_jwt demo_env) ''k'' c = Some (b64u ''JWT'' @ ''.'' @ b64u t)"
proof -
  have "map_of (sort_key fst c) ''typ'' = map_of c ''typ''"
    by (rule map_of_same_set) (simp_all add: assms(1) distinct_sort_key)
  then show ?thesis using assms(2) by (simp add: signing_input_def marshal_claims_def jwt_header_def)
qed

lemma demo_codec:
  assumes "distinct (map fst c)" and "map_of c ''typ'' = Some (JStr t)" and "demo_reader t = Some (JObj (read_back c))"
  shows "codec_at (ie_jwt demo_env) (JObj (sort_key fst c))"
proof -
  have "map_of (sort_key fst c) ''typ'' = map_of c ''typ''"
    by (rule map_of_same_set) (simp_all add: assms(1) distinct_sort_key)
  then show ?thesis using assms(2,3) by (simp add: codec_at_def read_back_def)
qed

lemma demo_types:
  "map_of req_claims ''typ'' = Some (JStr ''authzreq'')" "map_of demo_code ''typ'' = Some (JStr ''code'')"
  "map_of demo_access ''typ'' = Some (JStr ''access'')" "map_of demo_refresh ''typ'' = Some (JStr ''refresh'')"
  by (simp_all add: req_claims_def demo_code_def demo_access_def demo_refresh_def request_claims_def code_claims_def
      access_claims_def refresh_claims_def Let_def)

lemma demo_distinct: "distinct (map fst req_claims)" "distinct (map fst demo_code)" "distinct (map fst demo_access)" "distinct (map fst demo_refresh)"
  by (simp_all add: req_claims_def demo_code_def demo_access_def demo_refresh_def)

lemma demo_reads:
  "demo_reader ''authzreq'' = Some (JObj (read_back req_claims))" "demo_reader ''code'' = Some (JObj (read_back demo_code))"
  "demo_reader ''access'' = Some (JObj (read_back demo_access))" "demo_reader ''refresh'' = Some (JObj (read_back demo_refresh))"
  by (simp_all add: demo_reader_def)

lemma small_rounds: "bit_len n \<le> 53 \<Longrightarrow> round53 n = n"
  by (simp add: round53_def Let_def)

lemma small_times: "float64_int 600 = 600" "float64_int 300 = 300" "float64_int 3600 = 3600" "float64_int 7200 = 7200"
  by (simp_all add: float64_int_def round53_def Let_def bit_len.simps)

lemma b64_plain: "ascii (b64u s)"
  unfolding ascii_def b64u_sextets list_all_iff
  using b64_sextets_less [of s] by (auto simp: b64_digit_def list_all_iff)

lemma demo_client_plain: "ascii demo_client"
  using b64_plain [of "''reg''"] by (simp add: demo_client_def ascii_def)

lemma demo_times:
  "check_times (ie_jwt demo_env) 0 (read_back req_claims) = Inr (read_back req_claims)"
  "check_times (ie_jwt demo_env) 0 (read_back demo_code) = Inr (read_back demo_code)"
  "check_times (ie_jwt demo_env) 0 (read_back demo_access) = Inr (read_back demo_access)"
  by (simp_all add: check_times_ok claim_num_read_back demo_distinct, simp_all add: claim_num_def claim_def req_claims_def demo_code_def
      demo_access_def request_claims_def code_claims_def access_claims_def Let_def unix_time_def small_times clock_skew_def)

section \<open>What the handlers answer\<close>

lemma demo_client_opens: "decode_client_id demo_env demo_idp demo_client = Some \<lparr>rg_uris = [''u''], rg_name = [], rg_issued_at = 0\<rparr>"
proof -
  have "cut_char CHR ''.'' demo_client = (b64u ''reg'', b64u ''reg'', True)"
    using cut_char_append [OF b64u_no_dot [of "''reg''"], of "b64u ''reg''"] by (simp add: demo_client_def)
  moreover have "Option.bind (demo_reader ''reg'') reg_of_json = Some \<lparr>rg_uris = [''u''], rg_name = [], rg_issued_at = 0\<rparr>"
    by code_simp
  ultimately show ?thesis
    by (simp add: decode_client_id_def b64u_decode_b64u mac_of_def)
qed

lemma demo_user_allowed: "allowed demo_env demo_idp ''a@b''" "trim_space ''a@b'' = ''a@b''" "to_lower f ''a@b'' = ''a@b''"
  by code_simp+

lemma demo_request: "request_claims demo_env demo_world demo_idp ''a@b'' demo_ask = req_claims"
  by (simp add: req_claims_def request_claims_def demo_texts_def)

lemma demo_query [simp]:
  "rq_query demo_ask ''client_id'' = demo_client" "rq_query demo_ask ''redirect_uri'' = ''u''" "rq_query demo_ask ''response_type'' = ''code''"
  "rq_query demo_ask ''code_challenge_method'' = ''S256''" "rq_query demo_ask ''code_challenge'' = b64u ''v''"
  "rq_query demo_ask ''state'' = []" "rq_query demo_ask ''nonce'' = []" "rq_query demo_ask ''scope'' = []" "rq_query demo_ask ''resource'' = []"
  "rq_header demo_ask ''X-ExeDev-Email'' = ''a@b''"
  by (simp_all add: demo_ask_def)

lemma b64u_v: "b64u ''v'' \<noteq> []" "b64u ''r'' \<noteq> []"
  by (simp_all add: b64u.simps)

lemma demo_issues: "distinct (map fst c) \<Longrightarrow> map_of c ''typ'' = Some (JStr t) \<Longrightarrow>
    issue demo_env demo_world i demo_idp c = Some (demo_token t)"
  by (simp add: issue_def sign_jwt_def demo_signed demo_token_def)

lemma demo_authorize: "snd (authorize_get demo_env demo_world demo_idp demo_ask) = [req_claims]"
  by (simp add: authorize_get_def Let_def demo_client_opens demo_user_allowed idp_header_exe_email_def demo_request b64u_v
      demo_issues demo_distinct demo_types)

lemma demo_claim_str:
  "claim_str req_claims ''email'' = ''a@b''" "claim_str req_claims ''iss'' = ''i''" "claim_str req_claims ''typ'' = ''authzreq''"
  "claim_str demo_code ''email'' = ''a@b''" "claim_str demo_code ''iss'' = ''i''" "claim_str demo_code ''typ'' = ''code''"
  "claim_str demo_code ''cid'' = demo_client" "claim_str demo_code ''cc'' = b64u ''v''" "claim_str demo_code ''scope'' = []"
  "claim_str demo_code ''resource'' = []" "claim_str demo_code ''nonce'' = []" "claim_str demo_code ''jti'' = b64u ''r''"
  "claim_str demo_access ''email'' = ''a@b''" "claim_str demo_access ''iss'' = ''i''" "claim_str demo_access ''typ'' = ''access''"
  by (simp_all add: claim_str_def claim_def demo_code_def demo_access_def code_claims_def access_claims_def
      req_claims_def request_claims_def Let_def rand_id_def demo_texts_def demo_user_allowed)

lemma to_valid_const [simp]: "to_valid ''a@b'' = ''a@b''" "to_valid ''i'' = ''i''" "to_valid ''u'' = ''u''" "to_valid ''authzreq'' = ''authzreq''"
  "to_valid ''code'' = ''code''" "to_valid ''access'' = ''access''" "to_valid demo_client = demo_client" "to_valid (b64u s) = b64u s"
  by (simp_all add: to_valid_ascii demo_client_plain b64_plain) (simp_all add: to_valid_ascii ascii_def)

lemma demo_own:
  "verify_own demo_env 0 demo_idp (demo_token ''authzreq'') ''authzreq'' = Inr (read_back req_claims)"
  "verify_own demo_env 0 demo_idp (demo_token ''code'') ''code'' = Inr (read_back demo_code)"
  by (simp_all add: verify_own_def demo_open demo_reads demo_times claim_str_read_back demo_distinct demo_claim_str)

lemma demo_post: "snd (authorize_post demo_env demo_world demo_idp (Some consent_form) demo_ask) = [demo_code]"
proof -
  have "code_claims demo_world demo_idp ''a@b'' (read_back req_claims) = demo_code"
    unfolding demo_code_def code_claims_def claim_str_read_back [OF demo_distinct(1)]
    by (simp add: claim_str_def claim_def req_claims_def request_claims_def Let_def)
  then show ?thesis
    by (simp add: authorize_post_def Let_def consent_form_def demo_own demo_user_allowed idp_header_exe_email_def
        claim_str_read_back demo_distinct demo_claim_str demo_issues demo_types)
qed

definition at_mark :: "time \<Rightarrow> idp_world" where "at_mark m = demo_world\<lparr>iw_mark := m\<rparr>"

lemma at_mark_fields [simp]: "iw_verify (at_mark m) = 0" "iw_mark (at_mark m) = m"
  by (simp_all add: at_mark_def)

lemma at_mark_claims:
  "access_claims (at_mark m) demo_idp ''a@b'' demo_client [] [] = demo_access"
  "refresh_claims (at_mark m) demo_idp ''a@b'' demo_client [] [] = demo_refresh"
  by (simp_all add: demo_access_def demo_refresh_def access_claims_def refresh_claims_def at_mark_def rand_id_def)

lemma at_mark_issues: "issue demo_env (at_mark m) i demo_idp c = issue demo_env demo_world i demo_idp c"
  by (simp add: issue_def at_mark_def)

lemma demo_redeem:
  "\<exists>res u. token_from_code demo_env (at_mark m) code_form demo_idp = ((res, [demo_access, demo_refresh]), demo_idp\<lparr>ip_used := u\<rparr>)"
proof -
  obtain u where m: "mark_code_used m (b64u ''r'') (claim_num (ie_jwt demo_env) demo_code ''exp'' * second) demo_idp = (True, demo_idp\<lparr>ip_used := u\<rparr>)"
    by (auto simp: mark_code_used_def Let_def b64u.simps)
  have "snd (issue_tokens demo_env (at_mark m) (demo_idp\<lparr>ip_used := u\<rparr>) ''a@b'' demo_client [] [] [] True) = [demo_access, demo_refresh]"
    unfolding issue_tokens_def issue_used claims_used cfg_used at_mark_claims at_mark_issues
    by (simp add: Let_def demo_issues demo_distinct demo_types sign_more_def str_contains_def)
  then obtain res where i: "issue_tokens demo_env (at_mark m) (demo_idp\<lparr>ip_used := u\<rparr>) ''a@b'' demo_client [] [] [] True
      = (res, [demo_access, demo_refresh])" by (metis prod.collapse)
  show ?thesis
    by (intro exI [of _ res] exI [of _ u])
      (simp add: token_from_code_def code_form_def demo_own claim_str_read_back claim_num_read_back demo_distinct demo_claim_str m i)
qed

lemma demo_verify: "verify_request demo_env 0 (idp_verifier demo_idp) demo_use = Inr ''a@b''"
proof -
  have a: "rq_header demo_use ''Authorization'' = ''Bearer '' @ demo_token ''access''" by (simp add: demo_use_def)
  have "claim demo_access ''aud'' = None"
    by (simp add: claim_def demo_access_def access_claims_def)
  then have "claim_aud (read_back demo_access) = []"
    by (simp add: claim_aud_def claim_read_back demo_distinct)
  moreover have "trim_prefix (''Bearer '' @ demo_token ''access'') ''Bearer '' = demo_token ''access''" by (rule trim_prefix_append)
  moreover have "has_prefix (''Bearer '' @ demo_token ''access'') ''Bearer ''" unfolding has_prefix_iff by blast
  ultimately show ?thesis
    unfolding verify_request_def a idp_verifier_def verifier.simps Let_def
    by (simp only: demo_open demo_reads demo_times demo_idp_fields demo_fields claim_str_read_back demo_distinct demo_claim_str
        demo_user_allowed to_valid_const sum.case if_True if_False HOL.simp_thms list.distinct)
qed

section \<open>The theorems\<close>

lemma token_roundtrip_witness:
  "verify_jwt (ie_jwt demo_env) 0 (\<lambda>k. if k \<noteq> ''k'' then Inl (UnknownKey k) else Inr (ip_pub demo_idp)) (demo_token ''code'')
    = Inr (read_back demo_code)"
proof -
  have "verify_jwt (ie_jwt demo_env) 0 (\<lambda>k. if k \<noteq> ''k'' then Inl (UnknownKey k) else Inr (ip_pub demo_idp)) (demo_token ''code'')
    = check_times (ie_jwt demo_env) 0 (read_back demo_code)"
  proof (rule token_roundtrip)
    show "codec_at (ie_jwt demo_env) (jwt_header ''k'')"
      by (simp add: codec_at_def jwt_header_def demo_reader_def to_valid_ascii ascii_def)
    show "codec_at (ie_jwt demo_env) (JObj (sort_key fst demo_code))"
      using demo_codec [OF demo_distinct(2) demo_types(2) demo_reads(2)] .
    show "sign_jwt (ie_jwt demo_env) ''k'' (\<lambda>d. Some (replicate 64 CHR ''s'')) demo_code = Some (demo_token ''code'')"
      by (simp add: sign_jwt_def demo_signed demo_distinct demo_types demo_token_def)
  qed (auto simp: demo_distinct to_valid_ascii ascii_def)
  then show ?thesis by (simp only: demo_times)
qed

lemma demo_unforged: "c \<in> set (is_signed s) \<Longrightarrow> distinct (map fst c) \<Longrightarrow> map_of c ''typ'' = Some (JStr t) \<Longrightarrow>
    ip_kid (is_server s) = ''k'' \<Longrightarrow> unforged demo_env s (demo_token t)"
proof -
  have "token_input (demo_token t) = b64u ''JWT'' @ ''.'' @ b64u t"
    by (simp add: token_input_def demo_token_def split_token)
  then show "c \<in> set (is_signed s) \<Longrightarrow> distinct (map fst c) \<Longrightarrow> map_of c ''typ'' = Some (JStr t) \<Longrightarrow>
      ip_kid (is_server s) = ''k'' \<Longrightarrow> unforged demo_env s (demo_token t)"
    using demo_signed by (auto simp: unforged_def known_input_def split: option.split)
qed

lemma empty_unforged: "unforged env s []"
  by (simp add: unforged_def signature_of_def)

lemma demo_codecs: "list_all (\<lambda>c. codec_at (ie_jwt demo_env) (JObj (sort_key fst c))) [req_claims, demo_code, demo_access, demo_refresh]"
  by (simp add: demo_codec [OF demo_distinct(1) demo_types(1) demo_reads(1)] demo_codec [OF demo_distinct(2) demo_types(2) demo_reads(2)]
      demo_codec [OF demo_distinct(3) demo_types(3) demo_reads(3)] demo_codec [OF demo_distinct(4) demo_types(4) demo_reads(4)])

lemma demo_run:
  "\<exists>u. run (idp_step demo_env) (start_idp demo_idp)
     [AskConsent demo_world demo_ask, GiveConsent demo_world consent_form demo_ask, AskToken (at_mark 0) code_form]
     \<lparr>is_server = demo_idp\<lparr>ip_used := u\<rparr>, is_signed = [demo_access, demo_refresh, demo_code, req_claims]\<rparr>"
proof -
  let ?s1 = "\<lparr>is_server = demo_idp, is_signed = [req_claims]\<rparr>" and ?s2 = "\<lparr>is_server = demo_idp, is_signed = [demo_code, req_claims]\<rparr>"
  obtain r1 where "authorize_get demo_env demo_world demo_idp demo_ask = (r1, [req_claims])" using demo_authorize by (metis prod.collapse)
  then have one: "idp_step demo_env (start_idp demo_idp) (AskConsent demo_world demo_ask) ?s1"
    using demo_codecs by (intro idp_get [where res = r1 and cs = "[req_claims]"]) (simp_all add: start_idp_def recorded_def)
  obtain r2 where "authorize_post demo_env demo_world demo_idp (Some consent_form) demo_ask = (r2, [demo_code])"
    using demo_post by (metis prod.collapse)
  moreover have "unforged demo_env ?s1 (consent_form ''req'')"
    using demo_unforged [of req_claims ?s1] demo_distinct demo_types by (simp add: consent_form_def)
  ultimately have two: "idp_step demo_env ?s1 (GiveConsent demo_world consent_form demo_ask) ?s2"
    using demo_codecs by (intro idp_post [where res = r2 and cs = "[demo_code]"]) (simp_all add: recorded_def)
  obtain r3 u where r3: "token_from_code demo_env (at_mark 0) code_form demo_idp = ((r3, [demo_access, demo_refresh]), demo_idp\<lparr>ip_used := u\<rparr>)"
    using demo_redeem by blast
  let ?s3 = "\<lparr>is_server = demo_idp\<lparr>ip_used := u\<rparr>, is_signed = [demo_access, demo_refresh, demo_code, req_claims]\<rparr>"
  have "unforged demo_env ?s2 (code_form ''code'')"
    using demo_unforged [of demo_code ?s2] demo_distinct demo_types by (simp add: code_form_def)
  then have "idp_step demo_env ?s2 (AskToken (at_mark 0) code_form) ?s3"
    using demo_codecs r3 by (intro idp_token [where res = r3 and cs = "[demo_access, demo_refresh]"])
      (simp_all add: recorded_def handle_token_def code_form_def empty_unforged)
  with run_Cons [of "idp_step demo_env", OF one run_Cons [of "idp_step demo_env", OF two run_one [of "idp_step demo_env"]]] show ?thesis by blast
qed

lemma demo_bearer: "bearer_token demo_use = demo_token ''access''"
proof -
  have a: "rq_header demo_use ''Authorization'' = ''Bearer '' @ demo_token ''access''" by (simp add: demo_use_def)
  show ?thesis unfolding bearer_token_def a by (rule trim_prefix_append)
qed

lemma access_needs_approval_witness:
  "\<exists>e. ''a@b'' = to_lower (ie_lower demo_env) e \<and> consents demo_env demo_idp e (GiveConsent demo_world consent_form demo_ask)"
proof -
  obtain u where r: "run (idp_step demo_env) (start_idp demo_idp)
     [AskConsent demo_world demo_ask, GiveConsent demo_world consent_form demo_ask, AskToken (at_mark 0) code_form]
     \<lparr>is_server = demo_idp\<lparr>ip_used := u\<rparr>, is_signed = [demo_access, demo_refresh, demo_code, req_claims]\<rparr>"
    (is "run _ _ _ ?s") using demo_run by blast
  have u: "unforged demo_env ?s (bearer_token demo_use)"
    using demo_unforged [of demo_access ?s] demo_distinct demo_types by (simp add: demo_bearer)
  have "idp_verifier (is_server ?s) = idp_verifier demo_idp" by (simp add: idp_verifier_def)
  then have "verify_request demo_env 0 (idp_verifier (is_server ?s)) demo_use = Inr ''a@b''" using demo_verify by simp
  from access_needs_approval [OF r u this] show ?thesis
    by (auto simp: consents_def)
qed

lemma demo_same_expiry: "same_expiry demo_env (\<lambda>j. claim_num (ie_jwt demo_env) demo_code ''exp'') demo_idp
    [(at_mark 0, code_form), (at_mark 0, code_form)]"
  by (simp add: same_expiry_def code_form_def demo_own claim_num_read_back demo_distinct)


lemma code_replayed_across_expiry_witness:
  "snd (fst (token_from_code demo_env (at_mark (400 * second)) code_form
      (demo_idp\<lparr>ip_used := fmupd (b64u ''r'') (300 * second) fmempty\<rparr>))) = [demo_access, demo_refresh]"
proof -
  let ?srv = "demo_idp\<lparr>ip_used := fmupd (b64u ''r'') (300 * second) fmempty\<rparr>"
  have e: "claim_num (ie_jwt demo_env) (read_back demo_code) ''exp'' = 300"
    by (simp add: claim_num_read_back demo_distinct) (simp add: claim_num_def claim_def demo_code_def code_claims_def unix_time_def small_times)
  have "fst (token_from_code demo_env (at_mark (400 * second)) code_form ?srv)
      = fst (token_from_code demo_env (at_mark (400 * second)) code_form (?srv\<lparr>ip_used := fmempty\<rparr>))"
    by (rule code_replayed_across_expiry [of _ _ _ _ "read_back demo_code"])
      (simp_all add: verify_own_used code_form_def demo_own e clock_skew_def claim_str_read_back demo_distinct demo_claim_str b64u_v)
  moreover have "?srv\<lparr>ip_used := fmempty\<rparr> = demo_idp" by (simp add: demo_idp_def)
  ultimately have "fst (token_from_code demo_env (at_mark (400 * second)) code_form ?srv)
      = fst (token_from_code demo_env (at_mark (400 * second)) code_form demo_idp)" by metis
  then show ?thesis using demo_redeem [of "400 * second"] by auto
qed

definition bad_ask :: request where
  "bad_ask = demo_ask\<lparr>rq_query := (rq_query demo_ask)(''response_type'' := ''token'')\<rparr>"


lemma audience_restricts_witness: "normalize_host demo_env ''H'' = normalize_host demo_env (rq_host demo_ask)"
proof -
  have "aud_matches_request demo_env [''x''] demo_ask"
    unfolding aud_matches_request_def demo_env_def demo_texts_def by code_simp
  from audience_restricts [OF this] show ?thesis by (auto simp: demo_url_def demo_ask_def)
qed

end
