(* ===== verification/Guard_Examples.thy ===== *)
theory Guard_Examples
  imports Guard_Safety Idp_Examples
begin

text \<open>The theorems about the guard and the start-up on small requests and flags.\<close>

definition plain_request :: "string \<Rightarrow> (string \<Rightarrow> string) \<Rightarrow> request" where
  "plain_request p h = \<lparr>rq_method = ''POST'', rq_path = p, rq_raw_path = [], rq_raw_query = [], rq_host = [], rq_tls = True,
     rq_proto_major = 1, rq_client = None, rq_header = h, rq_form = (\<lambda>k. []), rq_query = (\<lambda>k. [])\<rparr>"

definition token_auth :: auth where "token_auth = \<lparr>au_bearer = ''t'', au_owner = [], au_oauth = None\<rparr>"

lemma default_deny_witness: "with_guard demo_env 0 token_auth (plain_request ''/mcp'' (\<lambda>k. [])) \<noteq> None"
proof -
  have "main_route True True (rq_method (plain_request ''/mcp'' (\<lambda>k. []))) [''mcp''] = Some Mcp"
    by (simp add: main_route_def)
  then have "with_guard demo_env 0 token_auth (plain_request ''/mcp'' (\<lambda>k. [])) = None
      \<longleftrightarrow> public_route Mcp \<or> auth_ok demo_env 0 token_auth (plain_request ''/mcp'' (\<lambda>k. []))"
    by (rule default_deny) (simp add: plain_request_def)
  moreover have "\<not> auth_ok demo_env 0 token_auth (plain_request ''/mcp'' (\<lambda>k. []))"
    by (rule no_credentials) (simp_all add: plain_request_def)
  ultimately show ?thesis by (simp add: public_route_def)
qed


definition no_flags :: opts where
  "no_flags = \<lparr>o_http_addr = '':80'', o_workspace = ''/w'', o_perms_file = [], o_mode = ''default'', o_audit_path = [], o_metrics_addr = [],
     o_token = ''t'', o_token_file = [], o_owner_email = ''a@b'', o_session_ttl = 0, o_hub_agent_token = [], o_hub_agent_token_file = [],
     o_hub_agent_owner_email = [], o_hub_agent_listen = [], o_hub_advertise_url = [], o_hub_connect = False, o_hub_url = [],
     o_hub_name = [], o_hub_token = [], o_hub_token_file = [], o_hub_integration = [], o_reflection_url = [], o_idp_issuer = [],
     o_idp_users = [], o_idp_key_file = []\<rparr>"

definition plain_startup :: startup where
  "plain_startup = \<lparr>su_getwd = Inl [], su_abs = Inr, su_is_dir = (\<lambda>d. True), su_load_config = (\<lambda>f. Inl []), su_eval_symlinks = Some,
     su_working_dir = Some ''/'', su_home = None, su_open_audit = (\<lambda>f. Inl []), su_read_file = (\<lambda>f. Inl []), su_env = (\<lambda>v. []),
     su_hostname = Inr ''h.x'', su_config_dir = Inl [], su_mkdir = (\<lambda>d. None), su_load_key = (\<lambda>f. Inl [])\<rparr>"

lemma plain_plan: "\<exists>e. plan_run demo_env (\<lambda>s t. False) plain_startup no_flags
    = Inr (e, ServeHttp \<lparr>hp_auth = \<lparr>au_bearer = ''t'', au_owner = ''a@b'', au_oauth = None\<rparr>, hp_idp = None, hp_hub = None, hp_dials = False\<rparr>)"
proof -
  obtain e where e: "new_engine Some (Some ''/'') None \<lparr>cfg_allow = [], cfg_ask = [], cfg_deny = []\<rparr> ''default'' ''/w'' = Inr e"
    by (auto simp: new_engine_def parse_mode_def path_abs_def is_abs_def Let_def split: sum.splits option.splits)
  show ?thesis
    by (simp add: plan_run_def no_flags_def plain_startup_def e ValidMode_def parse_mode_def lift_error_def check_that_def new_logger_def
        resolve_hub_token_def plan_http_def resolve_token_def resolve_from_def auth_layers_def static_methods_def equal_fold_def ascii_def)
qed

lemma never_unauthenticated_witness:
  "\<exists>e p. plan_run demo_env (\<lambda>s t. False) plain_startup no_flags = Inr (e, ServeHttp p)
     \<and> au_oauth (hp_auth p) = None \<and> \<not> auth_ok demo_env 0 (hp_auth p) (plain_request ''/mcp'' (\<lambda>k. []))"
proof -
  obtain e p where p: "plan_run demo_env (\<lambda>s t. False) plain_startup no_flags = Inr (e, ServeHttp p)"
    "au_bearer (hp_auth p) = ''t''"
    using plain_plan by fastforce
  from never_unauthenticated [OF p(1), of "plain_request ''/mcp'' (\<lambda>k. [])" 0] p show ?thesis
    by (auto simp: plain_request_def no_flags_def)
qed

end
