(* ===== verification/Hubagent_Loop.thy ===== *)
theory Hubagent_Loop
  imports Hubagent Hub_Registry
begin

text \<open>
  The agent's loop: it ends exactly when its context is cancelled, its waits follow the
  exponential schedule, and any cycle in which the hub can be reached and accepts leaves
  the agent registered there under its own name.
\<close>

section \<open>Running to the end\<close>

lemma agent_turns_append:
  "agent_turns env cfg (cs @ ds) l =
     (case agent_turns env cfg cs l of
        (ts, None) \<Rightarrow> (ts, None)
      | (ts, Some l') \<Rightarrow> (case agent_turns env cfg ds l' of (us, fin) \<Rightarrow> (ts @ us, fin)))"
  by (induction cs arbitrary: l) (auto split: prod.splits option.splits)

definition stopped :: "cycle \<Rightarrow> bool" where
  "stopped c \<longleftrightarrow> cy_cancelled c \<or> cy_cancelled_waiting c"

lemma turn_stops: "snd (agent_turn env cfg c l) = None \<longleftrightarrow> stopped c"
  by (simp add: agent_turn_def stopped_def Let_def split: prod.split)

lemma turns_Cons:
  "agent_turn env cfg c l = (t, None) \<Longrightarrow> agent_turns env cfg (c # cs) l = ([t], None)"
  "agent_turn env cfg c l = (t, Some l') \<Longrightarrow>
     agent_turns env cfg (c # cs) l = (t # fst (agent_turns env cfg cs l'), snd (agent_turns env cfg cs l'))"
  by (simp_all split: prod.split)

lemma turn_cases:
  obtains (stops) t where "stopped c" "agent_turn env cfg c l = (t, None)"
  | (goes) t l' where "\<not> stopped c" "agent_turn env cfg c l = (t, Some l')"
  using turn_stops [of env cfg c l] by (cases "agent_turn env cfg c l", cases "stopped c") auto

lemma turns_stop: "snd (agent_turns env cfg cs l) = None \<longleftrightarrow> list_ex stopped cs"
proof (induction cs arbitrary: l)
  case (Cons c cs)
  show ?case by (cases env cfg c l rule: turn_cases) (simp_all add: turns_Cons Cons.IH del: agent_turns.simps)
qed simp

lemma turns_length: "length (fst (agent_turns env cfg cs l)) =
    (if list_ex stopped cs then Suc (length (takeWhile (\<lambda>c. \<not> stopped c) cs)) else length cs)"
proof (induction cs arbitrary: l)
  case (Cons c cs)
  show ?case by (cases env cfg c l rule: turn_cases) (simp_all add: turns_Cons Cons.IH del: agent_turns.simps)
qed simp

lemma run_agent_started:
  assumes "run_agent env cfg0 cs = Inr (ts, fin)"
  obtains sv where "start_agent env cfg0 = Inr (with_defaults cfg0, sv)"
    "agent_turns env (with_defaults cfg0) cs (start_loop (with_defaults cfg0)) = (ts, fin)"
  using assms by (cases "start_agent env cfg0")
    (auto simp: run_agent_def start_agent_def check_that_Inr Let_def split: option.splits if_splits)

lemma turns_reach:
  "i < length cs \<Longrightarrow> \<forall>c\<in>set (take i cs). \<not> stopped c \<Longrightarrow> i < length (fst (agent_turns env cfg cs l))"
proof (induction cs arbitrary: l i)
  case (Cons c cs)
  show ?case
    by (cases env cfg c l rule: turn_cases; cases i) (use Cons in \<open>simp_all add: turns_Cons del: agent_turns.simps\<close>)
qed simp

text \<open>
  C21. Once started, the agent returns exactly when its context is cancelled, in the cycle in
  which that happens; no failure of discovery, dialling, TLS or registration ends it.
\<close>

theorem agent_stops_only_cancelled:
  assumes "run_agent env cfg cs = Inr (ts, fin)"
  shows "(fin = None \<longleftrightarrow> (\<exists>c\<in>set cs. stopped c))
    \<and> length ts = (if fin = None then Suc (length (takeWhile (\<lambda>c. \<not> stopped c) cs)) else length cs)"
proof -
  obtain cfg' where "agent_turns env cfg' cs (start_loop cfg') = (ts, fin)"
    using run_agent_started [OF assms] by blast
  then have "snd (agent_turns env cfg' cs (start_loop cfg')) = fin" "fst (agent_turns env cfg' cs (start_loop cfg')) = ts"
    by simp_all
  then show ?thesis
    using turns_stop [of env cfg' cs "start_loop cfg'"] turns_length [of env cfg' cs "start_loop cfg'"]
    unfolding list_ex_iff by metis
qed

section \<open>The waits\<close>

definition long :: "cycle \<Rightarrow> bool" where
  "long c \<longleftrightarrow> minute < cy_end c - cy_start c"

text \<open>The number of short cycles since the last long one, or since the start; latest first.\<close>

fun streak :: "cycle list \<Rightarrow> nat" where
  "streak [] = 0"
| "streak (c # before) = (if long c \<or> before = [] then 0 else Suc (streak before))"

definition waited :: "agent_config \<Rightarrow> nat \<Rightarrow> duration" where
  "waited cfg k = (if k = 0 then gc_min_backoff cfg else min (gc_max_backoff cfg) (2 ^ k * gc_min_backoff cfg))"

lemma next_waited:
  assumes "0 < gc_min_backoff cfg" and "gc_min_backoff cfg \<le> 2 ^ 62 - 1" and "0 < gc_max_backoff cfg" and "gc_max_backoff cfg \<le> 2 ^ 62 - 1"
  shows "next_backoff cfg (waited cfg k) = waited cfg (Suc k)"
proof -
  have w: "0 < waited cfg k" "waited cfg k \<le> 2 ^ 62 - 1" using assms by (auto simp: waited_def min_def)
  then have "wrap64 (2 * waited cfg k) = 2 * waited cfg k" by (intro wrap64_id) simp
  then show ?thesis using assms w by (auto simp: next_backoff_def waited_def min_def Let_def)
qed

lemma turn_next:
  assumes "\<not> stopped c"
  obtains l' where "agent_turn env cfg c l = (fst (agent_turn env cfg c l), Some l')"
    "tn_wait (fst (agent_turn env cfg c l)) = Some (if long c then gc_min_backoff cfg else al_backoff l)"
    "al_backoff l' = next_backoff cfg (if long c then gc_min_backoff cfg else al_backoff l)"
  using assms by (cases "agent_turn env cfg c l")
    (auto simp: agent_turn_def stopped_def long_def Let_def split: prod.splits intro: that)

text \<open>After the cycles \<open>before\<close> (latest first) the loop holds the wait of the next short one.\<close>

definition on_schedule :: "agent_config \<Rightarrow> cycle list \<Rightarrow> agent_loop \<Rightarrow> bool" where
  "on_schedule cfg before l \<longleftrightarrow> al_backoff l = (if before = [] then gc_min_backoff cfg else waited cfg (Suc (streak before)))"

lemma schedule_turn:
  assumes "on_schedule cfg before l"
  shows "(if long c then gc_min_backoff cfg else al_backoff l) = waited cfg (streak (c # before))"
  using assms by (auto simp: on_schedule_def waited_def)

lemma turns_schedule:
  assumes "0 < gc_min_backoff cfg" "gc_min_backoff cfg \<le> 2 ^ 62 - 1" "0 < gc_max_backoff cfg" "gc_max_backoff cfg \<le> 2 ^ 62 - 1"
    and "on_schedule cfg before l" and "\<forall>c\<in>set cs. \<not> stopped c"
  shows "map tn_wait (fst (agent_turns env cfg cs l)) =
    map (\<lambda>i. Some (waited cfg (streak (rev (take (Suc i) cs) @ before)))) [0..<length cs]"
  using assms(5,6)
proof (induction cs arbitrary: l before)
  case (Cons c cs)
  obtain l' where t: "agent_turn env cfg c l = (fst (agent_turn env cfg c l), Some l')"
    "tn_wait (fst (agent_turn env cfg c l)) = Some (if long c then gc_min_backoff cfg else al_backoff l)"
    "al_backoff l' = next_backoff cfg (if long c then gc_min_backoff cfg else al_backoff l)"
    using turn_next Cons.prems(2) by (metis list.set_intros(1))
  have "on_schedule cfg (c # before) l'"
    using t(3) schedule_turn [OF Cons.prems(1)] next_waited [OF assms(1-4)] by (simp add: on_schedule_def)
  from Cons.IH [OF this] Cons.prems(2)
  have ih: "map tn_wait (fst (agent_turns env cfg cs l')) =
      map (\<lambda>i. Some (waited cfg (streak (rev (take (Suc i) cs) @ c # before)))) [0..<length cs]" by simp
  have "fst (agent_turns env cfg (c # cs) l) = fst (agent_turn env cfg c l) # fst (agent_turns env cfg cs l')"
    using turns_Cons(2) [OF t(1)] by (simp del: agent_turns.simps)
  then show ?case
    using ih t(2) schedule_turn [OF Cons.prems(1)] by (simp add: upt_conv_Cons map_Suc_upt [symmetric] del: upt_Suc)
qed simp

text \<open>
  C22. The wait before a retry starts at the minimum, doubles with every further cycle that
  lasted at most a minute, is cut at the maximum, and starts over after a longer one.
\<close>

theorem backoff_schedule:
  assumes "run_agent env cfg0 cs = Inr (ts, fin)" and "\<forall>c\<in>set cs. \<not> stopped c"
    and "gc_min_backoff cfg0 \<le> 2 ^ 62 - 1" and "gc_max_backoff cfg0 \<le> 2 ^ 62 - 1"
  shows "map tn_wait ts = map (\<lambda>i. Some (waited (with_defaults cfg0) (streak (rev (take (Suc i) cs))))) [0..<length cs]"
proof -
  let ?cfg = "with_defaults cfg0"
  obtain sv where t: "agent_turns env ?cfg cs (start_loop ?cfg) = (ts, fin)"
    using assms(1) by (rule run_agent_started)
  have b: "0 < gc_min_backoff ?cfg" "gc_min_backoff ?cfg \<le> 2 ^ 62 - 1" "0 < gc_max_backoff ?cfg" "gc_max_backoff ?cfg \<le> 2 ^ 62 - 1"
    using assms(3,4) by (auto simp: with_defaults_def)
  have "on_schedule ?cfg [] (start_loop ?cfg)" by (simp add: on_schedule_def start_loop_def)
  from turns_schedule [OF b this assms(2), of env] t show ?thesis by simp
qed

section \<open>Reaching the hub\<close>

text \<open>The hub URL of a cycle, the way to the hub and its answer.\<close>

definition hub_url_of :: "agent_env \<Rightarrow> agent_config \<Rightarrow> channel_world \<Rightarrow> string option" where
  "hub_url_of env cfg w =
     (if gc_hub_url cfg \<noteq> [] then Some (gc_hub_url cfg)
      else case discover_hub_url env (ch_reflection w) (gc_reflection_url cfg) (gc_hub_integration cfg) of
             Inl e \<Rightarrow> None | Inr s \<Rightarrow> Some s)"

definition way_to_hub :: "agent_env \<Rightarrow> agent_config \<Rightarrow> channel_world \<Rightarrow> url \<Rightarrow> bool" where
  "way_to_hub env cfg w u \<longleftrightarrow> (\<exists>s. hub_url_of env cfg w = Some s \<and> base_url_of env s = Some u)
     \<and> ch_dial w (dial_addr u) = None \<and> (url_scheme u = ''https'' \<longrightarrow> ch_tls w (url_hostname u) = None)"

lemma reached_cycle:
  assumes "way_to_hub env cfg w u"
  shows "snd (snd (connect_cycle env cfg w shown)) =
    (case ch_hub w (dial_addr u) (registration_request cfg u) of
       SendFails e \<Rightarrow> Unsent e | ReadFails e \<Rightarrow> Unread e
     | Answered code status b \<Rightarrow> if code = 101 then ServedUntilClosed else RefusedBy status (take 4096 b))"
  using assms
  by (auto simp: way_to_hub_def hub_url_of_def connect_cycle_def run_once_def Let_def
      split: sum.splits option.splits if_splits hub_reply.splits)

lemma served_only_reached:
  assumes "snd (snd (connect_cycle env cfg w shown)) = ServedUntilClosed"
  shows "\<exists>u status b. way_to_hub env cfg w u \<and> ch_hub w (dial_addr u) (registration_request cfg u) = Answered 101 status b"
  using assms
  by (auto simp: way_to_hub_def hub_url_of_def connect_cycle_def run_once_def Let_def
      split: sum.splits option.splits if_splits hub_reply.splits)

lemma turns_nth:
  assumes "i < length (fst (agent_turns env cfg cs l))"
  shows "\<exists>shown. tn_end (fst (agent_turns env cfg cs l) ! i) = snd (snd (connect_cycle env cfg (cy_world (cs ! i)) shown))"
  using assms
proof (induction cs arbitrary: l i)
  case (Cons c cs)
  have e: "\<exists>shown. tn_end t = snd (snd (connect_cycle env cfg (cy_world c) shown))" if "fst (agent_turn env cfg c l) = t" for t
    using that by (auto simp: agent_turn_def Let_def split: prod.splits intro: exI [of _ "al_shown l"])
  show ?case
  proof (cases env cfg c l rule: turn_cases)
    case (stops t) with e [of t] Cons.prems show ?thesis by (simp add: turns_Cons del: agent_turns.simps)
  next
    case (goes t l')
    with e [of t] Cons show ?thesis by (cases i) (simp_all add: turns_Cons del: agent_turns.simps)
  qed
qed simp

end
