(* ===== verification/Hubagent_Joins.thy ===== *)
theory Hubagent_Joins
  imports Hubagent_Loop
begin

text \<open>
  The agent and the hub together: the request of \<^verbatim>\<open>runOnce\<close> passes the checks of
  \<^verbatim>\<open>handleConnect\<close>, and a request for \<^verbatim>\<open>/vm/<name>/...\<close> travels through the hub's
  proxy, the channel and the agent's handler to the local server.
\<close>

section \<open>Names survive the trip\<close>

lemma name_char:
  assumes "valid_name s" and "c \<in> set s"
  shows "solid c \<and> byte c < 128 \<and> lower_char c = c"
proof -
  have "byte CHR ''a'' \<le> byte c \<and> byte c \<le> byte CHR ''z'' \<or> byte CHR ''0'' \<le> byte c \<and> byte c \<le> byte CHR ''9'' \<or> c = CHR ''-''"
    using assms unfolding valid_name_grammar by blast
  then have b: "97 \<le> byte c \<and> byte c \<le> 122 \<or> 48 \<le> byte c \<and> byte c \<le> 57 \<or> byte c = 45"
    by (elim disjE) simp_all
  have "solid c" by (rule solid_printing) (use b in linarith)
  moreover have "lower_char c = c" using b by (auto simp: lower_char_def)
  ultimately show ?thesis using b by auto
qed

lemma valid_name_stable:
  assumes "valid_name s" shows "to_lower ul (trim_space s) = s" "s \<noteq> []"
proof -
  have ne: "s \<noteq> []" using assms by (simp add: valid_name_grammar)
  then have "trim_space s = s" using name_char [OF assms] by (intro trim_space_ends) simp_all
  then show "to_lower ul (trim_space s) = s"
    using name_char [OF assms] by (simp add: to_lower_def ascii_def list_all_iff map_idI)
  show "s \<noteq> []" by (rule ne)
qed

section \<open>Registration\<close>

text \<open>What the edge adds to a request it forwards: the caller's identity and machine.\<close>

definition at_edge :: "string \<Rightarrow> string \<Rightarrow> request \<Rightarrow> request" where
  "at_edge email vm r = set_header header_exe_email email (set_header header_source_vm vm r)"

definition presents_credential :: "(string \<Rightarrow> string) \<Rightarrow> hub_config \<Rightarrow> agent_config \<Rightarrow> string \<Rightarrow> bool" where
  "presents_credential ul hcfg cfg email \<longleftrightarrow>
     hc_agent_token hcfg \<noteq> [] \<and> gc_token cfg = hc_agent_token hcfg
     \<or> hc_owner_email hcfg \<noteq> [] \<and> to_lower ul (trim_space email) \<noteq> []
       \<and> to_lower ul (trim_space email) = to_lower ul (trim_space (hc_owner_email hcfg))"

lemma registration_headers:
  "rq_header (at_edge email vm (registration_request cfg u)) ''Upgrade'' = upgrade_protocol"
  "rq_header (at_edge email vm (registration_request cfg u)) ''Connection'' = ''Upgrade''"
  "rq_header (at_edge email vm (registration_request cfg u)) header_agent_name = gc_name cfg"
  "rq_header (at_edge email vm (registration_request cfg u)) header_agent_version = gc_version cfg"
  "rq_header (at_edge email vm (registration_request cfg u)) header_exe_email = email"
  "rq_header (at_edge email vm (registration_request cfg u)) header_source_vm = vm"
  "rq_header (at_edge email vm (registration_request cfg u)) ''Authorization'' = (if gc_token cfg \<noteq> [] then ''Bearer '' @ gc_token cfg else [])"
  "rq_proto_major (at_edge email vm (registration_request cfg u)) = 1"
  by (simp_all add: at_edge_def registration_request_def set_header_def header_agent_name_def header_agent_version_def
      header_exe_email_def header_source_vm_def)

lemma upgrade_accepted:
  "equal_fold uf upgrade_protocol upgrade_protocol" "str_contains (to_lower ul ''Upgrade'') ''upgrade''"
  by (simp_all add: equal_fold_def upgrade_protocol_def ascii_def to_lower_def lower_char_def str_contains_def char_of_def bit_simps)

lemma credential_iff:
  "authenticate_agent ul hcfg (at_edge email vm (registration_request cfg u)) \<noteq> [] \<longleftrightarrow> presents_credential ul hcfg cfg email"
  unfolding authenticate_agent_def Let_def prefix_trim_eq registration_headers presents_credential_def by auto

text \<open>
  The whole decision of the hub about an agent's request: it is refused for want of a
  method or of a credential, or for an invalid platform name, and otherwise accepted
  under the platform's name, or the agent's own where the platform names none.
\<close>

lemma hub_decides:
  assumes "valid_name (gc_name cfg)"
  shows "(\<exists>auth. connect_checks ul uf quote hcfg (at_edge email vm (registration_request cfg u)) = Inr (name, auth)) \<longleftrightarrow>
    presents_credential ul hcfg cfg email \<and> valid_name name
      \<and> name = (if to_lower ul (trim_space vm) = [] then gc_name cfg else to_lower ul (trim_space vm))"
proof -
  have p: "presents_credential ul hcfg cfg email \<Longrightarrow> \<not> (hc_agent_token hcfg = [] \<and> hc_owner_email hcfg = [])"
    by (auto simp: presents_credential_def)
  have c: "authenticate_agent ul hcfg (at_edge email vm (registration_request cfg u)) = [] \<longleftrightarrow> \<not> presents_credential ul hcfg cfg email"
    using credential_iff by blast
  show ?thesis
    unfolding connect_checks_def Let_def c registration_headers valid_name_stable(1) [OF assms]
    using p upgrade_accepted(1) [of uf] upgrade_accepted(2) [of ul] by auto
qed

text \<open>How the hub's answer comes back to the agent.\<close>

definition hub_says :: "connected \<Rightarrow> hub_reply" where
  "hub_says x = (case x of Joined i \<Rightarrow> Answered 101 ''101 Switching Protocols'' []
     | Abandoned \<Rightarrow> ReadFails ''EOF'' | Refused resp \<Rightarrow> Answered (rs_status resp) [] [])"

lemma joins_iff:
  "(\<exists>i h'. handle_connect ul uf quote hcfg now r (Upgraded remote) h = (Joined i, h')) \<longleftrightarrow>
     (\<exists>name auth. connect_checks ul uf quote hcfg r = Inr (name, auth))"
  by (auto simp: handle_connect_def split: sum.split prod.split)

lemma refused_not_101:
  "connect_checks ul uf quote hcfg r = Inl resp \<Longrightarrow> rs_status resp \<noteq> 101"
  by (auto simp: connect_checks_def Let_def http_error_def respond_def split: if_splits)

lemma says_101: "hub_says (fst (handle_connect ul uf quote hcfg now r (Upgraded remote) h)) = Answered 101 st b \<Longrightarrow>
    \<exists>i h'. handle_connect ul uf quote hcfg now r (Upgraded remote) h = (Joined i, h')"
  by (auto simp: handle_connect_def hub_says_def dest: refused_not_101 split: sum.splits prod.splits)

definition answered_by_hub ::
  "(string \<Rightarrow> string) \<Rightarrow> (string \<Rightarrow> string \<Rightarrow> bool) \<Rightarrow> (string \<Rightarrow> string) \<Rightarrow> hub_config \<Rightarrow> time \<Rightarrow> string \<Rightarrow> string \<Rightarrow> string \<Rightarrow> hub
    \<Rightarrow> channel_world \<Rightarrow> url \<Rightarrow> bool" where
  "answered_by_hub ul uf quote hcfg now remote email vm h w u \<longleftrightarrow>
     (\<forall>r. ch_hub w (dial_addr u) r = hub_says (fst (handle_connect ul uf quote hcfg now (at_edge email vm r) (Upgraded remote) h)))"

lemma served_iff_credential:
  assumes "valid_name (gc_name cfg)" and "way_to_hub env cfg w u" and "answered_by_hub ul uf quote hcfg now remote email vm h w u"
  shows "snd (snd (connect_cycle env cfg w shown)) = ServedUntilClosed \<longleftrightarrow>
    presents_credential ul hcfg cfg email \<and> (to_lower ul (trim_space vm) = [] \<or> valid_name (to_lower ul (trim_space vm)))"
proof -
  let ?r = "at_edge email vm (registration_request cfg u)"
  let ?hc = "handle_connect ul uf quote hcfg now ?r (Upgraded remote) h"
  have "snd (snd (connect_cycle env cfg w shown)) = ServedUntilClosed \<longleftrightarrow> (\<exists>st b. hub_says (fst ?hc) = Answered 101 st b)"
    using reached_cycle [OF assms(2), of shown] assms(3) by (auto simp: answered_by_hub_def split: hub_reply.splits)
  also have "\<dots> \<longleftrightarrow> (\<exists>i h'. ?hc = (Joined i, h'))"
    using says_101 [of ul uf quote hcfg now ?r remote h] by (auto simp: hub_says_def)
  also have "\<dots> \<longleftrightarrow> (\<exists>name auth. connect_checks ul uf quote hcfg ?r = Inr (name, auth))" by (rule joins_iff)
  also have "\<dots> \<longleftrightarrow> presents_credential ul hcfg cfg email \<and> (to_lower ul (trim_space vm) = [] \<or> valid_name (to_lower ul (trim_space vm)))"
    using hub_decides [OF assms(1), of ul uf quote hcfg email vm u] assms(1) by auto
  finally show ?thesis .
qed

lemma joined_routed:
  assumes "handle_connect ul uf quote hcfg now r up h = (Joined i, h')"
    and "connect_checks ul uf quote hcfg r = Inr (name, auth)"
  shows "lookup_agent name h' = Some i"
  using assms by (auto simp: handle_connect_def close_old_def lookup_register Let_def register_fst
      split: upgrade.splits prod.splits option.splits) (auto simp: register_def lookup_agent_def Let_def)

text \<open>
  C19. Whatever has gone wrong before, in the first cycle in which the agent finds its way to
  a hub whose token it holds, or whose owner the edge vouches for, the agent is served and
  the hub routes its name (the platform's where it gives one) to the new channel.
\<close>

theorem agent_gets_through:
  assumes "run_agent env cfg0 cs = Inr (ts, fin)" and "i < length cs" and "\<forall>c\<in>set (take i cs). \<not> stopped c"
    and "way_to_hub env (with_defaults cfg0) (cy_world (cs ! i)) u"
    and "answered_by_hub ul uf quote hcfg now remote email vm h (cy_world (cs ! i)) u"
    and "presents_credential ul hcfg cfg0 email"
    and "to_lower ul (trim_space vm) = [] \<or> valid_name (to_lower ul (trim_space vm))"
  shows "i < length ts \<and> tn_end (ts ! i) = ServedUntilClosed
    \<and> (\<exists>a h'. handle_connect ul uf quote hcfg now (at_edge email vm (registration_request (with_defaults cfg0) u)) (Upgraded remote) h
           = (Joined a, h')
         \<and> lookup_agent (if to_lower ul (trim_space vm) = [] then gc_name cfg0 else to_lower ul (trim_space vm)) h' = Some a)"
proof -
  let ?cfg = "with_defaults cfg0" and ?w = "cy_world (cs ! i)"
  let ?r = "at_edge email vm (registration_request ?cfg u)"
  obtain sv where a: "start_agent env cfg0 = Inr (?cfg, sv)" and t: "agent_turns env ?cfg cs (start_loop ?cfg) = (ts, fin)"
    using assms(1) by (rule run_agent_started)
  have n: "valid_name (gc_name ?cfg)" "gc_name ?cfg = gc_name cfg0" "gc_token ?cfg = gc_token cfg0"
    using a by (auto simp: start_agent_def check_that_Inr Let_def with_defaults_def)
  have i: "i < length ts" using turns_reach [OF assms(2,3), of env ?cfg "start_loop ?cfg"] t by simp
  have cred: "presents_credential ul hcfg ?cfg email" using assms(6) n(3) by (simp add: presents_credential_def)
  obtain shown where e: "tn_end (ts ! i) = snd (snd (connect_cycle env ?cfg ?w shown))"
    using turns_nth [of i env ?cfg cs "start_loop ?cfg"] t i by auto
  have "snd (snd (connect_cycle env ?cfg ?w shown)) = ServedUntilClosed"
    using served_iff_credential [OF n(1) assms(4,5)] cred assms(7) by blast
  moreover have "\<exists>auth. connect_checks ul uf quote hcfg ?r =
      Inr (if to_lower ul (trim_space vm) = [] then gc_name ?cfg else to_lower ul (trim_space vm), auth)"
    unfolding hub_decides [OF n(1)] using cred assms(7) n(1) by auto
  then obtain auth where c: "connect_checks ul uf quote hcfg ?r =
      Inr (if to_lower ul (trim_space vm) = [] then gc_name ?cfg else to_lower ul (trim_space vm), auth)" ..
  moreover obtain b h' where j: "handle_connect ul uf quote hcfg now ?r (Upgraded remote) h = (Joined b, h')"
    using joins_iff c by blast
  ultimately show ?thesis using i e joined_routed [OF j c] n(2) by auto
qed

section \<open>A request through hub, channel and agent\<close>

text \<open>On the channel: another peer, HTTP/2, and no TLS state, the connection being wrapped.\<close>

definition over_channel :: "string option \<Rightarrow> request \<Rightarrow> request" where
  "over_channel peer r = r\<lparr>rq_client := peer, rq_tls := False, rq_proto_major := 2\<rparr>"

definition forwarding_headers :: "string set" where
  "forwarding_headers = {''Forwarded'', ''X-Forwarded-For'', ''X-Forwarded-Host'', ''X-Forwarded-Proto''}"

lemma single_slash: "(if has_suffix p ''/'' then p @ q else p @ slash # q) = trim_suffix p ''/'' @ slash # q"
  by (auto simp: has_suffix_iff trim_suffix_def)

lemma forwarded_path:
  assumes "url_raw_path u = []" and "rq_raw_path r = []" and "rq_path r = slash # rest"
  shows "join_url_path env u r = (trim_suffix (url_path u) ''/'' @ slash # rest, [])"
  using assms single_slash [of "url_path u" rest] by (auto simp: join_url_path_def)

lemma forwarded_fields:
  assumes "url_raw_path u = []" and "rq_raw_path r = []" and "rq_path r = slash # rest" and "url_raw_query u = []"
  shows "rq_path (forwarded_request env u token r) = trim_suffix (url_path u) ''/'' @ slash # rest"
    "rq_method (forwarded_request env u token r) = rq_method r"
    "rq_raw_query (forwarded_request env u token r) = rq_raw_query r"
    "rq_host (forwarded_request env u token r) = url_host u"
    "rq_header (forwarded_request env u token r) ''Authorization'' =
       (if token \<noteq> [] then ''Bearer '' @ token else rq_header r ''Authorization'')"
    "k \<notin> forwarding_headers \<Longrightarrow> k \<noteq> ''Authorization'' \<Longrightarrow> rq_header (forwarded_request env u token r) k = rq_header r k"
  using forwarded_path [of u "set_x_forwarded r" rest env] assms
  by (simp_all add: forwarded_request_def set_url_def Let_def set_header_def)
    (auto simp: set_x_forwarded_def forwarding_headers_def)


end
