(* ===== verification/Hubagent_Examples.thy ===== *)
theory Hubagent_Examples
  imports Hubagent_Joins
begin

text \<open>The theorems about the agent on a small configuration and short runs.\<close>

definition hub_url :: url where
  "hub_url = \<lparr>url_scheme = ''http'', url_host = ''h'', url_hostname = ''h'', url_port = [], url_path = [], url_raw_path = [],
     url_raw_query = [], url_fragment = []\<rparr>"

definition agent_env0 :: agent_env where
  "agent_env0 = \<lparr>ag_parse = (\<lambda>s. if s = ''http://h'' then Some hub_url else None), ag_quote = id, ag_escaped = (\<lambda>p q. p),
     ag_url = url_host, ag_duration = (\<lambda>d. dec (nat d))\<rparr>"

definition web_agent :: agent_config where
  "web_agent = \<lparr>gc_hub_url = ''http://h'', gc_reflection_url = [], gc_hub_integration = [], gc_token = ''t'', gc_name = ''web'',
     gc_handler = None, gc_target = ''http://h'', gc_target_token = ''k'', gc_version = [],
     gc_min_backoff = 0, gc_max_backoff = 0, gc_dial_timeout = 0\<rparr>"

definition down :: channel_world where
  "down = \<lparr>ch_reflection = (\<lambda>s. NoReply []), ch_dial = (\<lambda>s. Some ''refused''), ch_tls = (\<lambda>s. None), ch_hub = (\<lambda>s r. SendFails [])\<rparr>"

definition web_hub :: hub_config where
  "web_hub = \<lparr>hc_agent_token = ''t'', hc_owner_email = [], hc_advertise_url = [], hc_version = []\<rparr>"

definition up :: channel_world where
  "up = \<lparr>ch_reflection = (\<lambda>s. NoReply []), ch_dial = (\<lambda>s. None), ch_tls = (\<lambda>s. None),
     ch_hub = (\<lambda>s r. hub_says (fst (handle_connect id (\<lambda>s t. False) id web_hub 0 (at_edge [] [] r) (Upgraded ''r'') new_hub)))\<rparr>"

definition quick :: "channel_world \<Rightarrow> bool \<Rightarrow> cycle" where
  "quick w stop = \<lparr>cy_start = 0, cy_world = w, cy_end = 0, cy_check = 0, cy_logged = 0, cy_cancelled = stop, cy_cancelled_waiting = False\<rparr>"

lemma web_name: "valid_name ''web''"
  by code_simp

lemma web_starts: "start_agent agent_env0 web_agent = Inr (with_defaults web_agent, Forwarding hub_url ''k'')"
  by (simp add: start_agent_def web_agent_def with_defaults_def web_name Let_def validate_base_url_def base_url_of_def
      agent_env0_def hub_url_def)

lemma web_runs: "\<exists>ts fin. run_agent agent_env0 web_agent cs = Inr (ts, fin)"
  by (simp add: run_agent_def web_starts)

lemma agent_stops_only_cancelled_witness:
  "\<exists>ts. run_agent agent_env0 web_agent [quick down False, quick down True, quick down False] = Inr (ts, None) \<and> length ts = 2"
proof -
  obtain ts fin where r: "run_agent agent_env0 web_agent [quick down False, quick down True, quick down False] = Inr (ts, fin)"
    using web_runs by blast
  from agent_stops_only_cancelled [OF r] r show ?thesis by (auto simp: stopped_def quick_def)
qed

lemma backoff_schedule_witness:
  "\<exists>ts fin. run_agent agent_env0 web_agent (replicate 3 (quick down False)) = Inr (ts, fin)
     \<and> map tn_wait ts = [Some second, Some (2 * second), Some (4 * second)]"
proof -
  obtain ts fin where r: "run_agent agent_env0 web_agent (replicate 3 (quick down False)) = Inr (ts, fin)"
    using web_runs by blast
  have "map tn_wait ts = map (\<lambda>i. Some (waited (with_defaults web_agent) (streak (rev (take (Suc i) (replicate 3 (quick down False)))))))
      [0..<length (replicate 3 (quick down False))]"
    using r by (rule backoff_schedule) (simp_all add: stopped_def quick_def web_agent_def)
  also have "\<dots> = [Some second, Some (2 * second), Some (4 * second)]"
    by (simp add: numeral_3_eq_3 upt_rec long_def quick_def minute_def waited_def with_defaults_def web_agent_def)
  finally have w: "map tn_wait ts = [Some second, Some (2 * second), Some (4 * second)]" .
  show ?thesis by (intro exI conjI, rule r, rule w)
qed

lemma agent_gets_through_witness:
  "\<exists>ts fin. run_agent agent_env0 web_agent [quick down False, quick up False] = Inr (ts, fin) \<and> tn_end (ts ! 1) = ServedUntilClosed"
proof -
  let ?cs = "[quick down False, quick up False]"
  obtain ts fin where r: "run_agent agent_env0 web_agent ?cs = Inr (ts, fin)"
    using web_runs by blast
  have i: "1 < length ?cs" "\<forall>c\<in>set (take 1 ?cs). \<not> stopped c" by (simp_all add: stopped_def quick_def)
  have w: "way_to_hub agent_env0 (with_defaults web_agent) (cy_world (?cs ! 1)) hub_url"
    by (simp add: way_to_hub_def hub_url_of_def with_defaults_def web_agent_def quick_def base_url_of_def agent_env0_def hub_url_def up_def)
  have a: "answered_by_hub id (\<lambda>s t. False) id web_hub 0 ''r'' [] [] new_hub (cy_world (?cs ! 1)) hub_url"
    by (simp add: answered_by_hub_def quick_def up_def)
  have c: "presents_credential id web_hub web_agent []" by (simp add: presents_credential_def web_hub_def web_agent_def)
  have v: "to_lower id (trim_space []) = [] \<or> valid_name (to_lower id (trim_space []))" by simp
  from agent_gets_through [OF r i w a c v] r show ?thesis by blast
qed

definition echo :: local_world where
  "echo = \<lparr>lw_dial = (\<lambda>s. None), lw_get = (\<lambda>s. None),
     lw_serve = (\<lambda>q. Inr (respond 200 [] (Plain (rq_path q @ rq_header q ''Authorization''))))\<rparr>"

definition one_channel :: hub where
  "one_channel = snd (register \<lparr>ac_name = ''web'', ac_remote = [], ac_version = [], ac_auth = [], ac_connected_at = 0, ac_closed = False\<rparr> new_hub)"


end
