(* ===== verification/Agent_Cmd.thy ===== *)
theory Agent_Cmd
  imports Hubagent
begin

text \<open>
  The command \<^verbatim>\<open>boxel-agent\<close>: its version (\<^verbatim>\<open>internal/version\<close>), the configuration its
  flags, files and environment add up to (\<^verbatim>\<open>main.go\<close>), the installer (\<^verbatim>\<open>setup.go\<close>) and
  the self-update (\<^verbatim>\<open>update.go\<close>). What the machine answers is \<open>os_world\<close>; what the command
  does to it is a sequence of system calls on a \<open>host\<close>, each of which may fail.
\<close>

section \<open>The version\<close>

record build_info =
  bi_path :: string
  bi_version :: string
  bi_settings :: "(string \<times> string) list"

definition setting :: "string \<Rightarrow> build_info \<Rightarrow> string" where
  "setting k bi = (case map_of (rev (bi_settings bi)) k of None \<Rightarrow> [] | Some v \<Rightarrow> v)"

definition from_build_info :: "build_info \<Rightarrow> string" where
  "from_build_info bi =
     (let v = bi_version bi
      in if v \<noteq> [] \<and> v \<noteq> ''(devel)'' then v
         else let rev = setting ''vcs.revision'' bi; dirty = (setting ''vcs.modified'' bi = ''true'')
         in if rev = [] then ''(devel)''
            else (if length rev > 12 then take 12 rev else rev) @ (if dirty then ''-dirty'' else []))"

definition version_string :: "build_info option \<Rightarrow> string" where
  "version_string b = (case b of None \<Rightarrow> ''(devel)'' | Some bi \<Rightarrow> from_build_info bi)"

definition default_module :: string where "default_module = ''github.com/mkmik/boxel''"

definition agent_module :: "build_info option \<Rightarrow> string" where
  "agent_module b = (case b of None \<Rightarrow> default_module | Some bi \<Rightarrow> if bi_path bi \<noteq> [] then bi_path bi else default_module)"

section \<open>The machine\<close>

text \<open>A file mode in octal digits.\<close>

abbreviation perm :: "nat \<Rightarrow> nat \<Rightarrow> nat \<Rightarrow> nat" where "perm u g a \<equiv> 64 * u + 8 * g + a"

record host_file =
  fi_content :: string
  fi_mode :: nat
  fi_gid :: int

datatype sys_call =
    MkdirAll string nat
  | Chown string int
  | WriteFile string string nat
  | Chmod string nat
  | CreateTemp string
  | WriteTemp string string
  | CloseTemp string
  | Rename string string
  | RemoveFile string
  | MkdirTemp string
  | RemoveTree string
  | GoInstall string string string "string list"
  | Command "string list"

record host =
  ho_files :: "string \<Rightarrow> host_file option"
  ho_calls :: "sys_call list"

text \<open>
  \<open>ow_fails\<close> is the error of a system call and \<open>ow_output\<close> what a failing program printed;
  \<open>ow_built\<close> is the binary \<^verbatim>\<open>go install\<close> leaves for a target; \<open>ow_umask\<close> is what a fresh
  file's mode becomes. \<^verbatim>\<open>golang.org/x/mod\<close> is \<open>ow_escape\<close>, \<open>ow_semver\<close> and \<open>ow_newer\<close>.
\<close>

record os_world =
  ow_env :: "string \<Rightarrow> string"
  ow_environ :: "string list"
  ow_root :: bool
  ow_systemctl :: bool
  ow_hostname :: "string + string"
  ow_lower :: "string \<Rightarrow> string"
  ow_quote :: "string \<Rightarrow> string"
  ow_user :: "string \<Rightarrow> string + string \<times> string"
  ow_gid :: "string \<Rightarrow> string + int"
  ow_executable :: "string + string"
  ow_symlinks :: "string \<Rightarrow> string + string"
  ow_read :: "string \<Rightarrow> string + string"
  ow_temp :: "string + string"
  ow_staging :: "string + string"
  ow_umask :: "nat \<Rightarrow> nat"
  ow_fails :: "sys_call \<Rightarrow> string option"
  ow_output :: "sys_call \<Rightarrow> string"
  ow_build :: "build_info option"
  ow_escape :: "string \<Rightarrow> string + string"
  ow_semver :: "string \<Rightarrow> bool"
  ow_newer :: "string \<Rightarrow> string \<Rightarrow> bool"
  ow_get :: "string \<Rightarrow> string + nat \<times> string \<times> string"
  ow_version_field :: "string \<Rightarrow> string + string"
  ow_go_in_path :: "string option"
  ow_is_file :: "string \<Rightarrow> bool"
  ow_built :: "string \<Rightarrow> host_file option"
  ow_embedded :: "host_file \<Rightarrow> string + string"

section \<open>Configuration of the service\<close>

definition resolve_credential :: "os_world \<Rightarrow> string \<Rightarrow> string \<Rightarrow> string \<Rightarrow> string + string" where
  "resolve_credential w v f var =
     (if v \<noteq> [] then Inr v
      else if f \<noteq> []
      then (case ow_read w f of Inl e \<Rightarrow> Inl (''read token file: '' @ e) | Inr b \<Rightarrow> Inr (trim_space b))
      else Inr (ow_env w var))"

definition short_hostname :: "os_world \<Rightarrow> string + string" where
  "short_hostname w = map_sum id (\<lambda>h. to_lower (ow_lower w) (fst (cut_char CHR ''.'' h))) (ow_hostname w)"

text \<open>A flag that is not given takes its value from the environment, or is empty.\<close>

definition flag_env :: "os_world \<Rightarrow> (string \<Rightarrow> string option) \<Rightarrow> string \<Rightarrow> string \<Rightarrow> string" where
  "flag_env w given name var = (case given name of Some v \<Rightarrow> v | None \<Rightarrow> ow_env w var)"

definition flag_plain :: "(string \<Rightarrow> string option) \<Rightarrow> string \<Rightarrow> string" where
  "flag_plain given name = (case given name of Some v \<Rightarrow> v | None \<Rightarrow> [])"

definition default_target :: string where "default_target = ''http://127.0.0.1:8080''"

definition agent_cmd_config :: "os_world \<Rightarrow> (string \<Rightarrow> string option) \<Rightarrow> string + agent_config" where
  "agent_cmd_config w given =
     then_ok (resolve_credential w (flag_plain given ''token'') (flag_env w given ''token-file'' ''BOXEL_AGENT_TOKEN_FILE'') ''BOXEL_AGENT_TOKEN'') (\<lambda>token.
     let name0 = flag_plain given ''name''; name1 = (if name0 = [] then ow_env w ''BOXEL_AGENT_NAME'' else name0)
     in then_ok (if name1 \<noteq> [] then Inr name1
                 else case short_hostname w of
                   Inl e \<Rightarrow> Inl (''cannot derive agent name from hostname ('' @ e @ ''); pass --name'')
                 | Inr h \<Rightarrow> Inr h) (\<lambda>name.
     let target0 = flag_plain given ''target''; target1 = (if target0 = [] then ow_env w ''BOXEL_AGENT_TARGET'' else target0);
         target = (if target1 = [] then default_target else target1)
     in then_ok (resolve_credential w (flag_plain given ''target-token'') (flag_env w given ''target-token-file'' ''BOXEL_AGENT_TARGET_TOKEN_FILE'')
                   ''BOXEL_AGENT_TARGET_TOKEN'') (\<lambda>target_token.
     Inr \<lparr>gc_hub_url = flag_env w given ''hub'' ''BOXEL_HUB_URL'', gc_reflection_url = flag_env w given ''reflection-url'' ''BOXEL_REFLECTION_URL'',
          gc_hub_integration = flag_env w given ''hub-integration'' ''BOXEL_HUB_INTEGRATION'', gc_token = token, gc_name = name,
          gc_handler = None, gc_target = target, gc_target_token = target_token, gc_version = version_string (ow_build w),
          gc_min_backoff = 0, gc_max_backoff = 0, gc_dial_timeout = 0\<rparr>)))"

section \<open>System calls\<close>

type_synonym 'a act = "host \<Rightarrow> (string + 'a) \<times> host"

definition new_file :: "os_world \<Rightarrow> host \<Rightarrow> string \<Rightarrow> string \<Rightarrow> nat \<Rightarrow> host_file" where
  "new_file w h p d m = (case ho_files h p of None \<Rightarrow> \<lparr>fi_content = d, fi_mode = ow_umask w m, fi_gid = 0\<rparr>
     | Some f \<Rightarrow> f\<lparr>fi_content := d\<rparr>)"

definition inside :: "string \<Rightarrow> string \<Rightarrow> bool" where
  "inside d p = has_prefix p (d @ ''/'')"

definition staged_binary :: "string \<Rightarrow> string" where
  "staged_binary d = d @ ''/boxel-agent''"

fun apply_call :: "os_world \<Rightarrow> sys_call \<Rightarrow> host \<Rightarrow> host" where
  "apply_call w (WriteFile p d m) h = h\<lparr>ho_files := (ho_files h)(p \<mapsto> new_file w h p d m)\<rparr>"
| "apply_call w (Chmod p m) h = h\<lparr>ho_files := (ho_files h)(p := map_option (fi_mode_update (\<lambda>_. m)) (ho_files h p))\<rparr>"
| "apply_call w (Chown p g) h = h\<lparr>ho_files := (ho_files h)(p := map_option (fi_gid_update (\<lambda>_. g)) (ho_files h p))\<rparr>"
| "apply_call w (CreateTemp p) h = h\<lparr>ho_files := (ho_files h)(p \<mapsto> \<lparr>fi_content = [], fi_mode = perm 6 0 0, fi_gid = 0\<rparr>)\<rparr>"
| "apply_call w (WriteTemp p d) h = h\<lparr>ho_files := (ho_files h)(p := map_option (fi_content_update (\<lambda>c. c @ d)) (ho_files h p))\<rparr>"
| "apply_call w (Rename p q) h = h\<lparr>ho_files := (ho_files h)(q := ho_files h p, p := None)\<rparr>"
| "apply_call w (RemoveFile p) h = h\<lparr>ho_files := (ho_files h)(p := None)\<rparr>"
| "apply_call w (RemoveTree d) h = h\<lparr>ho_files := (\<lambda>p. if inside d p then None else ho_files h p)\<rparr>"
| "apply_call w (GoInstall tool target dir env) h = h\<lparr>ho_files := (ho_files h)(staged_binary dir := ow_built w target)\<rparr>"
| "apply_call w c h = h"

definition sys :: "os_world \<Rightarrow> sys_call \<Rightarrow> unit act" where
  "sys w c h =
     (let h1 = h\<lparr>ho_calls := ho_calls h @ [c]\<rparr>
      in case ow_fails w c of Some e \<Rightarrow> (Inl e, h1) | None \<Rightarrow> (Inr (), apply_call w c h1))"

definition pure_act :: "string + 'a \<Rightarrow> 'a act" where
  "pure_act x h = (x, h)"

definition then_act :: "'a act \<Rightarrow> ('a \<Rightarrow> 'b act) \<Rightarrow> 'b act" where
  "then_act m f h = (case m h of (Inl e, h1) \<Rightarrow> (Inl e, h1) | (Inr x, h1) \<Rightarrow> f x h1)"

text \<open>A \<^verbatim>\<open>defer\<close> whose error is ignored, and an error that is reworded.\<close>

definition deferring :: "os_world \<Rightarrow> sys_call \<Rightarrow> 'a act \<Rightarrow> 'a act" where
  "deferring w c m h = (case m h of (r, h1) \<Rightarrow> (r, snd (sys w c h1)))"

definition wrapping :: "(string \<Rightarrow> string) \<Rightarrow> 'a act \<Rightarrow> 'a act" where
  "wrapping f m h = (case m h of (Inl e, h1) \<Rightarrow> (Inl (f e), h1) | (Inr x, h1) \<Rightarrow> (Inr x, h1))"

fun sys_all :: "os_world \<Rightarrow> sys_call list \<Rightarrow> unit act" where
  "sys_all w [] = pure_act (Inr ())"
| "sys_all w (c # cs) = then_act (sys w c) (\<lambda>_. sys_all w cs)"

definition command :: "os_world \<Rightarrow> string list \<Rightarrow> unit act" where
  "command w argv = wrapping (\<lambda>e. join_with '' '' argv @ '': '' @ e @ '': '' @ trim_space (ow_output w (Command argv))) (sys w (Command argv))"

fun commands :: "os_world \<Rightarrow> string list list \<Rightarrow> unit act" where
  "commands w [] = pure_act (Inr ())"
| "commands w (argv # rest) = then_act (command w argv) (\<lambda>_. commands w rest)"

section \<open>Setup\<close>

definition bin_path :: string where "bin_path = ''/usr/local/bin/boxel-agent''"
definition etc_dir :: string where "etc_dir = ''/etc/boxel-agent''"
definition env_path :: string where "env_path = ''/etc/boxel-agent/env''"
definition unit_path :: string where "unit_path = ''/etc/systemd/system/boxel-agent.service''"
definition unit_name :: string where "unit_name = ''boxel-agent.service''"
definition update_unit_path :: string where "update_unit_path = ''/etc/systemd/system/boxel-agent-update.service''"
definition update_timer_path :: string where "update_timer_path = ''/etc/systemd/system/boxel-agent-update.timer''"
definition update_timer_name :: string where "update_timer_name = ''boxel-agent-update.timer''"
definition default_service_user :: string where "default_service_user = ''exedev''"
definition local_token_path :: string where "local_token_path = ''/etc/tunnel-mcp/token''"
definition target_token_path :: string where "target_token_path = ''/etc/boxel-agent/target-token''"

definition unit_lines :: "string list \<Rightarrow> string" where
  "unit_lines ls = concat (map (\<lambda>l. l @ [nl]) ls)"

definition systemd_unit :: "string \<Rightarrow> string \<Rightarrow> string" where
  "systemd_unit user home = unit_lines
     [''[Unit]'', ''Description=boxel pull-mode agent (reverse tunnel to the boxel hub)'', ''After=network-online.target'',
      ''Wants=network-online.target'', [], ''[Service]'', ''User='' @ user, ''EnvironmentFile=/etc/boxel-agent/env'',
      ''Environment=HOME='' @ home, ''WorkingDirectory='' @ home, ''ExecStart=/usr/local/bin/boxel-agent'', ''Restart=always'',
      ''RestartSec=2'', [], ''[Install]'', ''WantedBy=multi-user.target'']"

definition update_service_unit :: string where
  "update_service_unit = unit_lines
     [''[Unit]'', ''Description=boxel-agent self-update (installs the latest boxel-agent release)'', ''After=network-online.target'',
      ''Wants=network-online.target'', [], ''[Service]'', ''Type=oneshot'', ''ExecStart=/usr/local/bin/boxel-agent update'',
      ''Environment=HOME=/var/cache/boxel-agent-update'', ''PrivateTmp=true'']"

definition update_timer_unit :: string where
  "update_timer_unit = unit_lines
     [''[Unit]'', ''Description=poll for boxel-agent updates every 5 minutes'', [], ''[Timer]'', ''OnBootSec=2min'',
      ''OnUnitActiveSec=5min'', ''RandomizedDelaySec=30s'', [], ''[Install]'', ''WantedBy=timers.target'']"

record setup_flags =
  sf_hub :: string
  sf_integration :: string
  sf_reflection :: string
  sf_token :: string
  sf_name :: string
  sf_target :: string
  sf_user :: string

definition parse_setup_flags :: "os_world \<Rightarrow> (string \<Rightarrow> string option) \<Rightarrow> setup_flags" where
  "parse_setup_flags w given =
     \<lparr>sf_hub = flag_env w given ''hub'' ''BOXEL_HUB_URL'', sf_integration = flag_env w given ''hub-integration'' ''BOXEL_HUB_INTEGRATION'',
      sf_reflection = flag_env w given ''reflection-url'' ''BOXEL_REFLECTION_URL'', sf_token = flag_env w given ''token'' ''BOXEL_AGENT_TOKEN'',
      sf_name = flag_env w given ''name'' ''BOXEL_AGENT_NAME'', sf_target = flag_env w given ''target'' ''BOXEL_AGENT_TARGET'',
      sf_user = flag_env w given ''user'' ''BOXEL_AGENT_USER''\<rparr>"

definition env_line :: "string \<times> string \<Rightarrow> string" where
  "env_line kv = fst kv @ ''='' @ snd kv @ [nl]"

definition setup_env_content :: "string \<Rightarrow> string \<Rightarrow> string \<Rightarrow> string \<Rightarrow> string \<Rightarrow> string \<Rightarrow> string" where
  "setup_env_content hub integ token name target target_token_file =
     concat (map env_line (filter (\<lambda>kv. snd kv \<noteq> [])
       [(''BOXEL_HUB_URL'', hub), (''BOXEL_HUB_INTEGRATION'', integ), (''BOXEL_AGENT_TOKEN'', token), (''BOXEL_AGENT_NAME'', name),
        (''BOXEL_AGENT_TARGET'', target), (''BOXEL_AGENT_TARGET_TOKEN_FILE'', target_token_file)]))"

definition install_self :: "os_world \<Rightarrow> unit act" where
  "install_self w =
     then_act (pure_act (ow_executable w)) (\<lambda>exe0.
     then_act (pure_act (ow_symlinks w exe0)) (\<lambda>exe.
     if exe = bin_path then pure_act (Inr ())
     else then_act (pure_act (ow_read w exe)) (\<lambda>b.
     then_act (pure_act (ow_temp w)) (\<lambda>tmp.
     then_act (sys w (CreateTemp tmp)) (\<lambda>_.
     deferring w (RemoveFile tmp)
       (sys_all w [WriteTemp tmp b, Chmod tmp (perm 7 5 5), CloseTemp tmp, Rename tmp bin_path]))))))"

definition lookup_service_user :: "os_world \<Rightarrow> string \<Rightarrow> string + string \<times> int" where
  "lookup_service_user w name =
     (case ow_user w name of
        Inl e \<Rightarrow> Inl (''user '' @ ow_quote w name @ '' not found (the agent runs as the VM'' @ [CHR 0x27] @ ''s main user; pass --user or BOXEL_AGENT_USER): '' @ e)
      | Inr (home, gid) \<Rightarrow>
          (case ow_gid w gid of
             Inl e \<Rightarrow> Inl (''user '' @ ow_quote w name @ '' has non-numeric gid '' @ ow_quote w gid @ '': '' @ e)
           | Inr g \<Rightarrow> Inr (home, g)))"

definition write_owned_file :: "os_world \<Rightarrow> string \<Rightarrow> string \<Rightarrow> nat \<Rightarrow> int \<Rightarrow> unit act" where
  "write_owned_file w p d mode gid = sys_all w [WriteFile p d mode, Chmod p mode, Chown p gid]"

text \<open>The local token, if it can be read, is copied for the service.\<close>

definition copy_local_token :: "os_world \<Rightarrow> int \<Rightarrow> string act" where
  "copy_local_token w gid =
     (case ow_read w local_token_path of
        Inl e \<Rightarrow> pure_act (Inr [])
      | Inr b \<Rightarrow> then_act (write_owned_file w target_token_path b (perm 6 4 0) gid) (\<lambda>_. pure_act (Inr target_token_path)))"

definition setup_units :: "string \<Rightarrow> string \<Rightarrow> sys_call list" where
  "setup_units user home =
     [WriteFile unit_path (systemd_unit user home) (perm 6 4 4), WriteFile update_unit_path update_service_unit (perm 6 4 4),
      WriteFile update_timer_path update_timer_unit (perm 6 4 4)]"

definition setup_commands :: "string list list" where
  "setup_commands =
     [[''systemctl'', ''daemon-reload''], [''systemctl'', ''enable'', unit_name], [''systemctl'', ''restart'', unit_name],
      [''systemctl'', ''enable'', ''--now'', update_timer_name]]"

text \<open>What the installer tells the operator; it fails in no case.\<close>

datatype hub_report = StillUnreachable string string string | Registering "string option" string string

definition report_hub_status :: "agent_env \<Rightarrow> (string \<Rightarrow> reflection_reply) \<Rightarrow> string \<Rightarrow> string \<Rightarrow> string \<Rightarrow> string \<Rightarrow> hub_report" where
  "report_hub_status env get hub integ0 reflection name =
     (let integ = (if integ0 = [] then ''boxel'' else integ0)
      in if hub \<noteq> [] then Registering None hub name
         else case discover_hub_url env get reflection integ of
                Inl e \<Rightarrow> StillUnreachable e integ name
              | Inr found \<Rightarrow> Registering (Some integ) found name)"

definition setup_name :: "os_world \<Rightarrow> setup_flags \<Rightarrow> string + string" where
  "setup_name w fl =
     (if sf_name fl \<noteq> [] then Inr (sf_name fl)
      else case short_hostname w of
        Inl e \<Rightarrow> Inl (''cannot derive agent name from hostname ('' @ e @ ''); pass --name'')
      | Inr h \<Rightarrow> Inr h)"

definition setup_target :: "setup_flags \<Rightarrow> string" where
  "setup_target fl = (if sf_target fl = [] then default_target else sf_target fl)"

definition setup_user :: "setup_flags \<Rightarrow> string" where
  "setup_user fl = (if sf_user fl = [] then default_service_user else sf_user fl)"

definition setup_steps :: "os_world \<Rightarrow> setup_flags \<Rightarrow> string \<Rightarrow> string \<Rightarrow> int \<Rightarrow> unit act" where
  "setup_steps w fl name home gid =
     then_act (install_self w) (\<lambda>_.
     then_act (sys_all w [MkdirAll etc_dir (perm 7 5 0), Chown etc_dir gid]) (\<lambda>_.
     then_act (copy_local_token w gid) (\<lambda>token_file.
     then_act (write_owned_file w env_path
       (setup_env_content (sf_hub fl) (sf_integration fl) (sf_token fl) name (setup_target fl) token_file) (perm 6 4 0) gid) (\<lambda>_.
     then_act (sys_all w (setup_units (setup_user fl) home)) (\<lambda>_.
     commands w setup_commands)))))"

definition run_setup :: "agent_env \<Rightarrow> (string \<Rightarrow> reflection_reply) \<Rightarrow> os_world \<Rightarrow> (string \<Rightarrow> string option) \<Rightarrow> hub_report act" where
  "run_setup env get w given =
     (let fl = parse_setup_flags w given
      in if \<not> ow_root w
         then pure_act (Inl ''boxel-agent setup must run as root (installs to /usr/local/bin and registers a systemd unit); rerun with sudo'')
         else if \<not> ow_systemctl w then pure_act (Inl ''systemd is required: systemctl not found'')
         else then_act (pure_act (setup_name w fl)) (\<lambda>name.
         then_act (pure_act (lookup_service_user w (setup_user fl))) (\<lambda>(home, gid).
         then_act (setup_steps w fl name home gid) (\<lambda>_.
         pure_act (Inr (report_hub_status env get (sf_hub fl) (sf_integration fl) (sf_reflection fl) name))))))"

section \<open>Update\<close>

definition update_cache_dir :: string where "update_cache_dir = ''/var/cache/boxel-agent-update''"
definition default_go_proxy :: string where "default_go_proxy = ''https://proxy.golang.org''"

text \<open>The list of proxies is cut at commas and bars; empty fields do not count.\<close>

fun proxy_fields :: "string \<Rightarrow> string \<Rightarrow> string list" where
  "proxy_fields acc [] = (if acc = [] then [] else [acc])"
| "proxy_fields acc (c # s) =
     (if c = CHR '','' \<or> c = CHR ''|'' then (if acc = [] then [] else [acc]) @ proxy_fields [] s
      else proxy_fields (acc @ [c]) s)"

fun first_proxy :: "string list \<Rightarrow> string + string" where
  "first_proxy [] = Inr default_go_proxy"
| "first_proxy (f # fs) =
     (let p = trim_space f
      in if p = ''off'' then Inl ''GOPROXY=off: not self-updating''
         else if has_prefix p ''http://'' \<or> has_prefix p ''https://'' then Inr (trim_right_chars p ''/'')
         else first_proxy fs)"

definition resolve_go_proxy :: "string \<Rightarrow> string \<Rightarrow> string + string" where
  "resolve_go_proxy given env =
     (if given \<noteq> [] then Inr (trim_right_chars given ''/'') else first_proxy (proxy_fields [] env))"

definition latest_module_version :: "os_world \<Rightarrow> string \<Rightarrow> string \<Rightarrow> string + string" where
  "latest_module_version w proxy path =
     then_ok (ow_escape w path) (\<lambda>escaped.
     let url = proxy @ ''/'' @ escaped @ ''/@latest''
     in then_ok (ow_get w url) (\<lambda>(code, status, body).
     if code \<noteq> 200 then Inl (url @ '': '' @ status @ '': '' @ trim_space (take 4096 body))
     else then_ok (map_sum (\<lambda>e. url @ '': '' @ e) id (ow_version_field w (take 4096 body))) (\<lambda>v.
     check_that (ow_semver w v) (url @ '': invalid version '' @ ow_quote w v) (Inr v))))"

definition look_go :: "os_world \<Rightarrow> string + string" where
  "look_go w =
     (case ow_go_in_path w of Some p \<Rightarrow> Inr p
      | None \<Rightarrow>
          (case find (ow_is_file w) [''/usr/local/go/bin/go'', ''/usr/local/bin/go'', ''/usr/bin/go''] of
             Some p \<Rightarrow> Inr p
           | None \<Rightarrow> Inl ''go toolchain not found (needed to build the update); install Go or add it to PATH''))"

definition embedded_version :: "os_world \<Rightarrow> string \<Rightarrow> string act" where
  "embedded_version w p h =
     ((case ho_files h p of None \<Rightarrow> Inl (''open '' @ p @ '': no such file or directory'') | Some f \<Rightarrow> ow_embedded w f), h)"

definition build_and_swap :: "os_world \<Rightarrow> string \<Rightarrow> string \<Rightarrow> string \<Rightarrow> unit act" where
  "build_and_swap w go staging v =
     (let target = agent_module (ow_build w) @ ''/cmd/boxel-agent@'' @ v;
          env = ow_environ w @ [''GOBIN='' @ staging] @ (if ow_env w ''HOME'' = [] then [''HOME='' @ update_cache_dir] else []);
          install = GoInstall go target staging env
      in then_act (wrapping (\<lambda>e. ''go install '' @ target @ '': '' @ e @ '': '' @ trim_space (ow_output w install)) (sys w install)) (\<lambda>_.
         then_act (wrapping (\<lambda>e. ''verify staged binary: '' @ e) (embedded_version w (staged_binary staging))) (\<lambda>found.
         if found \<noteq> v then pure_act (Inl (''staged binary reports version '' @ ow_quote w found @ '', want '' @ v))
         else sys w (Rename (staged_binary staging) bin_path))))"

definition install_version :: "os_world \<Rightarrow> string \<Rightarrow> unit act" where
  "install_version w v =
     then_act (pure_act (look_go w)) (\<lambda>go.
     then_act (sys w (MkdirAll update_cache_dir (perm 7 5 5))) (\<lambda>_.
     then_act (pure_act (ow_staging w)) (\<lambda>staging.
     then_act (sys w (MkdirTemp staging)) (\<lambda>_.
     deferring w (RemoveTree staging) (build_and_swap w go staging v)))))"

datatype update_result = NotReleased string | ProxyOff string | UpToDate string string | Available string string | Updated string

definition run_update :: "os_world \<Rightarrow> bool \<Rightarrow> string \<Rightarrow> update_result act" where
  "run_update w check_only go_proxy =
     (let current = version_string (ow_build w); path = agent_module (ow_build w)
      in if \<not> ow_semver w current then pure_act (Inr (NotReleased current))
         else case resolve_go_proxy go_proxy (ow_env w ''GOPROXY'') of
           Inl e \<Rightarrow> pure_act (Inr (ProxyOff e))
         | Inr proxy \<Rightarrow>
             then_act (pure_act (map_sum (\<lambda>e. ''resolve latest '' @ path @ '' version: '' @ e) id (latest_module_version w proxy path))) (\<lambda>latest.
             if \<not> ow_newer w latest current then pure_act (Inr (UpToDate current latest))
             else if check_only then pure_act (Inr (Available current latest))
             else if \<not> ow_root w
             then pure_act (Inl (''boxel-agent update must run as root (replaces '' @ bin_path @ '' and restarts the service); rerun with sudo''))
             else then_act (install_version w latest) (\<lambda>_.
                  then_act (command w [''systemctl'', ''try-restart'', unit_name]) (\<lambda>_.
                  pure_act (Inr (Updated latest))))))"

end
