(* ===== verification/Agent_Update.thy ===== *)
theory Agent_Update
  imports Agent_Cmd
begin

text \<open>
  Weakest preconditions for the command's actions, and the self-update: it replaces the
  binary only by a build that carries the newer released version, touches nothing else, and
  restarts the service only after the replacement.
\<close>

section \<open>Weakest preconditions\<close>

named_theorems wp_simps \<open>computing weakest preconditions of actions\<close>

definition wp :: "'a act \<Rightarrow> ('a \<Rightarrow> host \<Rightarrow> bool) \<Rightarrow> (string \<Rightarrow> host \<Rightarrow> bool) \<Rightarrow> host \<Rightarrow> bool" where
  "wp m Q E h = (case m h of (Inl e, h1) \<Rightarrow> E e h1 | (Inr x, h1) \<Rightarrow> Q x h1)"

lemma wp_mono:
  assumes "wp m Q E h" and "\<And>x h1. Q x h1 \<Longrightarrow> Q' x h1" and "\<And>e h1. E e h1 \<Longrightarrow> E' e h1"
  shows "wp m Q' E' h"
  using assms by (auto simp: wp_def split: prod.splits sum.splits)

lemma wp_pure [wp_simps]: "wp (pure_act x) Q E h = (case x of Inl e \<Rightarrow> E e h | Inr a \<Rightarrow> Q a h)"
  by (simp add: wp_def pure_act_def split: sum.split)

lemma wp_return: "wp (pure_act (Inr a)) Q E = Q a"
  by (rule ext) (simp add: wp_pure)

lemma wp_then [wp_simps]: "wp (then_act m f) Q E h = wp m (\<lambda>x. wp (f x) Q E) E h"
  by (simp add: wp_def then_act_def split: prod.split sum.split)

lemma wp_wrapping [wp_simps]: "wp (wrapping f m) Q E h = wp m Q (\<lambda>e. E (f e)) h"
  by (simp add: wp_def wrapping_def split: prod.split sum.split)

lemma wp_deferring [wp_simps]:
  "wp (deferring w c m) Q E h = wp m (\<lambda>x h1. Q x (snd (sys w c h1))) (\<lambda>e h1. E e (snd (sys w c h1))) h"
  by (simp add: wp_def deferring_def split: prod.split sum.split)

text \<open>A call's effect does not depend on the calls made before it.\<close>

lemma new_file_calls [simp]: "new_file w (h\<lparr>ho_calls := x\<rparr>) = new_file w h"
  by (intro ext) (simp add: new_file_def)

lemma apply_call_calls: "apply_call w c (h\<lparr>ho_calls := x\<rparr>) = (apply_call w c h)\<lparr>ho_calls := x\<rparr>"
  by (cases c) (simp_all cong: if_cong)

lemma apply_keeps_calls [simp]: "ho_calls (apply_call w c h) = ho_calls h"
  by (cases c) auto

lemma snd_sys: "ho_calls (snd (sys w c h)) = ho_calls h @ [c]"
  "ho_files (snd (sys w c h)) = (if ow_fails w c = None then ho_files (apply_call w c h) else ho_files h)"
  by (auto simp: sys_def Let_def apply_call_calls split: option.split)

lemma wp_sys [wp_simps]:
  "wp (sys w c) Q E h = (case ow_fails w c of None \<Rightarrow> Q () (snd (sys w c h)) | Some e \<Rightarrow> E e (snd (sys w c h)))"
  by (simp add: wp_def sys_def Let_def split: option.split)

lemma wp_embedded [wp_simps]:
  "wp (embedded_version w p) Q E h =
     (case ho_files h p of None \<Rightarrow> E (''open '' @ p @ '': no such file or directory'') h
      | Some f \<Rightarrow> (case ow_embedded w f of Inl e \<Rightarrow> E e h | Inr v \<Rightarrow> Q v h))"
  by (simp add: wp_def embedded_version_def split: option.split sum.split)

lemma wp_run: "wp m Q E h \<Longrightarrow> m h = (r, h1) \<Longrightarrow> case r of Inl e \<Rightarrow> E e h1 | Inr x \<Rightarrow> Q x h1"
  by (auto simp: wp_def split: sum.splits)

section \<open>Installing a version\<close>

definition is_command :: "sys_call \<Rightarrow> bool" where
  "is_command c = (case c of Command argv \<Rightarrow> True | _ \<Rightarrow> False)"

definition commands_run :: "host \<Rightarrow> sys_call list" where
  "commands_run h = filter is_command (ho_calls h)"

lemma commands_sys: "commands_run (snd (sys w c h)) = commands_run h @ (if is_command c then [c] else [])"
  by (simp add: commands_run_def snd_sys)

text \<open>The staging directory is below the binary's directory, and fresh: it does not hold the binary.\<close>

definition staging_fresh :: "os_world \<Rightarrow> bool" where
  "staging_fresh w \<longleftrightarrow> (\<forall>d. ow_staging w = Inr d \<longrightarrow> \<not> inside d bin_path)"

definition staged_path :: "os_world \<Rightarrow> string \<Rightarrow> bool" where
  "staged_path w p \<longleftrightarrow> (\<exists>d. ow_staging w = Inr d \<and> inside d p)"

definition elsewhere_same :: "os_world \<Rightarrow> host \<Rightarrow> host \<Rightarrow> bool" where
  "elsewhere_same w h h1 \<longleftrightarrow> (\<forall>p. p \<noteq> bin_path \<longrightarrow> \<not> staged_path w p \<longrightarrow> ho_files h1 p = ho_files h p)"

definition carries :: "os_world \<Rightarrow> string \<Rightarrow> host \<Rightarrow> bool" where
  "carries w v h \<longleftrightarrow> (\<exists>f. ho_files h bin_path = Some f \<and> ow_embedded w f = Inr v)"

lemma staged_inside: "inside d (staged_binary d)"
  by (auto simp: inside_def staged_binary_def has_prefix_iff)

lemma build_and_swap_wp:
  assumes "ow_staging w = Inr d" and "\<not> inside d bin_path"
  shows "wp (build_and_swap w go d v)
    (\<lambda>_ h1. carries w v h1 \<and> elsewhere_same w h h1 \<and> commands_run h1 = commands_run h)
    (\<lambda>_ h1. ho_files h1 bin_path = ho_files h bin_path \<and> elsewhere_same w h h1 \<and> commands_run h1 = commands_run h) h"
proof -
  have b: "bin_path \<noteq> staged_binary d" "staged_path w (staged_binary d)"
    using assms staged_inside [of d] by (metis, auto simp: staged_path_def)
  have e: "p \<noteq> staged_binary d" if "\<not> staged_path w p" for p using b(2) that by auto
  show ?thesis
    unfolding build_and_swap_def Let_def
    using b e by (simp add: wp_simps snd_sys commands_sys is_command_def carries_def elsewhere_same_def
        split: sum.split option.split)
qed

lemma remove_staging:
  assumes "ow_staging w = Inr d" and "\<not> inside d bin_path"
  shows "ho_files (snd (sys w (RemoveTree d) h1)) bin_path = ho_files h1 bin_path"
    "elsewhere_same w h (snd (sys w (RemoveTree d) h1)) \<longleftrightarrow> elsewhere_same w h h1"
    "commands_run (snd (sys w (RemoveTree d) h1)) = commands_run h1"
    "carries w v (snd (sys w (RemoveTree d) h1)) \<longleftrightarrow> carries w v h1"
  using assms by (auto simp: snd_sys commands_sys is_command_def elsewhere_same_def staged_path_def carries_def)

lemma install_version_wp:
  assumes "staging_fresh w"
  shows "wp (install_version w v)
    (\<lambda>_ h1. carries w v h1 \<and> elsewhere_same w h h1 \<and> commands_run h1 = commands_run h)
    (\<lambda>_ h1. ho_files h1 bin_path = ho_files h bin_path \<and> elsewhere_same w h h1 \<and> commands_run h1 = commands_run h) h"
proof -
  have body: "wp (deferring w (RemoveTree d) (build_and_swap w go d v))
    (\<lambda>_ h1. carries w v h1 \<and> elsewhere_same w h h1 \<and> commands_run h1 = commands_run h)
    (\<lambda>_ h1. ho_files h1 bin_path = ho_files h bin_path \<and> elsewhere_same w h h1 \<and> commands_run h1 = commands_run h) h2"
    if "ow_staging w = Inr d" "ho_files h2 = ho_files h" "commands_run h2 = commands_run h" for d go h2
  proof -
    have f: "\<not> inside d bin_path" using assms that(1) by (simp add: staging_fresh_def)
    have "elsewhere_same w h2 h1 = elsewhere_same w h h1" for h1 using that(2) by (simp add: elsewhere_same_def)
    with build_and_swap_wp [OF that(1) f, of go v h2] that(2,3) show ?thesis
      unfolding wp_deferring remove_staging [OF that(1) f] by simp
  qed
  have "elsewhere_same w h h1" if "ho_files h1 = ho_files h" for h1 using that by (simp add: elsewhere_same_def)
  with body show ?thesis
    unfolding install_version_def
    by (simp add: wp_simps(1,2,3,5) snd_sys commands_sys is_command_def split: sum.split option.split)
qed

section \<open>The update\<close>

lemma command_wp:
  assumes "\<And>h1. ho_files h1 = ho_files h \<Longrightarrow> commands_run h1 = commands_run h @ [Command argv] \<Longrightarrow> Q () h1"
    and "\<And>e h1. ho_files h1 = ho_files h \<Longrightarrow> commands_run h1 = commands_run h @ [Command argv] \<Longrightarrow> E e h1"
  shows "wp (command w argv) Q E h"
  unfolding command_def wp_wrapping wp_sys
  using assms by (simp add: snd_sys commands_sys is_command_def split: option.split)

lemma map_sum_Inr [simp]: "map_sum f id x = Inr y \<longleftrightarrow> x = Inr y"
  by (cases x) auto

lemma latest_valid: "latest_module_version w proxy path = Inr v \<Longrightarrow> ow_semver w v"
  by (auto simp: latest_module_version_def result_iffs Let_def split: prod.splits if_splits)

definition restart :: sys_call where
  "restart = Command [''systemctl'', ''try-restart'', unit_name]"

definition may_install :: "os_world \<Rightarrow> bool \<Rightarrow> string \<Rightarrow> bool" where
  "may_install w check_only v \<longleftrightarrow> ow_semver w (version_string (ow_build w)) \<and> ow_semver w v
     \<and> ow_newer w v (version_string (ow_build w)) \<and> ow_root w \<and> \<not> check_only"

definition update_post :: "os_world \<Rightarrow> bool \<Rightarrow> host \<Rightarrow> host \<Rightarrow> bool" where
  "update_post w check_only h h1 \<longleftrightarrow> elsewhere_same w h h1
     \<and> (ho_files h1 bin_path = ho_files h bin_path \<and> commands_run h1 = commands_run h
        \<or> (\<exists>v. may_install w check_only v \<and> carries w v h1
             \<and> (commands_run h1 = commands_run h \<or> commands_run h1 = commands_run h @ [restart])))"

lemma run_update_wp:
  assumes "staging_fresh w"
  shows "wp (run_update w check_only gp)
    (\<lambda>r h1. update_post w check_only h h1 \<and> (\<forall>v. r = Updated v \<longrightarrow> carries w v h1 \<and> may_install w check_only v))
    (\<lambda>_ h1. update_post w check_only h h1) h"
proof -
  have same: "update_post w check_only h h" by (simp add: update_post_def elsewhere_same_def)
  have install: "wp (then_act (install_version w v) (\<lambda>_. then_act (command w [''systemctl'', ''try-restart'', unit_name]) (\<lambda>_. pure_act (Inr (Updated v)))))
      (\<lambda>r h1. update_post w check_only h h1 \<and> (\<forall>v. r = Updated v \<longrightarrow> carries w v h1 \<and> may_install w check_only v))
      (\<lambda>_ h1. update_post w check_only h h1) h" if v: "may_install w check_only v" for v
    unfolding wp_then
    by (rule wp_mono [OF install_version_wp [OF assms]])
      (use v in \<open>auto simp: wp_pure update_post_def restart_def [symmetric] carries_def elsewhere_same_def intro!: command_wp\<close>)
  show ?thesis
    unfolding run_update_def Let_def
    using same install by (auto simp: wp_then wp_pure may_install_def split: sum.splits dest: latest_valid)
qed


end
