(* ===== verification/Agent_Setup.thy ===== *)
theory Agent_Setup
  imports Agent_Update
begin

text \<open>
  The installer: it changes nothing before its checks have passed, starts the service only
  when everything is in place, and the environment file it writes configures the service as
  the operator asked, but for the reflection address.
\<close>

section \<open>What each step leaves\<close>

lemma managed_paths:
  "env_path \<noteq> unit_path" "env_path \<noteq> update_unit_path" "env_path \<noteq> update_timer_path" "env_path \<noteq> bin_path" "env_path \<noteq> target_token_path"
  "unit_path \<noteq> update_unit_path" "unit_path \<noteq> update_timer_path" "unit_path \<noteq> bin_path" "unit_path \<noteq> target_token_path"
  "update_unit_path \<noteq> update_timer_path" "update_unit_path \<noteq> bin_path" "update_unit_path \<noteq> target_token_path"
  "update_timer_path \<noteq> bin_path" "update_timer_path \<noteq> target_token_path" "target_token_path \<noteq> bin_path"
  "etc_dir \<noteq> bin_path"
  by code_simp+

lemmas wp_calls = wp_then wp_pure wp_sys snd_sys commands_sys is_command_def

definition same_commands :: "host \<Rightarrow> host \<Rightarrow> bool" where
  "same_commands h h1 \<longleftrightarrow> commands_run h1 = commands_run h"

lemma file_eq: "fi_content f = d \<Longrightarrow> fi_mode f = m \<Longrightarrow> fi_gid f = g \<Longrightarrow> f = \<lparr>fi_content = d, fi_mode = m, fi_gid = g\<rparr>"
  by (cases f) simp

lemma write_owned_wp:
  "wp (write_owned_file w p d m g)
     (\<lambda>_ h1. ho_files h1 = (ho_files h)(p \<mapsto> \<lparr>fi_content = d, fi_mode = m, fi_gid = g\<rparr>) \<and> same_commands h h1)
     (\<lambda>_ h1. same_commands h h1) h"
  unfolding write_owned_file_def
  by (auto simp: wp_calls same_commands_def new_file_def intro!: ext file_eq
      split: option.split)

definition bin_installed :: "os_world \<Rightarrow> host \<Rightarrow> bool" where
  "bin_installed w h \<longleftrightarrow> (\<exists>e0 exe. ow_executable w = Inr e0 \<and> ow_symlinks w e0 = Inr exe \<and>
     (exe = bin_path \<or> (\<exists>b. ow_read w exe = Inr b \<and>
        ho_files h bin_path = Some \<lparr>fi_content = b, fi_mode = perm 7 5 5, fi_gid = 0\<rparr>)))"

lemma install_self_wp:
  assumes "\<forall>t. ow_temp w = Inr t \<longrightarrow> t \<noteq> bin_path"
  shows "wp (install_self w) (\<lambda>_ h1. bin_installed w h1 \<and> same_commands h h1) (\<lambda>_ h1. same_commands h h1) h"
  unfolding install_self_def
  using assms
  by (auto simp: wp_calls wp_deferring same_commands_def bin_installed_def
      split: sum.split option.split)

definition token_copied :: "os_world \<Rightarrow> int \<Rightarrow> string \<Rightarrow> host \<Rightarrow> bool" where
  "token_copied w gid token_file h \<longleftrightarrow>
     (case ow_read w local_token_path of Inl e \<Rightarrow> token_file = []
      | Inr b \<Rightarrow> token_file = target_token_path \<and>
          ho_files h target_token_path = Some \<lparr>fi_content = b, fi_mode = perm 6 4 0, fi_gid = gid\<rparr>)"

lemma copy_token_wp:
  "wp (copy_local_token w gid)
     (\<lambda>token_file h1. token_copied w gid token_file h1 \<and> same_commands h h1
        \<and> (\<forall>p. p \<noteq> target_token_path \<longrightarrow> ho_files h1 p = ho_files h p))
     (\<lambda>_ h1. same_commands h h1) h"
  unfolding copy_local_token_def
  by (auto simp: wp_pure wp_then token_copied_def same_commands_def split: sum.split
      intro!: wp_mono [OF write_owned_wp])

definition content_at :: "host \<Rightarrow> string \<Rightarrow> string option" where
  "content_at h p = map_option fi_content (ho_files h p)"

lemma units_wp:
  "wp (sys_all w (setup_units user home))
     (\<lambda>_ h1. content_at h1 unit_path = Some (systemd_unit user home) \<and> content_at h1 update_unit_path = Some update_service_unit
        \<and> content_at h1 update_timer_path = Some update_timer_unit \<and> same_commands h h1
        \<and> (\<forall>p. p \<notin> {unit_path, update_unit_path, update_timer_path} \<longrightarrow> ho_files h1 p = ho_files h p))
     (\<lambda>_ h1. same_commands h h1) h"
proof -
  have c: "fi_content (new_file w h p d m) = d" for h p d m by (simp add: new_file_def split: option.split)
  note ne = managed_paths managed_paths [symmetric]
  show ?thesis
    unfolding setup_units_def
    by (auto simp: wp_calls same_commands_def content_at_def c ne split: option.split)
qed


text \<open>The commands run one after the other; the first that fails is the last.\<close>

lemma commands_wp:
  "wp (commands w cs)
     (\<lambda>_ h1. ho_files h1 = ho_files h \<and> commands_run h1 = commands_run h @ map Command cs)
     (\<lambda>_ h1. ho_files h1 = ho_files h \<and> (\<exists>k\<le>length cs. commands_run h1 = commands_run h @ map Command (take k cs))) h"
proof (induction cs arbitrary: h)
  case (Cons c cs)
  show ?case
    unfolding commands.simps wp_then
  proof (rule command_wp)
    fix h1 assume f: "ho_files h1 = ho_files h" and r: "commands_run h1 = commands_run h @ [Command c]"
    show "wp (commands w cs) (\<lambda>_ h1. ho_files h1 = ho_files h \<and> commands_run h1 = commands_run h @ map Command (c # cs))
        (\<lambda>_ h1. ho_files h1 = ho_files h \<and> (\<exists>k\<le>length (c # cs). commands_run h1 = commands_run h @ map Command (take k (c # cs)))) h1"
    proof (rule wp_mono [OF Cons.IH])
      fix e h2 assume "ho_files h2 = ho_files h1 \<and> (\<exists>k\<le>length cs. commands_run h2 = commands_run h1 @ map Command (take k cs))"
      then obtain k where "k \<le> length cs" "ho_files h2 = ho_files h" "commands_run h2 = commands_run h @ map Command (take (Suc k) (c # cs))"
        using f r by auto
      then show "ho_files h2 = ho_files h \<and> (\<exists>k\<le>length (c # cs). commands_run h2 = commands_run h @ map Command (take k (c # cs)))"
        by (intro conjI exI [of _ "Suc k"]) auto
    qed (use f r in simp)
  next
    fix e h1 assume "ho_files h1 = ho_files h" and "commands_run h1 = commands_run h @ [Command c]"
    then show "ho_files h1 = ho_files h \<and> (\<exists>k\<le>length (c # cs). commands_run h1 = commands_run h @ map Command (take k (c # cs)))"
      by (intro conjI exI [of _ 1]) simp_all
  qed
qed (simp add: wp_pure)

section \<open>The installer\<close>

text \<open>Everything the service needs, for the settings the operator gave.\<close>

definition in_place :: "os_world \<Rightarrow> setup_flags \<Rightarrow> string \<Rightarrow> string \<Rightarrow> int \<Rightarrow> host \<Rightarrow> bool" where
  "in_place w fl name home gid h \<longleftrightarrow> bin_installed w h
     \<and> (\<exists>token_file. token_copied w gid token_file h
         \<and> ho_files h env_path = Some \<lparr>fi_content = setup_env_content (sf_hub fl) (sf_integration fl) (sf_token fl) name (setup_target fl) token_file,
             fi_mode = perm 6 4 0, fi_gid = gid\<rparr>)
     \<and> content_at h unit_path = Some (systemd_unit (setup_user fl) home)
     \<and> content_at h update_unit_path = Some update_service_unit \<and> content_at h update_timer_path = Some update_timer_unit"

definition setup_ready :: "os_world \<Rightarrow> setup_flags \<Rightarrow> string \<Rightarrow> string \<Rightarrow> int \<Rightarrow> bool" where
  "setup_ready w fl name home gid \<longleftrightarrow> ow_root w \<and> ow_systemctl w \<and> setup_name w fl = Inr name
     \<and> lookup_service_user w (setup_user fl) = Inr (home, gid)"

lemma keep_in_place:
  assumes "bin_installed w h" and "\<forall>p. p \<notin> S \<longrightarrow> ho_files h1 p = ho_files h p"
  shows "bin_path \<notin> S \<Longrightarrow> bin_installed w h1"
    "token_copied w gid token_file h \<Longrightarrow> target_token_path \<notin> S \<Longrightarrow> token_copied w gid token_file h1"
  using assms by (auto simp: bin_installed_def token_copied_def split: sum.splits)

lemma etc_dir_wp:
  "wp (sys_all w [MkdirAll etc_dir m, Chown etc_dir gid])
     (\<lambda>_ h1. same_commands h h1 \<and> (\<forall>p. p \<noteq> etc_dir \<longrightarrow> ho_files h1 p = ho_files h p)) (\<lambda>_ h1. same_commands h h1) h"
  by (simp add: wp_calls same_commands_def split: option.split)

lemma same_commands_trans: "same_commands h h1 \<Longrightarrow> same_commands h1 h2 \<Longrightarrow> same_commands h h2"
  by (simp add: same_commands_def)

text \<open>The steps from the token file on, once the binary is installed and the directory there.\<close>

lemma configure_wp:
  assumes b: "bin_installed w h" and
    k: "\<And>h1. in_place w fl name home gid h1 \<Longrightarrow> same_commands h h1 \<Longrightarrow> wp m Q E h1"
    and e: "\<And>x h1. same_commands h h1 \<Longrightarrow> E x h1"
  shows "wp (then_act (copy_local_token w gid) (\<lambda>token_file.
         then_act (write_owned_file w env_path
           (setup_env_content (sf_hub fl) (sf_integration fl) (sf_token fl) name (setup_target fl) token_file) (perm 6 4 0) gid) (\<lambda>_.
         then_act (sys_all w (setup_units (setup_user fl) home)) (\<lambda>_. m)))) Q E h"
  unfolding wp_then
proof (rule wp_mono [OF copy_token_wp], elim conjE)
  fix token_file h1
  assume t: "token_copied w gid token_file h1" "same_commands h h1" "\<forall>p. p \<noteq> target_token_path \<longrightarrow> ho_files h1 p = ho_files h p"
  have b1: "bin_installed w h1" by (rule keep_in_place [OF b, of "{target_token_path}"]) (use t(3) managed_paths in auto)
  let ?env = "setup_env_content (sf_hub fl) (sf_integration fl) (sf_token fl) name (setup_target fl) token_file"
  show "wp (write_owned_file w env_path ?env (perm 6 4 0) gid) (\<lambda>_. wp (sys_all w (setup_units (setup_user fl) home)) (\<lambda>_. wp m Q E) E) E h1"
  proof (rule wp_mono [OF write_owned_wp], elim conjE)
    fix u h2 assume v: "ho_files h2 = (ho_files h1)(env_path \<mapsto> \<lparr>fi_content = ?env, fi_mode = perm 6 4 0, fi_gid = gid\<rparr>)" "same_commands h1 h2"
    have keep: "\<forall>p. p \<notin> {env_path} \<longrightarrow> ho_files h2 p = ho_files h1 p" using v(1) by simp
    have b2: "bin_installed w h2" and t2: "token_copied w gid token_file h2"
      using keep_in_place [OF b1 keep] t(1) managed_paths by auto
    show "wp (sys_all w (setup_units (setup_user fl) home)) (\<lambda>_. wp m Q E) E h2"
    proof (rule wp_mono [OF units_wp], elim conjE)
      fix u h3 assume n: "content_at h3 unit_path = Some (systemd_unit (setup_user fl) home)"
        "content_at h3 update_unit_path = Some update_service_unit" "content_at h3 update_timer_path = Some update_timer_unit"
        "same_commands h2 h3" "\<forall>p. p \<notin> {unit_path, update_unit_path, update_timer_path} \<longrightarrow> ho_files h3 p = ho_files h2 p"
      have "bin_installed w h3" "token_copied w gid token_file h3" "ho_files h3 env_path = ho_files h2 env_path"
        using keep_in_place [OF b2 n(5)] t2 n(5) managed_paths by auto
      then have "in_place w fl name home gid h3" using n(1-3) v(1) by (auto simp: in_place_def)
      moreover have "same_commands h h3" using t(2) v(2) n(4) by (simp add: same_commands_def)
      ultimately show "wp m Q E h3" by (rule k)
    qed (use e t(2) v(2) in \<open>blast intro: same_commands_trans\<close>)
  qed (use e t(2) in \<open>blast intro: same_commands_trans\<close>)
qed (use e in blast)

definition setup_post :: "os_world \<Rightarrow> setup_flags \<Rightarrow> host \<Rightarrow> host \<Rightarrow> bool" where
  "setup_post w fl h h1 \<longleftrightarrow> commands_run h1 = commands_run h
     \<or> (\<exists>name home gid k. setup_ready w fl name home gid \<and> in_place w fl name home gid h1
          \<and> k \<le> length setup_commands \<and> commands_run h1 = commands_run h @ map Command (take k setup_commands))"

lemma in_place_files: "ho_files h1 = ho_files h \<Longrightarrow> in_place w fl name home gid h1 = in_place w fl name home gid h"
  by (simp only: in_place_def bin_installed_def token_copied_def content_at_def)

lemma setup_steps_wp:
  assumes "\<forall>t. ow_temp w = Inr t \<longrightarrow> t \<noteq> bin_path" and r: "setup_ready w fl name home gid"
  shows "wp (setup_steps w fl name home gid)
    (\<lambda>_ h1. in_place w fl name home gid h1 \<and> commands_run h1 = commands_run h @ map Command setup_commands)
    (\<lambda>_ h1. setup_post w fl h h1) h" (is "wp _ ?Q ?E h")
proof -
  have err: "same_commands h h1 \<Longrightarrow> setup_post w fl h h1" for h1 by (simp add: same_commands_def setup_post_def)
  have cmds: "wp (commands w setup_commands) ?Q ?E h1" if p: "in_place w fl name home gid h1" and c: "same_commands h h1" for h1
  proof (rule wp_mono [OF commands_wp])
    fix u h2 assume "ho_files h2 = ho_files h1 \<and> commands_run h2 = commands_run h1 @ map Command setup_commands"
    then show "?Q u h2" using in_place_files [of h2 h1] p c by (simp add: same_commands_def)
  next
    fix e h2 assume a: "ho_files h2 = ho_files h1 \<and> (\<exists>k\<le>length setup_commands. commands_run h2 = commands_run h1 @ map Command (take k setup_commands))"
    then have "in_place w fl name home gid h2" using in_place_files [of h2 h1] p by simp
    then show "?E e h2" using a r c unfolding setup_post_def same_commands_def by metis
  qed
  show ?thesis
    unfolding setup_steps_def wp_then [of "install_self w"] wp_then [of "sys_all w [MkdirAll etc_dir (perm 7 5 0), Chown etc_dir gid]"]
  proof (rule wp_mono [OF install_self_wp [OF assms(1)]], elim conjE)
    fix u h1 assume b: "bin_installed w h1" "same_commands h h1"
    show "wp (sys_all w [MkdirAll etc_dir (perm 7 5 0), Chown etc_dir gid])
        (\<lambda>_. wp (then_act (copy_local_token w gid) (\<lambda>token_file.
           then_act (write_owned_file w env_path
             (setup_env_content (sf_hub fl) (sf_integration fl) (sf_token fl) name (setup_target fl) token_file) (perm 6 4 0) gid) (\<lambda>_.
           then_act (sys_all w (setup_units (setup_user fl) home)) (\<lambda>_. commands w setup_commands)))) ?Q ?E) ?E h1"
    proof (rule wp_mono [OF etc_dir_wp], elim conjE)
      fix u h2 assume d: "same_commands h1 h2" "\<forall>p. p \<noteq> etc_dir \<longrightarrow> ho_files h2 p = ho_files h1 p"
      have i: "bin_installed w h2" by (rule keep_in_place [OF b(1), of "{etc_dir}"]) (use d(2) managed_paths in auto)
      have s: "same_commands h h2" using b(2) d(1) by (rule same_commands_trans)
      show "wp (then_act (copy_local_token w gid) (\<lambda>token_file.
           then_act (write_owned_file w env_path
             (setup_env_content (sf_hub fl) (sf_integration fl) (sf_token fl) name (setup_target fl) token_file) (perm 6 4 0) gid) (\<lambda>_.
           then_act (sys_all w (setup_units (setup_user fl) home)) (\<lambda>_. commands w setup_commands)))) ?Q ?E h2"
        by (rule configure_wp [OF i]) (use s in \<open>blast intro: cmds err same_commands_trans\<close>)+
    qed (use b err in \<open>blast intro: same_commands_trans\<close>)
  qed (use err in blast)
qed

lemma run_setup_wp:
  assumes "\<forall>t. ow_temp w = Inr t \<longrightarrow> t \<noteq> bin_path"
  shows "wp (run_setup env get w given)
    (\<lambda>rep h1. \<exists>name home gid. setup_ready w (parse_setup_flags w given) name home gid
       \<and> in_place w (parse_setup_flags w given) name home gid h1
       \<and> commands_run h1 = commands_run h @ map Command setup_commands)
    (\<lambda>_ h1. h1 = h \<or> (\<exists>name home gid. setup_ready w (parse_setup_flags w given) name home gid) \<and> setup_post w (parse_setup_flags w given) h h1) h"
proof -
  let ?fl = "parse_setup_flags w given"
  have "wp (then_act (setup_steps w ?fl name home gid) (\<lambda>_. pure_act (Inr rep)))
    (\<lambda>_ h1. \<exists>name home gid. setup_ready w ?fl name home gid \<and> in_place w ?fl name home gid h1
       \<and> commands_run h1 = commands_run h @ map Command setup_commands)
    (\<lambda>_ h1. h1 = h \<or> (\<exists>name home gid. setup_ready w ?fl name home gid) \<and> setup_post w ?fl h h1) h"
    if "setup_ready w ?fl name home gid" for name home gid rep
    unfolding wp_then wp_return
    by (rule wp_mono [OF setup_steps_wp [OF assms that]]) (use that in blast)+
  then show ?thesis
    unfolding run_setup_def Let_def
    by (auto simp: wp_then wp_return wp_pure setup_ready_def split: sum.splits)
qed


section \<open>The configuration the service finds\<close>

text \<open>
  systemd's reading of an environment file is outside; what is relied on is its documented
  effect on assignments whose values need no quoting.
\<close>

definition plain_value :: "string \<Rightarrow> bool" where
  "plain_value v \<longleftrightarrow> (\<forall>c\<in>set v. c \<notin> {nl, CHR 0x0D, CHR 0x09, CHR '' '', CHR 0x22, CHR 0x27, CHR 0x5C, CHR ''#'', CHR '';''})"

definition plain_name :: "string \<Rightarrow> bool" where
  "plain_name k \<longleftrightarrow> k \<noteq> [] \<and> (\<forall>c\<in>set k. byte CHR ''A'' \<le> byte c \<and> byte c \<le> byte CHR ''Z'' \<or> c = CHR ''_'')"

definition reads_assignments :: "(string \<Rightarrow> string \<Rightarrow> string) \<Rightarrow> bool" where
  "reads_assignments read_env \<longleftrightarrow>
     (\<forall>kvs. distinct (map fst kvs) \<and> (\<forall>kv\<in>set kvs. plain_name (fst kv) \<and> plain_value (snd kv)) \<longrightarrow>
        read_env (concat (map env_line kvs)) = (\<lambda>k. case map_of kvs k of None \<Rightarrow> [] | Some v \<Rightarrow> v))"

definition service_settings :: "string \<Rightarrow> string \<Rightarrow> string \<Rightarrow> string \<Rightarrow> string \<Rightarrow> string \<Rightarrow> (string \<times> string) list" where
  "service_settings hub integ token name target token_file =
     [(''BOXEL_HUB_URL'', hub), (''BOXEL_HUB_INTEGRATION'', integ), (''BOXEL_AGENT_TOKEN'', token), (''BOXEL_AGENT_NAME'', name),
      (''BOXEL_AGENT_TARGET'', target), (''BOXEL_AGENT_TARGET_TOKEN_FILE'', token_file)]"

lemma map_of_nonblank:
  "distinct (map fst kvs) \<Longrightarrow> (case map_of (filter (\<lambda>kv. snd kv \<noteq> []) kvs) k of None \<Rightarrow> [] | Some v \<Rightarrow> v) =
     (case map_of kvs k of None \<Rightarrow> [] | Some v \<Rightarrow> v)"
proof (induction kvs)
  case (Cons kv kvs)
  have "fst kv = k \<Longrightarrow> map_of (filter (\<lambda>kv. snd kv \<noteq> []) kvs) k = None"
    using Cons.prems by (auto simp: map_of_eq_None_iff image_iff)
  with Cons show ?case by (cases "fst kv = k"; cases "snd kv = []") simp_all
qed simp

lemma setting_names:
  "plain_name ''BOXEL_HUB_URL''" "plain_name ''BOXEL_HUB_INTEGRATION''" "plain_name ''BOXEL_AGENT_TOKEN''"
  "plain_name ''BOXEL_AGENT_NAME''" "plain_name ''BOXEL_AGENT_TARGET''" "plain_name ''BOXEL_AGENT_TARGET_TOKEN_FILE''"
  by (simp_all add: plain_name_def)

lemma env_content_read:
  assumes "reads_assignments read_env" and "list_all plain_value [hub, integ, token, name, target, token_file]"
  shows "read_env (setup_env_content hub integ token name target token_file) k =
    (case map_of (service_settings hub integ token name target token_file) k of None \<Rightarrow> [] | Some v \<Rightarrow> v)"
proof -
  let ?kvs = "service_settings hub integ token name target token_file"
  have d: "distinct (map fst ?kvs)" by (simp add: service_settings_def)
  have "distinct (map fst (filter (\<lambda>kv. snd kv \<noteq> []) ?kvs))" using d by (rule distinct_map_filter)
  moreover have "\<forall>kv\<in>set (filter (\<lambda>kv. snd kv \<noteq> []) ?kvs). plain_name (fst kv) \<and> plain_value (snd kv)"
    using assms(2) setting_names by (simp add: service_settings_def)
  ultimately have "read_env (setup_env_content hub integ token name target token_file) =
      (\<lambda>k. case map_of (filter (\<lambda>kv. snd kv \<noteq> []) ?kvs) k of None \<Rightarrow> [] | Some v \<Rightarrow> v)"
    using assms(1) unfolding reads_assignments_def setup_env_content_def service_settings_def by blast
  then show ?thesis using map_of_nonblank [OF d] by simp
qed


end
