(* ===== verification/Agent_Examples.thy ===== *)
theory Agent_Examples
  imports Agent_Setup
begin

text \<open>The installer and the self-update on a small machine.\<close>

definition quiet_env :: agent_env where
  "quiet_env = \<lparr>ag_parse = (\<lambda>s. None), ag_quote = id, ag_escaped = (\<lambda>p q. p), ag_url = (\<lambda>u. []), ag_duration = (\<lambda>d. [])\<rparr>"

text \<open>A machine on which every call succeeds and a newer release can be built.\<close>

definition machine :: os_world where
  "machine = \<lparr>ow_env = (\<lambda>k. []), ow_environ = [], ow_root = True, ow_systemctl = True, ow_hostname = Inr ''web.local'',
     ow_lower = id, ow_quote = id, ow_user = (\<lambda>u. Inr (''/home/u'', ''7'')), ow_gid = (\<lambda>g. Inr 7),
     ow_executable = Inr ''/tmp/a'', ow_symlinks = Inr, ow_read = (\<lambda>p. if p = ''/tmp/a'' then Inr ''ELF'' else Inl ''missing''),
     ow_temp = Inr ''/t'', ow_staging = Inr ''/s'', ow_umask = id, ow_fails = (\<lambda>c. None), ow_output = (\<lambda>c. []),
     ow_build = Some \<lparr>bi_path = [], bi_version = ''v1'', bi_settings = []\<rparr>, ow_escape = Inr, ow_semver = (\<lambda>v. hd v = CHR ''v''),
     ow_newer = (\<lambda>v u. v = ''v2'' \<and> u = ''v1''), ow_get = (\<lambda>u. Inr (200, [], ''v2'')), ow_version_field = Inr,
     ow_go_in_path = Some ''go'', ow_is_file = (\<lambda>p. False),
     ow_built = (\<lambda>t. Some \<lparr>fi_content = ''new'', fi_mode = 493, fi_gid = 0\<rparr>), ow_embedded = (\<lambda>f. Inr ''v2'')\<rparr>"

definition empty_host :: host where
  "empty_host = \<lparr>ho_files = (\<lambda>p. None), ho_calls = []\<rparr>"

lemma machine_simps:
  "ow_fails machine = (\<lambda>c. None)" "ow_env machine = (\<lambda>k. [])" "ow_root machine" "ow_systemctl machine"
  "ow_hostname machine = Inr ''web.local''" "ow_lower machine = id" "ow_user machine u = Inr (''/home/u'', ''7'')" "ow_gid machine g = Inr 7"
  "ow_executable machine = Inr ''/tmp/a''" "ow_symlinks machine = Inr"
  "ow_read machine p = (if p = ''/tmp/a'' then Inr ''ELF'' else Inl ''missing'')" "ow_temp machine = Inr ''/t''" "ow_staging machine = Inr ''/s''"
  "ow_build machine = Some \<lparr>bi_path = [], bi_version = ''v1'', bi_settings = []\<rparr>" "ow_escape machine = Inr"
  "ow_semver machine v = (hd v = CHR ''v'')" "ow_newer machine v u = (v = ''v2'' \<and> u = ''v1'')" "ow_get machine u = Inr (200, [], ''v2'')"
  "ow_version_field machine = Inr" "ow_go_in_path machine = Some ''go''"
  "ow_built machine t = Some \<lparr>fi_content = ''new'', fi_mode = 493, fi_gid = 0\<rparr>" "ow_embedded machine f = Inr ''v2''"
  by (simp_all add: machine_def)

lemma sys_works [simp]: "ow_fails w = (\<lambda>c. None) \<Longrightarrow> wp (sys w c) Q E h = Q () (snd (sys w c h))"
  by (simp add: wp_sys)

lemma machine_version: "version_string (ow_build machine) = ''v1''"
  by (simp add: machine_simps version_string_def from_build_info_def)

lemma machine_latest: "latest_module_version machine p m = Inr ''v2''"
  by (simp add: latest_module_version_def machine_simps check_that_def)

lemma machine_installs: "wp (install_version machine ''v2'') (\<lambda>_ _. True) (\<lambda>_ _. False) h"
  by (simp add: install_version_def build_and_swap_def look_go_def machine_simps wp_simps snd_sys Let_def)

lemma machine_updates: "wp (run_update machine False []) (\<lambda>r _. r = Updated ''v2'') (\<lambda>_ _. False) empty_host"
proof -
  have go: "resolve_go_proxy [] (ow_env machine ''GOPROXY'') = Inr default_go_proxy"
    by (simp add: resolve_go_proxy_def machine_simps)
  have cmd: "wp (command machine argv) (\<lambda>_ _. True) (\<lambda>_ _. False) h" for argv h by (simp add: command_def wp_wrapping machine_simps)
  have "wp (then_act (install_version machine ''v2'') (\<lambda>_. then_act (command machine argv) (\<lambda>_. pure_act (Inr (Updated ''v2'')))))
      (\<lambda>r _. r = Updated ''v2'') (\<lambda>_ _. False) h" for argv h
    unfolding wp_then
    by (rule wp_mono [OF machine_installs]) (auto simp: wp_return intro: wp_mono [OF cmd])
  then show ?thesis
    unfolding run_update_def machine_version machine_latest go Let_def sum.case
    by (simp add: machine_simps wp_then [of "pure_act _"] wp_pure)
qed


lemma machine_setup: "setup_ready machine (parse_setup_flags machine (\<lambda>k. None)) ''web'' ''/home/u'' 7"
proof -
  have "short_hostname machine = Inr ''web''"
    by (simp add: short_hostname_def machine_simps cut_char_def to_lower_def ascii_def lower_char_def)
  then show ?thesis
    by (simp add: setup_ready_def machine_simps parse_setup_flags_def flag_env_def setup_name_def lookup_service_user_def setup_user_def)
qed

lemma machine_sets_up: "wp (run_setup quiet_env (\<lambda>u. NoReply []) machine (\<lambda>k. None)) (\<lambda>_ _. True) (\<lambda>_ _. False) empty_host"
proof -
  have cmds: "wp (commands machine cs) (\<lambda>_ _. True) (\<lambda>_ _. False) h" for cs h
    by (induction cs arbitrary: h) (simp_all add: command_def wp_simps machine_simps)
  have calls: "wp (sys_all machine cs) Q E h = Q () (snd (sys_all machine cs h))" for cs Q E h
    by (induction cs arbitrary: h) (simp_all add: wp_then wp_return machine_simps then_act_def pure_act_def sys_def Let_def split: prod.split)
  have "wp (setup_steps machine fl name home gid) (\<lambda>_ _. True) (\<lambda>_ _. False) h" for fl name home gid h
    unfolding setup_steps_def
    by (simp add: wp_then install_self_def machine_simps wp_pure wp_deferring calls copy_local_token_def write_owned_file_def
        local_token_path_def bin_path_def cmds del: sys_all.simps)
  then show ?thesis
    using machine_setup
    by (auto simp: run_setup_def setup_ready_def Let_def wp_then wp_pure wp_return elim: wp_mono)
qed


section \<open>An environment file read back\<close>

definition assignment :: "string \<Rightarrow> string \<times> string" where
  "assignment l = (fst (cut_char CHR ''='' l), fst (snd (cut_char CHR ''='' l)))"

definition read_lines :: "string \<Rightarrow> string \<Rightarrow> string" where
  "read_lines s k = (case map_of (map assignment (split_char nl s)) k of None \<Rightarrow> [] | Some v \<Rightarrow> v)"

lemma split_lines: "\<forall>l\<in>set ls. nl \<notin> set l \<Longrightarrow> split_char nl (concat (map (\<lambda>l. l @ [nl]) ls)) = ls @ [[]]"
  by (induction ls) (simp_all add: split_char_append)

lemma plain_name_chars: "plain_name k \<Longrightarrow> nl \<notin> set k \<and> CHR ''='' \<notin> set k"
  unfolding plain_name_def by (auto dest: bspec [where x = nl] bspec [where x = "CHR ''=''"])

lemma read_lines_reads: "reads_assignments read_lines"
  unfolding reads_assignments_def
proof (intro allI impI, elim conjE, rule ext)
  fix kvs k
  assume kv: "\<forall>kv\<in>set kvs. plain_name (fst kv) \<and> plain_value (snd kv)"
  let ?line = "\<lambda>kv. fst kv @ CHR ''='' # snd kv"
  have nl: "nl \<notin> set (?line kv)" "assignment (?line kv) = kv" if "kv \<in> set kvs" for kv
    using kv that plain_name_chars [of "fst kv"] by (auto simp: plain_value_def assignment_def cut_char_append)
  have e: "concat (map env_line kvs) = concat (map (\<lambda>l. l @ [nl]) (map ?line kvs))"
    by (induction kvs) (simp_all add: env_line_def)
  have "split_char nl (concat (map env_line kvs)) = map ?line kvs @ [[]]"
    unfolding e by (rule split_lines) (use nl(1) in auto)
  moreover have "map assignment (map ?line kvs) = kvs" using nl(2) by (simp add: map_idI)
  ultimately have "map assignment (split_char nl (concat (map env_line kvs))) = kvs @ [assignment []]" by simp
  then show "read_lines (concat (map env_line kvs)) k = (case map_of kvs k of None \<Rightarrow> [] | Some v \<Rightarrow> v)"
    by (auto simp: read_lines_def assignment_def cut_char_def map_add_def split: option.split)
qed

text \<open>The machine as the service sees it after the installation.\<close>

definition installed_world :: "host \<Rightarrow> host_file \<Rightarrow> os_world" where
  "installed_world h f = machine\<lparr>ow_env := read_lines (fi_content f),
     ow_read := (\<lambda>p. case ho_files h p of None \<Rightarrow> Inl [] | Some g \<Rightarrow> Inr (fi_content g))\<rparr>"


end
