(* ===== verification/Idp_Key.thy ===== *)
theory Idp_Key
  imports Idp
begin

text \<open>
  The key file of \<^verbatim>\<open>internal/idp/key.go\<close>. PEM, the DER form of an EC key and the random
  source are outside; the file system is a map, and the read and the write may fail, the
  write also after a part of the content is on disk.
\<close>

record ec_key =
  ek_p256 :: bool
  ek_key :: signing_key

record key_codec =
  kc_pem_decode :: "string \<Rightarrow> (string \<times> string) option"
  kc_pem_encode :: "string \<Rightarrow> string \<Rightarrow> string"
  kc_parse :: "string \<Rightarrow> string + ec_key"
  kc_marshal :: "ec_key \<Rightarrow> string + string"

record key_world =
  kw_read_fails :: "string option"
  kw_generate :: "string + signing_key"
  kw_create_fails :: "string option"
  kw_write_fails :: "(nat \<times> string) option"
  kw_umask :: "nat \<Rightarrow> nat"

type_synonym key_files = "string \<Rightarrow> (string \<times> nat) option"

text \<open>\<^verbatim>\<open>ecdsa.GenerateKey(elliptic.P256(), ...)\<close>.\<close>

definition generate_key :: "key_world \<Rightarrow> string + ec_key" where
  "generate_key w = map_sum id (\<lambda>k. \<lparr>ek_p256 = True, ek_key = k\<rparr>) (kw_generate w)"

text \<open>\<^verbatim>\<open>os.WriteFile\<close> of a file that is not there: the mode is the one asked for, cut by the umask.\<close>

definition write_key_file :: "key_world \<Rightarrow> string \<Rightarrow> string \<Rightarrow> nat \<Rightarrow> key_files \<Rightarrow> string option \<times> key_files" where
  "write_key_file w path b mode fs =
     (case kw_create_fails w of Some e \<Rightarrow> (Some e, fs)
      | None \<Rightarrow>
          (case kw_write_fails w of
             Some (n, e) \<Rightarrow> (Some e, fs(path \<mapsto> (take n b, kw_umask w mode)))
           | None \<Rightarrow> (None, fs(path \<mapsto> (b, kw_umask w mode)))))"

definition ec_block :: string where "ec_block = ''EC PRIVATE KEY''"

definition load_key :: "key_codec \<Rightarrow> string \<Rightarrow> string \<Rightarrow> string + ec_key" where
  "load_key kc path b =
     (case kc_pem_decode kc b of
        None \<Rightarrow> Inl (''idp key '' @ path @ '': expected a PEM EC PRIVATE KEY block'')
      | Some (t, der) \<Rightarrow>
          if t \<noteq> ec_block then Inl (''idp key '' @ path @ '': expected a PEM EC PRIVATE KEY block'')
          else (case kc_parse kc der of
                  Inl e \<Rightarrow> Inl (''idp key '' @ path @ '': '' @ e)
                | Inr key \<Rightarrow> if ek_p256 key then Inr key else Inl (''idp key '' @ path @ '': not a P-256 key'')))"

definition create_key :: "key_codec \<Rightarrow> key_world \<Rightarrow> string \<Rightarrow> key_files \<Rightarrow> (string + ec_key) \<times> key_files" where
  "create_key kc w path fs =
     (case generate_key w of
        Inl e \<Rightarrow> (Inl e, fs)
      | Inr key \<Rightarrow>
          (case kc_marshal kc key of
             Inl e \<Rightarrow> (Inl e, fs)
           | Inr der \<Rightarrow>
               (case write_key_file w path (kc_pem_encode kc ec_block der) (6 * 64) fs of
                  (Some e, fs') \<Rightarrow> (Inl (''write idp key: '' @ e), fs')
                | (None, fs') \<Rightarrow> (Inr key, fs'))))"

definition load_or_create_key :: "key_codec \<Rightarrow> key_world \<Rightarrow> string \<Rightarrow> key_files \<Rightarrow> (string + ec_key) \<times> key_files" where
  "load_or_create_key kc w path fs =
     (if path = [] then (generate_key w, fs)
      else case fs path of
        Some (b, mode) \<Rightarrow>
          (case kw_read_fails w of Some e \<Rightarrow> (Inl (''read idp key: '' @ e), fs) | None \<Rightarrow> (load_key kc path b, fs))
      | None \<Rightarrow>
          (case kw_read_fails w of
             Some e \<Rightarrow> (Inl (''read idp key: '' @ e), fs)
           | None \<Rightarrow> create_key kc w path fs))"

section \<open>What a start leaves\<close>

lemma generate_key_p256: "generate_key w = Inr key \<Longrightarrow> ek_p256 key"
  by (cases "kw_generate w") (auto simp: generate_key_def)

lemma create_key_Inr:
  assumes "create_key kc w path fs = (Inr key, fs')"
  obtains der where "kc_marshal kc key = Inr der" "ek_p256 key"
    "fs' = fs(path \<mapsto> (kc_pem_encode kc ec_block der, kw_umask w (6 * 64)))"
  using assms generate_key_p256 [of w key]
  by (auto simp: create_key_def write_key_file_def split: sum.splits option.splits)

lemma create_key_elsewhere: "create_key kc w path fs = (r, fs') \<Longrightarrow> q \<noteq> path \<Longrightarrow> fs' q = fs q"
  by (auto simp: create_key_def write_key_file_def split: sum.splits option.splits)

lemma load_key_p256: "load_key kc path b = Inr key \<Longrightarrow> ek_p256 key"
  by (auto simp: load_key_def split: option.splits if_splits sum.splits)

text \<open>
  C33. The signing key survives restarts. Once a start with a key file has returned a key, every
  later start that can read the file returns the same key and leaves the file alone, whatever its
  random source; a file that was there is never written, a new one is readable by its owner only,
  and no other file is touched.
\<close>

theorem key_survives_restart:
  assumes pem: "\<And>t b. kc_pem_decode kc (kc_pem_encode kc t b) = Some (t, b)"
    and der: "\<And>k b. kc_marshal kc k = Inr b \<Longrightarrow> kc_parse kc b = Inr k"
    and first: "load_or_create_key kc w path fs = (Inr key, fs')" and "path \<noteq> []"
  shows "(kw_read_fails w' = None \<longrightarrow> load_or_create_key kc w' path fs' = (Inr key, fs'))
    \<and> (fs path \<noteq> None \<longrightarrow> fs' = fs) \<and> (fs path = None \<longrightarrow> map_option snd (fs' path) = Some (kw_umask w (6 * 64)))
    \<and> (\<forall>q. q \<noteq> path \<longrightarrow> fs' q = fs q)"
proof (cases "fs path")
  case None
  with first \<open>path \<noteq> []\<close> have c: "create_key kc w path fs = (Inr key, fs')"
    by (auto simp: load_or_create_key_def split: option.splits)
  then obtain d where "kc_marshal kc key = Inr d" "ek_p256 key"
    and f: "fs' = fs(path \<mapsto> (kc_pem_encode kc ec_block d, kw_umask w (6 * 64)))"
    by (rule create_key_Inr)
  then have "load_key kc path (kc_pem_encode kc ec_block d) = Inr key" by (simp add: load_key_def pem der)
  with None f \<open>path \<noteq> []\<close> show ?thesis by (simp add: load_or_create_key_def)
next
  case (Some x)
  with first \<open>path \<noteq> []\<close> show ?thesis by (cases x) (auto simp: load_or_create_key_def split: option.splits)
qed

section \<open>On toy encodings\<close>

definition toy_key :: ec_key where
  "toy_key = \<lparr>ek_p256 = True, ek_key = \<lparr>sk_pub = \<lparr>pk_x = 1, pk_y = 2\<rparr>, sk_secret = ''s''\<rparr>\<rparr>"

text \<open>The length of the type in unary, the type, the bytes.\<close>

definition toy_codec :: key_codec where
  "toy_codec = \<lparr>kc_pem_decode = (\<lambda>s. let n = length (takeWhile (\<lambda>c. c = CHR ''1'') s)
       in Some (take n (drop (Suc n) s), drop n (drop (Suc n) s))),
     kc_pem_encode = (\<lambda>t b. replicate (length t) (CHR ''1'') @ CHR ''0'' # t @ b),
     kc_parse = (\<lambda>b. Inr toy_key), kc_marshal = (\<lambda>k. if k = toy_key then Inr ''der'' else Inl ''unsupported'')\<rparr>"

definition key_machine :: "string + signing_key \<Rightarrow> key_world" where
  "key_machine g = \<lparr>kw_read_fails = None, kw_generate = g, kw_create_fails = None, kw_write_fails = None, kw_umask = id\<rparr>"

lemma toy_pem: "kc_pem_decode toy_codec (kc_pem_encode toy_codec t b) = Some (t, b)"
proof -
  have n: "length (takeWhile (\<lambda>c. c = CHR ''1'') (replicate (length t) (CHR ''1'') @ CHR ''0'' # t @ b)) = length t"
    by (subst takeWhile_append2) auto
  then show ?thesis unfolding toy_codec_def by (simp only: key_codec.simps n Let_def) simp
qed

lemma toy_der: "kc_marshal toy_codec k = Inr b \<Longrightarrow> kc_parse toy_codec b = Inr k"
  by (simp add: toy_codec_def split: if_splits)

lemma first_start: "\<exists>fs. load_or_create_key toy_codec (key_machine (Inr (ek_key toy_key))) ''k'' Map.empty = (Inr toy_key, fs)"
  by (simp add: load_or_create_key_def create_key_def generate_key_def key_machine_def toy_codec_def toy_key_def write_key_file_def)

lemma key_survives_restart_witness:
  "\<exists>fs. load_or_create_key toy_codec (key_machine (Inr (ek_key toy_key))) ''k'' Map.empty = (Inr toy_key, fs)
     \<and> load_or_create_key toy_codec (key_machine (Inl ''no entropy'')) ''k'' fs = (Inr toy_key, fs)"
proof -
  obtain fs where f: "load_or_create_key toy_codec (key_machine (Inr (ek_key toy_key))) ''k'' Map.empty = (Inr toy_key, fs)"
    using first_start ..
  have "kw_read_fails (key_machine (Inl ''no entropy'')) = None" by (simp add: key_machine_def)
  with key_survives_restart [OF toy_pem toy_der f, of "key_machine (Inl ''no entropy'')"] f show ?thesis by simp
qed

end
