(* ===== verification/Main_Flags.thy ===== *)
theory Main_Flags
  imports Guard
begin

text \<open>
  The command line of \<^verbatim>\<open>cmd/tunnel-mcp\<close>: the defaults of its flags, some of them from the
  environment, the flags given, and the permission mode that results. An argument is its name
  and value, split as \<^verbatim>\<open>flag\<close> does it; \<open>dur\<close> is \<^verbatim>\<open>time.ParseDuration\<close>. The second listener
  of the hub is here too.
\<close>

definition flag_defaults :: "startup \<Rightarrow> opts" where
  "flag_defaults su = \<lparr>o_http_addr = [], o_workspace = [], o_perms_file = [], o_mode = mode_string ModeDefault, o_audit_path = [],
     o_metrics_addr = [], o_token = [], o_token_file = [], o_owner_email = [], o_session_ttl = 24 * 3600 * second,
     o_hub_agent_token = [], o_hub_agent_token_file = [], o_hub_agent_owner_email = [], o_hub_agent_listen = [],
     o_hub_advertise_url = [], o_hub_connect = False, o_hub_url = su_env su ''BOXEL_HUB_URL'', o_hub_name = su_env su
     ''BOXEL_AGENT_NAME'', o_hub_token = [], o_hub_token_file = su_env su ''BOXEL_AGENT_TOKEN_FILE'', o_hub_integration =
     su_env su ''BOXEL_HUB_INTEGRATION'', o_reflection_url = su_env su ''BOXEL_REFLECTION_URL'', o_idp_issuer = [],
     o_idp_users = [], o_idp_key_file = []\<rparr>"

text \<open>The string flags, and where each is kept.\<close>

definition string_flags :: "(string \<times> (string \<Rightarrow> opts \<Rightarrow> opts)) list" where
  "string_flags =
    [(''http'', \<lambda>v fl. fl\<lparr>o_http_addr := v\<rparr>),
     (''workspace'', \<lambda>v fl. fl\<lparr>o_workspace := v\<rparr>),
     (''permissions'', \<lambda>v fl. fl\<lparr>o_perms_file := v\<rparr>),
     (''permission-mode'', \<lambda>v fl. fl\<lparr>o_mode := v\<rparr>),
     (''audit-log'', \<lambda>v fl. fl\<lparr>o_audit_path := v\<rparr>),
     (''metrics-addr'', \<lambda>v fl. fl\<lparr>o_metrics_addr := v\<rparr>),
     (''token'', \<lambda>v fl. fl\<lparr>o_token := v\<rparr>),
     (''token-file'', \<lambda>v fl. fl\<lparr>o_token_file := v\<rparr>),
     (''owner-email'', \<lambda>v fl. fl\<lparr>o_owner_email := v\<rparr>),
     (''hub-agent-token'', \<lambda>v fl. fl\<lparr>o_hub_agent_token := v\<rparr>),
     (''hub-agent-token-file'', \<lambda>v fl. fl\<lparr>o_hub_agent_token_file := v\<rparr>),
     (''hub-agent-owner-email'', \<lambda>v fl. fl\<lparr>o_hub_agent_owner_email := v\<rparr>),
     (''hub-agent-listen'', \<lambda>v fl. fl\<lparr>o_hub_agent_listen := v\<rparr>),
     (''hub-advertise-url'', \<lambda>v fl. fl\<lparr>o_hub_advertise_url := v\<rparr>),
     (''hub-url'', \<lambda>v fl. fl\<lparr>o_hub_url := v\<rparr>),
     (''hub-name'', \<lambda>v fl. fl\<lparr>o_hub_name := v\<rparr>),
     (''hub-token'', \<lambda>v fl. fl\<lparr>o_hub_token := v\<rparr>),
     (''hub-token-file'', \<lambda>v fl. fl\<lparr>o_hub_token_file := v\<rparr>),
     (''hub-integration'', \<lambda>v fl. fl\<lparr>o_hub_integration := v\<rparr>),
     (''hub-reflection-url'', \<lambda>v fl. fl\<lparr>o_reflection_url := v\<rparr>),
     (''idp-issuer'', \<lambda>v fl. fl\<lparr>o_idp_issuer := v\<rparr>),
     (''idp-users'', \<lambda>v fl. fl\<lparr>o_idp_users := v\<rparr>),
     (''idp-key-file'', \<lambda>v fl. fl\<lparr>o_idp_key_file := v\<rparr>)]"

text \<open>\<^verbatim>\<open>strconv.ParseBool\<close>; a boolean flag without a value has the value \<^verbatim>\<open>true\<close>.\<close>

definition parse_bool :: "string \<Rightarrow> bool option" where
  "parse_bool v =
     (if v \<in> set [''1'', ''t'', ''T'', ''TRUE'', ''true'', ''True''] then Some True
      else if v \<in> set [''0'', ''f'', ''F'', ''FALSE'', ''false'', ''False''] then Some False else None)"

definition set_flag :: "(string \<Rightarrow> duration option) \<Rightarrow> string \<times> string \<Rightarrow> opts \<Rightarrow> opts option" where
  "set_flag dur a fl =
     (case map_of string_flags (fst a) of
        Some f \<Rightarrow> Some (f (snd a) fl)
      | None \<Rightarrow>
          if fst a = ''hub-connect'' then map_option (\<lambda>b. fl\<lparr>o_hub_connect := b\<rparr>) (parse_bool (snd a))
          else if fst a = ''session-ttl'' then map_option (\<lambda>d. fl\<lparr>o_session_ttl := d\<rparr>) (dur (snd a))
          else None)"

fun set_flags :: "(string \<Rightarrow> duration option) \<Rightarrow> (string \<times> string) list \<Rightarrow> opts \<Rightarrow> opts option" where
  "set_flags dur [] fl = Some fl"
| "set_flags dur (a # as) fl = (case set_flag dur a fl of None \<Rightarrow> None | Some fl' \<Rightarrow> set_flags dur as fl')"

definition flag_was_set :: "string \<Rightarrow> (string \<times> string) list \<Rightarrow> bool" where
  "flag_was_set name args = (name \<in> set (map fst args))"

text \<open>\<^verbatim>\<open>main\<close> up to \<^verbatim>\<open>run\<close>; a malformed command line ends the program.\<close>

definition main_opts :: "(string \<Rightarrow> duration option) \<Rightarrow> startup \<Rightarrow> (string \<times> string) list \<Rightarrow> opts option" where
  "main_opts dur su args =
     map_option (\<lambda>fl. fl\<lparr>o_mode := effective_mode (o_mode fl) (flag_was_set ''permission-mode'' args) (o_hub_connect fl)\<rparr>)
       (set_flags dur args (flag_defaults su))"

section \<open>The second listener\<close>

text \<open>The mux on the address of \<^verbatim>\<open>--hub-agent-listen\<close>, which has no guard.\<close>

definition registration_route :: "string \<Rightarrow> string list \<Rightarrow> route option" where
  "registration_route verb segs =
     (if segs = [''hub'', ''connect''] \<and> (verb = ''GET'' \<or> verb = ''HEAD'') then Some (HubRoute Connect)
      else if segs = [''healthz''] then Some Healthz else None)"

lemma registration_public: "registration_route verb segs = Some rt \<Longrightarrow> public_route rt"
  by (simp add: registration_route_def public_route_def split: if_split_asm) (auto simp: guarded_def)

section \<open>The permission mode\<close>

lemma string_flags_mode: "(m, f) \<in> set string_flags \<Longrightarrow> o_mode (f v fl) = (if m = ''permission-mode'' then v else o_mode fl)"
proof -
  have "list_all (\<lambda>(m, f). o_mode (f v fl) = (if m = ''permission-mode'' then v else o_mode fl)) string_flags"
    unfolding string_flags_def by simp
  then show "(m, f) \<in> set string_flags \<Longrightarrow> ?thesis" by (auto simp: list_all_iff)
qed

lemma mode_is_a_flag: "map_of string_flags ''permission-mode'' = Some (\<lambda>v fl. fl\<lparr>o_mode := v\<rparr>)"
  by (simp add: string_flags_def)

lemma set_flag_mode:
  assumes "set_flag dur (n, v) fl = Some fl'"
  shows "o_mode fl' = (if n = ''permission-mode'' then v else o_mode fl)"
proof (cases "map_of string_flags n")
  case None
  then have "n \<noteq> ''permission-mode''" using mode_is_a_flag by auto
  with None assms show ?thesis by (auto simp: set_flag_def split: if_splits)
next
  case (Some f)
  with assms string_flags_mode [OF map_of_SomeD [OF Some]] show ?thesis by (auto simp: set_flag_def)
qed

definition last_value :: "string \<Rightarrow> (string \<times> string) list \<Rightarrow> string option" where
  "last_value n args = map_of (rev args) n"

lemma last_value_Cons: "last_value n ((m, v) # args) = (case last_value n args of Some w \<Rightarrow> Some w | None \<Rightarrow> if m = n then Some v else None)"
  by (simp add: last_value_def map_add_def split: option.split)

lemma set_flags_mode:
  "set_flags dur args fl = Some fl' \<Longrightarrow> o_mode fl' = (case last_value ''permission-mode'' args of Some v \<Rightarrow> v | None \<Rightarrow> o_mode fl)"
proof (induction dur args fl rule: set_flags.induct)
  case (2 dur a as fl)
  then show ?case by (cases a) (auto simp: last_value_Cons set_flag_mode split: option.splits)
qed (simp add: last_value_def)

lemma was_set_value: "flag_was_set n args \<longleftrightarrow> last_value n args \<noteq> None"
  by (auto simp: flag_was_set_def last_value_def map_of_eq_None_iff)

text \<open>
  The permission mode is the server's own: the last one given on the command line, whatever
  else is given and whatever the environment holds; without one, an agent that dials a hub
  bypasses permissions and every other server has the default mode.
\<close>

theorem mode_from_flags:
  assumes "main_opts dur su args = Some fl"
  shows "o_mode fl =
    (case last_value ''permission-mode'' args of
       Some v \<Rightarrow> v
     | None \<Rightarrow> if o_hub_connect fl then ''bypassPermissions'' else ''default'')"
proof -
  obtain fl0 where s: "set_flags dur args (flag_defaults su) = Some fl0"
    and fl: "fl = fl0\<lparr>o_mode := effective_mode (o_mode fl0) (flag_was_set ''permission-mode'' args) (o_hub_connect fl0)\<rparr>"
    using assms by (auto simp: main_opts_def)
  from set_flags_mode [OF s] show ?thesis
    by (auto simp: fl effective_mode_def was_set_value flag_defaults_def split: option.split)
qed

lemma mode_from_flags_witness:
  "\<forall>su. \<exists>fl. main_opts (\<lambda>v. None) su [(''hub-connect'', ''true''), (''permission-mode'', ''default'')] = Some fl \<and> o_mode fl = ''default''"
proof
  fix su
  have "main_opts (\<lambda>v. None) su [(''hub-connect'', ''true''), (''permission-mode'', ''default'')] \<noteq> None"
    by (simp add: main_opts_def set_flag_def string_flags_def parse_bool_def)
  then obtain fl where m: "main_opts (\<lambda>v. None) su [(''hub-connect'', ''true''), (''permission-mode'', ''default'')] = Some fl"
    by blast
  from mode_from_flags [OF m] m
  show "\<exists>fl. main_opts (\<lambda>v. None) su [(''hub-connect'', ''true''), (''permission-mode'', ''default'')] = Some fl \<and> o_mode fl = ''default''"
    by (simp add: last_value_def)
qed

end
