(* ===== verification/Spec2Isabelle.thy ===== *)
theory Spec2Isabelle
  imports Policy_Examples Tunnel_Examples Hub_Examples Fleet_Examples Guard_Examples Hubagent_Examples Agent_Examples
    Idp_Key Main_Flags
begin

text \<open>
  A verification library for boxel, a permission-gated tunnel through which a coding
  assistant runs its tools (Bash, Read, Write, Edit, Glob, Grep and the two shell tools) on a
  remote sandbox.

  \<^bold>\<open>The program and its parts.\<close> The server \<^verbatim>\<open>cmd/tunnel-mcp\<close> resolves its flags, builds the
  authentication guard and serves three MCP tools. \<^verbatim>\<open>internal/tunnel\<close> handles a call: it
  looks the session up (\<^verbatim>\<open>internal/session\<close>), parses the input (\<^verbatim>\<open>internal/envelope\<close>), asks
  the permission engine (\<^verbatim>\<open>internal/policy\<close>) and, where that says so, the user, runs the tool
  (\<^verbatim>\<open>internal/harness\<close>, with \<^verbatim>\<open>internal/shellmgr\<close> for the shells), and records the outcome
  (\<^verbatim>\<open>internal/audit\<close>, \<^verbatim>\<open>internal/metrics\<close>). In pull mode, agents (\<^verbatim>\<open>internal/hubagent\<close>, started by
  \<^verbatim>\<open>cmd/boxel-agent\<close> or by \<^verbatim>\<open>--hub-connect\<close>) dial out to a hub (\<^verbatim>\<open>internal/hub\<close>) that
  proxies requests to them and, as a fleet dispatcher, routes MCP calls by session. The hub
  and the server can be their own OAuth identity provider (\<^verbatim>\<open>internal/idp\<close>).

  \<^bold>\<open>The theories, from the bottom.\<close>
  \<^item> \<open>Boxel_Prelude\<close>, \<open>Go_Text\<close>, \<open>Go_Strings\<close>: Go's \<^verbatim>\<open>strings\<close>, \<^verbatim>\<open>strconv\<close> and \<^verbatim>\<open>unicode/utf8\<close> on
    byte strings (a \<open>string\<close> is a Go string, a \<open>char\<close> a byte), results as sums with the error
    on the left, and the collections of facts the other theories share.
  \<^item> \<open>Interfaces\<close>: the locales \<open>keyed_store\<close>, \<open>keyed_table\<close> and \<open>expiring_table\<close> (tables by key,
    with deletion, with expiry) and \<open>invariant_system\<close> (a step relation with an inductive
    invariant). They are interpreted by the components: the session index, the shell table,
    the hub's registry, the dispatcher's bindings and clients, and the step relations of the
    shells, the registry and the server.
  \<^item> \<open>Paths\<close>, \<open>Vfs\<close>: \<^verbatim>\<open>path/filepath\<close> lexically, and a file system with directories, files and
    symbolic links: what \<^verbatim>\<open>os\<close> does in the calls the tools make.
  \<^item> \<open>Policy\<close>, \<open>Policy_Order\<close>: \<^verbatim>\<open>internal/policy\<close>, rules, their parser, matchers and \<^verbatim>\<open>Evaluate\<close>;
    severity and modes as linear orders, and decisions monotone in the configuration.
  \<^item> \<open>Envelope\<close>: JSON values, Go's struct decoding and \<^verbatim>\<open>ParseInput\<close> (\<^verbatim>\<open>internal/envelope\<close>).
  \<^item> \<open>Shellmgr\<close>, \<open>Session\<close>, \<open>Audit_Log\<close>: the state machines of shells, the heap of sessions
    with the index of live ones, the log and its redaction.
  \<^item> \<open>Harness\<close>, \<open>File_Tools\<close>, \<open>Confinement\<close>: every tool of \<^verbatim>\<open>internal/harness\<close>, what Read and
    Edit show and change, and that permitted accesses stay in the workspace.
  \<^item> \<open>Tunnel\<close>, \<open>Tunnel_Safety\<close>: \<^verbatim>\<open>internal/tunnel\<close> as a step relation in which calls interleave
    between their beginning, the user's answer and their end.
  \<^item> \<open>Http\<close>, \<open>Hub\<close>, \<open>Hub_Registry\<close>, \<open>Fleet\<close>, \<open>Fleet_Routing\<close>: requests and responses,
    \<^verbatim>\<open>internal/hub\<close> with its registry under concurrency, and the dispatcher.
  \<^item> \<open>Hubagent\<close>, \<open>Hubagent_Loop\<close>, \<open>Hubagent_Joins\<close>: \<^verbatim>\<open>internal/hubagent\<close>, the loop in time, and
    the agent composed with the hub.
  \<^item> \<open>Base64\<close>, \<open>Jwt\<close>, \<open>Idp\<close>, \<open>Idp_Flow\<close>, \<open>Idp_Codes\<close>: \<^verbatim>\<open>internal/idp\<close>, tokens, every handler,
    the provider against an attacker who sends any request, codes and redirects.
  \<^item> \<open>Guard\<close>, \<open>Guard_Safety\<close>: \<^verbatim>\<open>cmd/tunnel-mcp\<close>, flags, start-up, guard and routes.
  \<^item> \<open>Agent_Cmd\<close>, \<open>Agent_Update\<close>, \<open>Agent_Setup\<close>: \<^verbatim>\<open>cmd/boxel-agent\<close> and \<^verbatim>\<open>internal/version\<close>,
    installer and self-update as system calls on a machine where any call may fail.
  \<^item> \<open>..._Examples\<close>: concrete systems to which the theorems are applied. This theory states
    what spans the guard and the identity provider.
\<close>

section \<open>The guard and the identity provider together\<close>


lemma path_irrelevant:
  "rq_header (r\<lparr>rq_path := p\<rparr>) = rq_header r" "aud_matches_request env auds (r\<lparr>rq_path := p\<rparr>) = aud_matches_request env auds r"
  by (simp_all add: aud_matches_request_def)


section \<open>The installer behind the guard\<close>

text \<open>
  C11. The installer is public and keeps the registration token: anybody may fetch it, but unless the
  request authenticates as a client's, the script is the same whatever the token is. With
  credentials it carries the token as the default of its setting.
\<close>

theorem installer_keeps_token:
  assumes "rq_path r = installer_path"
  shows "with_guard env now a r = None
    \<and> (\<not> auth_ok env now a r \<longrightarrow>
        (\<forall>t. handle_installer (cfg\<lparr>hc_agent_token := t\<rparr>) (Some (auth_ok env now a)) r =
             handle_installer cfg (Some (auth_ok env now a)) r))
    \<and> (auth_ok env now a r \<longrightarrow>
        ''AGENT_TOKEN='' @ [CHR 0x22] @ ''${BOXEL_AGENT_TOKEN:-'' @ hc_agent_token cfg @ ''}'' @ [CHR 0x22]
          \<in> set (script_lines (installer_data_for cfg (Some (auth_ok env now a)) r)))"
proof (intro conjI impI allI)
  show "with_guard env now a r = None" using assms by (simp add: with_guard_def is_public_path_def)
  show "handle_installer (cfg\<lparr>hc_agent_token := t\<rparr>) (Some (auth_ok env now a)) r =
      handle_installer cfg (Some (auth_ok env now a)) r" if "\<not> auth_ok env now a r" for t
    using that by (simp add: hidden_token)
  assume "auth_ok env now a r"
  then have "id_token (installer_data_for cfg (Some (auth_ok env now a)) r) = hc_agent_token cfg"
    by (simp add: installer_data_for_def Let_def)
  with token_line [of "installer_data_for cfg (Some (auth_ok env now a)) r"]
  show "''AGENT_TOKEN='' @ [CHR 0x22] @ ''${BOXEL_AGENT_TOKEN:-'' @ hc_agent_token cfg @ ''}'' @ [CHR 0x22]
      \<in> set (script_lines (installer_data_for cfg (Some (auth_ok env now a)) r))" by (simp only:)
qed

lemma installer_keeps_token_witness:
  "\<not> auth_ok demo_env 0 token_auth (plain_request ''/install-agent'' (\<lambda>k. []))
   \<and> handle_installer (token_config\<lparr>hc_agent_token := ''s''\<rparr>) (Some (auth_ok demo_env 0 token_auth)) (plain_request ''/install-agent'' (\<lambda>k. [])) =
     handle_installer token_config (Some (auth_ok demo_env 0 token_auth)) (plain_request ''/install-agent'' (\<lambda>k. []))"
proof -
  let ?r = "plain_request ''/install-agent'' (\<lambda>k. [])"
  have p: "rq_path ?r = installer_path" by (simp add: plain_request_def installer_path_def)
  have n: "\<not> auth_ok demo_env 0 token_auth ?r"
    by (simp add: auth_ok_def static_ok_def static_methods_def bearer_ok_def oauth_ok_def token_auth_def plain_request_def)
  with installer_keeps_token [OF p] show ?thesis by blast
qed

section \<open>A VM served in process\<close>

text \<open>
  The \<^verbatim>\<open>--hub-connect\<close> path from end to end: at the hub only authenticated requests get past
  the guard to \<^verbatim>\<open>/vm/<name>/mcp\<close>, and those reach the MCP handler of the agent that runs in
  process, as \<^verbatim>\<open>/mcp\<close>, with method and headers but for the forwarding ones; its answer is
  the hub's.
\<close>

lemma vm_path_guarded: "\<not> is_public_path (''/vm/'' @ p)"
  by (simp add: is_public_path_def connect_path_def installer_path_def has_prefix_def)

theorem vm_mcp_in_process:
  assumes "hub_agent_config env su fl version mcp = Inr cfg0" and "start_agent ae cfg0 = Inr (cfg, sv)"
    and "lookup_agent name h = Some a" and "rq_path r = ''/vm/'' @ name @ ''/mcp''"
  shows "(with_guard genv now au r = None \<longleftrightarrow> auth_ok genv now au r)
    \<and> (\<exists>q. rq_path q = ''/mcp'' \<and> rq_method q = rq_method r \<and> (\<forall>k. k \<notin> forwarding_headers \<longrightarrow> rq_header q k = rq_header r k)
        \<and> fst (serve_proxy quote (\<lambda>i p. Inr (agent_answers ae w cfg l sv (over_channel peer p))) name r h) = mcp q)"
proof (intro conjI exI [of _ "over_channel peer (rewrite name r)"] allI impI)
  let ?q = "over_channel peer (rewrite name r)"
  show "with_guard genv now au r = None \<longleftrightarrow> auth_ok genv now au r"
    using vm_path_guarded [of "name @ ''/mcp''"] assms(4) by (simp add: with_guard_def guard_def)
  show p: "rq_path ?q = ''/mcp''"
    using assms(4) trim_prefix_append [of "''/vm/'' @ name" "''/mcp''"]
    by (simp add: over_channel_def rewrite_def rewrite_path_def Let_def)
  show "rq_method ?q = rq_method r" by (simp add: over_channel_def rewrite_def)
  show "rq_header ?q k = rq_header r k" if "k \<notin> forwarding_headers" for k
    using that by (auto simp: over_channel_def rewrite_def set_x_forwarded_def forwarding_headers_def)
  have "gc_handler (with_defaults cfg0) = Some (agent_mux mcp)"
    using assms(1) by (auto simp: hub_agent_config_def with_defaults_def result_iffs)
  then have "sv = InProcess (agent_mux mcp)"
    using assms(2) by (auto simp: start_agent_def Let_def result_iffs split: option.splits)
  then show "fst (serve_proxy quote (\<lambda>i p. Inr (agent_answers ae w cfg l sv (over_channel peer p))) name r h) = mcp ?q"
    using assms(3) p by (simp add: serve_proxy_def round_trip_def Let_def agent_answers_def dashboard_serve_def agent_mux_def)
qed

end
